(* ===== verification/Prelude.thy ===== *)
theory Prelude
  imports Main "HOL-Library.Word" "HOL-Library.While_Combinator"
begin

text \<open>
  The generic part of the development: names for the machine integers of the code, loops
  over machine addresses, and the lemmas on words, folds and function updates that the
  component theories share.  Nothing in this theory is specific to one component.
\<close>

unbundle bit_operations_syntax

section \<open>Machine integers\<close>

type_synonym u8 = "8 word"
type_synonym u16 = "16 word"
type_synonym u32 = "32 word"
type_synonym u64 = "64 word"

named_theorems mem_simps \<open>reads of a byte memory after a write\<close>
named_theorems loop_simps \<open>closed forms of the counted loops\<close>

lemma of_nat_u64_eq_iff:
  assumes "i < 2 ^ 64" and "j < 2 ^ 64"
  shows "(of_nat i :: u64) = of_nat j \<longleftrightarrow> i = j"
  using assms by (simp add: word_of_nat_eq_iff take_bit_nat_eq_self)

lemma unat_u64_less: "unat (n :: u64) < 2 ^ 64"
  using unsigned_less [of n] by simp

lemma take_bit_unat_u64: "take_bit 64 (unat (n :: u64)) = unat n"
  by (rule take_bit_nat_eq_self) (rule unat_u64_less)

lemma unat_of_nat_u64: "i < 2 ^ 64 \<Longrightarrow> unat (of_nat i :: u64) = i"
  by (simp add: unat_of_nat take_bit_nat_eq_self)

lemma unat_add_no_wrap:
  assumes "unat (a :: u64) + i < 2 ^ 64"
  shows "unat (a + of_nat i) = unat a + i"
proof -
  have i: "i < 2 ^ 64" using assms by simp
  have "unat (a + of_nat i) = (unat a + unat (of_nat i :: u64)) mod 2 ^ 64"
    by (simp add: unat_word_ariths)
  then show ?thesis using assms i by (simp add: unat_of_nat_u64)
qed

lemma add_of_nat_u64_eq_iff:
  assumes "i < 2 ^ 64" and "j < 2 ^ 64"
  shows "(a :: u64) + of_nat i = a + of_nat j \<longleftrightarrow> i = j"
  using of_nat_u64_eq_iff [OF assms] by simp

section \<open>Folds over index ranges\<close>

lemma fold_upt_Suc [loop_simps]:
  "fold f [0..<Suc n] s = f n (fold f [0..<n] s)"
  by simp

lemma fold_fun_upd_other:
  "(\<And>i. i \<in> set is \<Longrightarrow> a i \<noteq> x) \<Longrightarrow> fold (\<lambda>i m. m(a i := v i m)) is m x = m x"
  by (induction "is" arbitrary: m) auto

lemma fold_fun_upd_at:
  assumes "i < n" and "\<And>j. i < j \<Longrightarrow> j < n \<Longrightarrow> a j \<noteq> a i"
  shows "fold (\<lambda>j m. m(a j := v j)) [0..<n] m (a i) = v i"
  using assms
proof (induction n)
  case 0
  then show ?case by simp
next
  case (Suc n)
  show ?case
  proof (cases "i = n")
    case True
    then show ?thesis by simp
  next
    case False
    with Suc.prems(1) have "i < n" by simp
    with Suc.prems(2) have "fold (\<lambda>j m. m(a j := v j)) [0..<n] m (a i) = v i"
      by (intro Suc.IH) auto
    moreover have "a i \<noteq> a n"
      using Suc.prems(2) [of n] \<open>i < n\<close> by auto
    ultimately show ?thesis
      unfolding fold_upt_Suc by (subst fun_upd_other) assumption+
  qed
qed

lemma fold_invariant_upt:
  assumes "P s" and "\<And>i s. i < n \<Longrightarrow> P s \<Longrightarrow> P (f i s)"
  shows "P (fold f [0..<n] s)"
  using assms by (induction n) auto

section \<open>Loops over machine addresses\<close>

text \<open>
  \<open>for_up a hi step f s\<close> is the C loop
  \<^verbatim>\<open>for (addr = a; addr < hi; addr += step) s = f(addr, s);\<close> and \<open>for_down\<close> is
  \<^verbatim>\<open>for (addr = a; addr > lo; addr -= step) s = f(addr, s);\<close> both on unsigned 64-bit
  addresses that wrap around.  \<open>None\<close> is a loop that does not end, so the lemmas below,
  which give the closed form for bounds that are a multiple of the step apart, are also
  the termination proofs.
\<close>

partial_function (option) for_up ::
  "u64 \<Rightarrow> u64 \<Rightarrow> u64 \<Rightarrow> (u64 \<Rightarrow> 's \<Rightarrow> 's) \<Rightarrow> 's \<Rightarrow> 's option" where
  [code]: "for_up addr hi step f s =
     (if addr < hi then for_up (addr + step) hi step f (f addr s) else Some s)"

partial_function (option) for_down ::
  "u64 \<Rightarrow> u64 \<Rightarrow> u64 \<Rightarrow> (u64 \<Rightarrow> 's \<Rightarrow> 's) \<Rightarrow> 's \<Rightarrow> 's option" where
  [code]: "for_down addr lo step f s =
     (if addr > lo then for_down (addr - step) lo step f (f addr s) else Some s)"

lemma for_up_done [loop_simps]: "\<not> addr < hi \<Longrightarrow> for_up addr hi step f s = Some s"
  by (subst for_up.simps) simp

lemma for_down_done [loop_simps]: "\<not> lo < addr \<Longrightarrow> for_down addr lo step f s = Some s"
  by (subst for_down.simps) simp

lemma for_up_closed:
  assumes "unat hi = unat addr + n * unat step" and "0 < unat step"
  shows "for_up addr hi step f s = Some (fold (\<lambda>k. f (addr + of_nat k * step)) [0..<n] s)"
  using assms(1)
proof (induction n arbitrary: addr s)
  case 0
  then have "\<not> addr < hi" by (simp add: word_less_nat_alt)
  then show ?case by (simp add: for_up_done)
next
  case (Suc n)
  have hi: "unat hi = unat addr + unat step + n * unat step"
    using Suc.prems by simp
  have small: "unat addr + unat step < 2 ^ 64"
    using hi unat_u64_less [of hi] by linarith
  have next_addr: "unat (addr + step) = unat addr + unat step"
    using unat_add_no_wrap [OF small] by simp
  have lt: "addr < hi"
    using hi assms(2) by (simp add: word_less_nat_alt)
  have "for_up addr hi step f s = for_up (addr + step) hi step f (f addr s)"
    using lt by (subst for_up.simps) simp
  also have "\<dots> = Some (fold (\<lambda>k. f (addr + step + of_nat k * step)) [0..<n] (f addr s))"
    using hi next_addr by (intro Suc.IH) simp
  also have "fold (\<lambda>k. f (addr + step + of_nat k * step)) [0..<n] (f addr s)
      = fold (\<lambda>k. f (addr + of_nat k * step)) [0..<Suc n] s"
  proof -
    have "[0..<Suc n] = 0 # map Suc [0..<n]" by (simp add: map_Suc_upt upt_conv_Cons)
    then show ?thesis by (simp add: fold_map comp_def algebra_simps)
  qed
  finally show ?case .
qed

lemma for_down_inert:
  assumes "unat addr = unat lo + n * unat step" and "\<And>a. f a s = s"
  shows "for_down addr lo step f s = Some s"
  using assms(1)
proof (induction n arbitrary: addr)
  case 0
  then have "addr = lo" by (simp add: word_unat_eq_iff)
  then show ?case by (simp add: for_down_done)
next
  case (Suc n)
  show ?case
  proof (cases "lo < addr")
    case True
    have le: "unat step \<le> unat addr" using Suc.prems by simp
    have "unat (addr - step) = unat addr - unat step"
      using le by (simp add: unat_sub word_le_nat_alt)
    then have "for_down (addr - step) lo step f s = Some s"
      using Suc.prems by (intro Suc.IH) simp
    with True assms(2) show ?thesis by (subst for_down.simps) simp
  next
    case False
    then show ?thesis by (simp add: for_down_done)
  qed
qed

section \<open>Alignment\<close>

lemma unat_AND_mask: "unat ((w :: u64) AND mask n) = unat w mod 2 ^ n"
proof -
  have "unat (w AND mask n) = unat (take_bit n w)" by (simp only: take_bit_eq_mask)
  also have "\<dots> = take_bit n (unat w)" by (rule unsigned_take_bit_eq)
  finally show ?thesis by (simp only: take_bit_eq_mod)
qed

lemma unat_add_mod:
  assumes "n \<le> 64"
  shows "unat (a + b :: u64) mod 2 ^ n = (unat a + unat b) mod 2 ^ n"
proof -
  have "unat (a + b) = (unat a + unat b) mod 2 ^ 64" by (simp add: unat_word_ariths)
  moreover have "(2 :: nat) ^ n dvd 2 ^ 64" using assms by (rule le_imp_power_dvd)
  ultimately show ?thesis by (simp only: mod_mod_cancel)
qed

lemma unat_of_nat_mod:
  assumes "n \<le> 64"
  shows "unat (of_nat i :: u64) mod 2 ^ n = i mod 2 ^ n"
proof -
  have "unat (of_nat i :: u64) = i mod 2 ^ 64"
    by (simp add: unat_of_nat take_bit_eq_mod)
  moreover have "(2 :: nat) ^ n dvd 2 ^ 64" using assms by (rule le_imp_power_dvd)
  ultimately show ?thesis by (simp only: mod_mod_cancel)
qed

lemma mask_12: "(0xFFF :: u64) = mask 12"
  by (simp add: mask_eq_exp_minus_1)

lemma mask_32: "(0xFFFFFFFF :: u64) = mask 32"
  by (simp add: mask_eq_exp_minus_1)

lemma mask_16: "(0xFFFF :: u64) = mask 16"
  by (simp add: mask_eq_exp_minus_1)

lemma mask_21: "(0x1FFFFF :: u64) = mask 21"
  by (simp add: mask_eq_exp_minus_1)

lemma unat_mask_4096:
  "unat (x AND NOT 0xFFF :: u64) = (unat x div 4096) * 4096"
proof -
  have m: "(0xFFF :: u64) = mask 12" by (simp add: mask_eq_exp_minus_1)
  have "x AND NOT 0xFFF = push_bit 12 (drop_bit 12 x)"
    unfolding m by (rule bit_word_eqI) (auto simp: bit_simps)
  moreover have "unat (push_bit 12 (drop_bit 12 x)) = take_bit 64 (push_bit 12 (drop_bit 12 (unat x)))"
    by (simp add: unsigned_push_bit_eq unsigned_drop_bit_eq take_bit_unat_u64)
  moreover have "push_bit 12 (drop_bit 12 (unat x)) = (unat x div 4096) * 4096"
    by (simp add: push_bit_eq_mult drop_bit_eq_div)
  moreover have "(unat x div 4096) * 4096 < 2 ^ 64"
    using unat_u64_less [of x] div_times_less_eq_dividend [of "unat x" 4096] by linarith
  ultimately show ?thesis by (simp add: take_bit_nat_eq_self)
qed

end
