(* ===== verification/Mem.thy ===== *)
theory Mem
  imports Prelude
begin

text \<open>
  Byte memory and the block operations on it: \<^verbatim>\<open>src/kern/mem/memcpy.c\<close>,
  \<^verbatim>\<open>memmove.c\<close>, \<^verbatim>\<open>memset.c\<close>, \<^verbatim>\<open>memcmp.c\<close> and the built-in versions at
  the top of \<^verbatim>\<open>src/kern/acpi/stdlib.c\<close>.  Memory is a total map from 64-bit addresses
  to bytes; pointers are addresses, so overlap between source and destination is visible.
\<close>

type_synonym mem = "u64 \<Rightarrow> u8"

section \<open>The kernel's block operations\<close>

text \<open>The body of the copy loops, \<^verbatim>\<open>pdest[i] = psrc[i]\<close>, and of the fill loop.\<close>

definition copy_byte :: "u64 \<Rightarrow> u64 \<Rightarrow> nat \<Rightarrow> mem \<Rightarrow> mem" where
  "copy_byte dest src i m = m(dest + of_nat i := m (src + of_nat i))"

definition set_byte :: "u64 \<Rightarrow> u8 \<Rightarrow> nat \<Rightarrow> mem \<Rightarrow> mem" where
  "set_byte s c i m = m(s + of_nat i := c)"

definition memcpy :: "u64 \<Rightarrow> u64 \<Rightarrow> u64 \<Rightarrow> mem \<Rightarrow> u64 \<times> mem" where
  "memcpy dest src n m =
     (dest, fold (copy_byte dest src) [0..<unat n] m)"

definition memmove :: "u64 \<Rightarrow> u64 \<Rightarrow> u64 \<Rightarrow> mem \<Rightarrow> u64 \<times> mem" where
  "memmove dest src n m =
     (dest,
      if src > dest then
        fold (copy_byte dest src) [0..<unat n] m
      else if src < dest then
        fold (copy_byte dest src) (rev [0..<unat n]) m
      else m)"

text \<open>The fill value is a C \<^verbatim>\<open>int\<close>, cut to a byte at each store.\<close>

definition memset :: "u64 \<Rightarrow> u32 \<Rightarrow> u64 \<Rightarrow> mem \<Rightarrow> u64 \<times> mem" where
  "memset s c n m = (s, fold (set_byte s (ucast c)) [0..<unat n] m)"

fun memcmp_from :: "nat list \<Rightarrow> u64 \<Rightarrow> u64 \<Rightarrow> mem \<Rightarrow> int" where
  "memcmp_from [] s1 s2 m = 0"
| "memcmp_from (i # is) s1 s2 m =
     (if m (s1 + of_nat i) \<noteq> m (s2 + of_nat i)
      then (if m (s1 + of_nat i) < m (s2 + of_nat i) then -1 else 1)
      else memcmp_from is s1 s2 m)"

definition memcmp :: "u64 \<Rightarrow> u64 \<Rightarrow> u64 \<Rightarrow> mem \<Rightarrow> int" where
  "memcmp s1 s2 n m = memcmp_from [0..<unat n] s1 s2 m"

section \<open>The built-in versions of the ACPI library\<close>

text \<open>
  \<^verbatim>\<open>while (count--) *cd++ = *cs++;\<close> and its downward twin
  \<^verbatim>\<open>while (count--) *--cd = *--cs;\<close>
\<close>

fun copy_up :: "nat \<Rightarrow> u64 \<Rightarrow> u64 \<Rightarrow> mem \<Rightarrow> mem" where
  "copy_up 0 cd cs m = m"
| "copy_up (Suc count) cd cs m = copy_up count (cd + 1) (cs + 1) (m(cd := m cs))"

fun copy_down :: "nat \<Rightarrow> u64 \<Rightarrow> u64 \<Rightarrow> mem \<Rightarrow> mem" where
  "copy_down 0 cd cs m = m"
| "copy_down (Suc count) cd cs m =
     copy_down count (cd - 1) (cs - 1) (m(cd - 1 := m (cs - 1)))"

definition uacpi_memcpy :: "u64 \<Rightarrow> u64 \<Rightarrow> u64 \<Rightarrow> mem \<Rightarrow> u64 \<times> mem" where
  "uacpi_memcpy dest src count m = (dest, copy_up (unat count) dest src m)"

definition uacpi_memmove :: "u64 \<Rightarrow> u64 \<Rightarrow> u64 \<Rightarrow> mem \<Rightarrow> u64 \<times> mem" where
  "uacpi_memmove dest src count m =
     (dest,
      if src < dest then copy_down (unat count) (dest + count) (src + count) m
      else copy_up (unat count) dest src m)"

fun fill_up :: "nat \<Rightarrow> u64 \<Rightarrow> u8 \<Rightarrow> mem \<Rightarrow> mem" where
  "fill_up 0 cdest fill m = m"
| "fill_up (Suc count) cdest fill m = fill_up count (cdest + 1) fill (m(cdest := fill))"

definition uacpi_memset :: "u64 \<Rightarrow> u32 \<Rightarrow> u64 \<Rightarrow> mem \<Rightarrow> u64 \<times> mem" where
  "uacpi_memset dest ch count m = (dest, fill_up (unat count) dest (ucast ch) m)"

text \<open>The built-in comparison returns the difference of the first two bytes that differ.\<close>

fun uacpi_memcmp_from :: "nat list \<Rightarrow> u64 \<Rightarrow> u64 \<Rightarrow> mem \<Rightarrow> int" where
  "uacpi_memcmp_from [] lhs rhs m = 0"
| "uacpi_memcmp_from (i # is) lhs rhs m =
     (if m (lhs + of_nat i) \<noteq> m (rhs + of_nat i)
      then uint (m (lhs + of_nat i)) - uint (m (rhs + of_nat i))
      else uacpi_memcmp_from is lhs rhs m)"

definition uacpi_memcmp :: "u64 \<Rightarrow> u64 \<Rightarrow> u64 \<Rightarrow> mem \<Rightarrow> int" where
  "uacpi_memcmp lhs rhs count m = uacpi_memcmp_from [0..<unat count] lhs rhs m"

section \<open>What a block operation promises\<close>

text \<open>
  \<open>blit\<close> reads the whole source before it writes, which is what a block move promises;
  \<open>fits\<close> says that a block does not run past the end of the address space.
\<close>

definition in_block :: "u64 \<Rightarrow> u64 \<Rightarrow> u64 \<Rightarrow> bool" where
  "in_block a n x \<longleftrightarrow> unat (x - a) < unat n"

definition blit :: "u64 \<Rightarrow> u64 \<Rightarrow> u64 \<Rightarrow> mem \<Rightarrow> mem" where
  "blit dest src n m = (\<lambda>x. if in_block dest n x then m (src + (x - dest)) else m x)"

definition fits :: "u64 \<Rightarrow> u64 \<Rightarrow> bool" where
  "fits a n \<longleftrightarrow> unat a + unat n \<le> 2 ^ 64"

definition read_bytes :: "mem \<Rightarrow> u64 \<Rightarrow> nat \<Rightarrow> u8 list" where
  "read_bytes m a n = map (\<lambda>i. m (a + of_nat i)) [0..<n]"

lemma length_read_bytes [simp]: "length (read_bytes m a n) = n"
  by (simp add: read_bytes_def)

lemma nth_read_bytes [simp]: "i < n \<Longrightarrow> read_bytes m a n ! i = m (a + of_nat i)"
  by (simp add: read_bytes_def)

lemma in_block_offset:
  assumes "i < 2 ^ 64"
  shows "in_block a n (a + of_nat i) \<longleftrightarrow> i < unat n"
  using assms by (simp add: in_block_def unat_of_nat_u64)

lemma blit_same [simp]: "blit a a n m = m"
  by (auto simp: blit_def fun_eq_iff)

lemma blit_at [mem_simps]:
  "i < unat n \<Longrightarrow> blit dest src n m (dest + of_nat i) = m (src + of_nat i)"
  using unat_u64_less [of n] by (simp add: blit_def in_block_offset)

lemma blit_outside [mem_simps]: "\<not> in_block dest n x \<Longrightarrow> blit dest src n m x = m x"
  by (simp add: blit_def)

text \<open>A word is the base plus its offset: every address is \<open>d + of_nat j\<close> for one \<open>j\<close>.\<close>

lemma offset_of: "(x :: u64) = d + of_nat (unat (x - d))"
  by simp

lemma unat_diff_eq_iff:
  assumes "k < 2 ^ 64"
  shows "unat (x - d :: u64) = k \<longleftrightarrow> x = d + of_nat k"
proof
  assume "unat (x - d) = k"
  then show "x = d + of_nat k" using offset_of [of x d] by simp
next
  assume "x = d + of_nat k"
  then show "unat (x - d) = k" using assms by (simp add: unat_of_nat_u64)
qed

lemma forward_copy:
  assumes "k \<le> unat (n :: u64)"
    and clear: "\<And>i j. j < i \<Longrightarrow> i < unat n \<Longrightarrow> src + of_nat i \<noteq> dest + of_nat j"
  shows "fold (copy_byte dest src) [0..<k] m
       = (\<lambda>x. if unat (x - dest) < k then m (src + (x - dest)) else m x)"
  using assms(1)
proof (induction k)
  case 0
  then show ?case by simp
next
  case (Suc k)
  let ?F = "\<lambda>x. if unat (x - dest) < k then m (src + (x - dest)) else m x"
  have k: "k < unat n" using Suc.prems by simp
  then have k64: "k < 2 ^ 64" using unat_u64_less [of n] by simp
  have "\<not> unat (src + of_nat k - dest) < k"
    using clear [OF _ k, of "unat (src + of_nat k - dest)"] by auto
  then have "?F (src + of_nat k) = m (src + of_nat k)" by simp
  then have "copy_byte dest src k ?F = ?F(dest + of_nat k := m (src + of_nat k))"
    by (simp only: copy_byte_def)
  moreover have "fold (copy_byte dest src) [0..<Suc k] m = copy_byte dest src k ?F"
    using Suc by simp
  ultimately have "fold (copy_byte dest src) [0..<Suc k] m
      = ?F(dest + of_nat k := m (src + of_nat k))"
    by simp
  also have "\<dots> = (\<lambda>x. if unat (x - dest) < Suc k then m (src + (x - dest)) else m x)"
    using unat_diff_eq_iff [OF k64, of _ dest] by (auto simp: fun_eq_iff less_Suc_eq)
  finally show ?case .
qed

lemma backward_copy:
  assumes "j \<le> unat (n :: u64)"
    and clear: "\<And>i j. i < j \<Longrightarrow> j < unat n \<Longrightarrow> src + of_nat i \<noteq> dest + of_nat j"
  shows "fold (copy_byte dest src) (rev [unat n - j..<unat n]) m
       = (\<lambda>x. if unat n - j \<le> unat (x - dest) \<and> unat (x - dest) < unat n
              then m (src + (x - dest)) else m x)"
  using assms(1)
proof (induction j)
  case 0
  then show ?case by (auto simp: fun_eq_iff)
next
  case (Suc j)
  define k where "k = unat n - Suc j"
  let ?F = "\<lambda>x. if unat n - j \<le> unat (x - dest) \<and> unat (x - dest) < unat n
              then m (src + (x - dest)) else m x"
  have k: "k < unat n" "Suc k = unat n - j" using Suc.prems by (auto simp: k_def)
  then have k64: "k < 2 ^ 64" using unat_u64_less [of n] by simp
  have "\<not> (Suc k \<le> unat (src + of_nat k - dest) \<and> unat (src + of_nat k - dest) < unat n)"
    using clear [of k "unat (src + of_nat k - dest)"] by auto
  then have rd: "?F (src + of_nat k) = m (src + of_nat k)" using k(2) by auto
  have "[k..<unat n] = k # [unat n - j..<unat n]"
    using k by (simp add: upt_conv_Cons)
  then have "fold (copy_byte dest src) (rev [k..<unat n]) m = copy_byte dest src k ?F"
    using Suc by simp
  moreover have "copy_byte dest src k ?F = ?F(dest + of_nat k := m (src + of_nat k))"
    unfolding copy_byte_def rd ..
  ultimately have "fold (copy_byte dest src) (rev [k..<unat n]) m
      = ?F(dest + of_nat k := m (src + of_nat k))"
    by simp
  also have "\<dots> = (\<lambda>x. if k \<le> unat (x - dest) \<and> unat (x - dest) < unat n
              then m (src + (x - dest)) else m x)"
  proof (rule ext)
    fix x
    have "unat n - j = Suc k" using k(2) by simp
    moreover have "unat (x - dest) = k \<longleftrightarrow> x = dest + of_nat k"
      by (rule unat_diff_eq_iff [OF k64])
    ultimately show "(?F(dest + of_nat k := m (src + of_nat k))) x
        = (if k \<le> unat (x - dest) \<and> unat (x - dest) < unat n
           then m (src + (x - dest)) else m x)"
      using k(1) by (cases "unat (x - dest) = k") auto
  qed
  finally show ?case by (simp add: k_def)
qed

lemma no_wrap_offsets:
  assumes "fits src n" and "fits dest n" and "i < unat n" and "j < unat n"
  shows "src + of_nat i = dest + of_nat j \<longleftrightarrow> unat src + i = unat dest + j"
proof -
  have "unat src + i < 2 ^ 64" "unat dest + j < 2 ^ 64"
    using assms unfolding fits_def by linarith+
  then have "unat (src + of_nat i) = unat src + i" "unat (dest + of_nat j) = unat dest + j"
    by (simp_all only: unat_add_no_wrap)
  then show ?thesis by (metis word_unat_eq_iff)
qed

lemma memmove_eq_blit:
  assumes "fits src n" and "fits dest n"
  shows "snd (memmove dest src n m) = blit dest src n m"
proof -
  consider "dest < src" | "src < dest" | "src = dest" by fastforce
  then show ?thesis
  proof cases
    case 1
    then have "src + of_nat i \<noteq> dest + of_nat j" if "j < i" "i < unat n" for i j
      using no_wrap_offsets [OF assms, of i j] that by (auto simp: word_less_nat_alt)
    from forward_copy [OF order.refl this] 1 show ?thesis
      by (simp add: memmove_def blit_def in_block_def)
  next
    case 2
    then have "src + of_nat i \<noteq> dest + of_nat j" if "i < j" "j < unat n" for i j
      using no_wrap_offsets [OF assms, of i j] that by (auto simp: word_less_nat_alt)
    from backward_copy [OF order.refl this] 2 show ?thesis
      by (auto simp: memmove_def blit_def in_block_def)
  next
    case 3
    then show ?thesis by (simp add: memmove_def)
  qed
qed

lemma memcpy_eq_blit:
  assumes "\<And>i j. i < unat n \<Longrightarrow> j < unat n \<Longrightarrow> src + of_nat i \<noteq> dest + of_nat j"
  shows "snd (memcpy dest src n m) = blit dest src n m"
  using forward_copy [OF order.refl, of n src dest] assms
  by (simp add: memcpy_def blit_def in_block_def)

section \<open>The built-in copies against the kernel's\<close>

lemma copy_up_eq: "copy_up c d s m = fold (copy_byte d s) [0..<c] m"
proof (induction c arbitrary: d s m)
  case 0
  then show ?case by simp
next
  case (Suc c)
  have shift: "copy_byte d s (Suc i) = copy_byte (d + 1) (s + 1) i" for i
    by (simp add: copy_byte_def fun_eq_iff add.assoc)
  have "[0..<Suc c] = 0 # map Suc [0..<c]" by (simp add: map_Suc_upt upt_conv_Cons)
  then have "fold (copy_byte d s) [0..<Suc c] m
      = fold (copy_byte (d + 1) (s + 1)) [0..<c] (copy_byte d s 0 m)"
    by (simp add: fold_map comp_def shift)
  moreover have "copy_byte d s 0 m = m(d := m s)" by (simp add: copy_byte_def)
  ultimately show ?case by (simp only: copy_up.simps Suc.IH)
qed

lemma copy_down_eq:
  "copy_down c (d + of_nat c) (s + of_nat c) m = fold (copy_byte d s) (rev [0..<c]) m"
proof (induction c arbitrary: m)
  case 0
  then show ?case by simp
next
  case (Suc c)
  have "d + of_nat (Suc c) - 1 = d + of_nat c" "s + of_nat (Suc c) - 1 = s + of_nat c"
    by simp_all
  then show ?case using Suc by (simp add: copy_byte_def)
qed

lemma uacpi_memcpy_eq: "uacpi_memcpy dest src n m = memcpy dest src n m"
  by (simp add: uacpi_memcpy_def memcpy_def copy_up_eq)

lemma uacpi_memmove_eq_blit:
  assumes "fits src n" and "fits dest n"
  shows "snd (uacpi_memmove dest src n m) = blit dest src n m"
proof (cases "src = dest")
  case True
  have "fold (copy_byte dest dest) is m = m" for "is"
    by (induction "is") (simp_all add: copy_byte_def)
  with True show ?thesis by (simp add: uacpi_memmove_def copy_up_eq)
next
  case False
  have "snd (uacpi_memmove dest src n m) = snd (memmove dest src n m)"
    using False copy_down_eq [of "unat n" dest src m]
    by (auto simp: uacpi_memmove_def memmove_def copy_up_eq)
  then show ?thesis using memmove_eq_blit [OF assms] by simp
qed

section \<open>Filling and comparing\<close>

lemma fold_set_byte:
  assumes "k \<le> unat (n :: u64)"
  shows "fold (set_byte s c) [0..<k] m = (\<lambda>x. if unat (x - s) < k then c else m x)"
  using assms
proof (induction k)
  case 0
  then show ?case by simp
next
  case (Suc k)
  let ?F = "\<lambda>x. if unat (x - s) < k then c else m x"
  have k64: "k < 2 ^ 64" using Suc.prems unat_u64_less [of n] by simp
  have "fold (set_byte s c) [0..<Suc k] m = set_byte s c k ?F" using Suc by simp
  also have "\<dots> = (\<lambda>x. if unat (x - s) < Suc k then c else m x)"
    using unat_diff_eq_iff [OF k64, of _ s] by (auto simp: set_byte_def fun_eq_iff less_Suc_eq)
  finally show ?case .
qed

lemma memset_apply [mem_simps]:
  "snd (memset s c n m) x = (if in_block s n x then ucast c else m x)"
  using fold_set_byte [OF order.refl, where n = n and s = s] by (simp add: memset_def in_block_def)

lemma fill_up_eq: "fill_up c s v m = fold (set_byte s v) [0..<c] m"
proof (induction c arbitrary: s m)
  case 0
  then show ?case by simp
next
  case (Suc c)
  have shift: "set_byte s v (Suc i) = set_byte (s + 1) v i" for i
    by (simp add: set_byte_def fun_eq_iff add.assoc)
  have "[0..<Suc c] = 0 # map Suc [0..<c]" by (simp add: map_Suc_upt upt_conv_Cons)
  then have "fold (set_byte s v) [0..<Suc c] m
      = fold (set_byte (s + 1) v) [0..<c] (set_byte s v 0 m)"
    by (simp add: fold_map comp_def shift)
  moreover have "set_byte s v 0 m = m(s := v)" by (simp add: set_byte_def)
  ultimately show ?case by (simp only: fill_up.simps Suc.IH)
qed

lemma uacpi_memset_eq: "uacpi_memset s c n m = memset s c n m"
  by (simp add: uacpi_memset_def memset_def fill_up_eq)

lemma memcmp_from_sgn: "memcmp_from is a b m = sgn (uacpi_memcmp_from is a b m)"
  by (induction "is") (auto simp: word_less_def word_uint_eq_iff sgn_if)

lemma memcmp_from_zero:
  "memcmp_from is a b m = 0 \<longleftrightarrow> (\<forall>i \<in> set is. m (a + of_nat i) = m (b + of_nat i))"
  by (induction "is") auto

lemma memcmp_eq_sgn: "memcmp a b n m = sgn (uacpi_memcmp a b n m)"
  by (simp add: memcmp_def uacpi_memcmp_def memcmp_from_sgn)

lemma memcmp_zero_iff:
  "memcmp a b n m = 0 \<longleftrightarrow> read_bytes m a (unat n) = read_bytes m b (unat n)"
  by (auto simp: memcmp_def memcmp_from_zero read_bytes_def)

section \<open>The interface of a block move\<close>

text \<open>
  Two implementations are linked into the kernel: its own \<^verbatim>\<open>memmove\<close> and the
  library's built-in one.  Clients rely on the same two laws of either.
\<close>

locale block_move =
  fixes move :: "u64 \<Rightarrow> u64 \<Rightarrow> u64 \<Rightarrow> mem \<Rightarrow> u64 \<times> mem"
  assumes move_returns_dest: "fst (move dest src n m) = dest"
    and move_blits: "fits src n \<Longrightarrow> fits dest n \<Longrightarrow> snd (move dest src n m) = blit dest src n m"
begin

lemma moved_bytes:
  assumes "fits src n" and "fits dest n"
  shows "read_bytes (snd (move dest src n m)) dest (unat n) = read_bytes m src (unat n)"
  using assms by (simp add: move_blits read_bytes_def blit_at)

lemma moved_frame:
  assumes "fits src n" and "fits dest n" and "\<not> in_block dest n x"
  shows "snd (move dest src n m) x = m x"
  using assms by (simp add: move_blits blit_outside)

end

interpretation kernel_move: block_move memmove
  by unfold_locales (simp_all add: memmove_eq_blit, simp add: memmove_def)

interpretation builtin_move: block_move uacpi_memmove
  by unfold_locales (simp_all add: uacpi_memmove_eq_blit, simp add: uacpi_memmove_def)

section \<open>Properties\<close>

text \<open>C37: \<open>memmove\<close> is correct on overlapping blocks: for blocks that do not wrap around
  the address space, the destination afterwards holds the bytes the source held before,
  every byte outside it is unchanged, and the built-in \<open>uacpi_memmove\<close> leaves the very
  same memory.\<close>

theorem memmove_moves:
  assumes "fits src n" and "fits dest n"
  shows "read_bytes (snd (memmove dest src n m)) dest (unat n) = read_bytes m src (unat n)
       \<and> (\<forall>x. in_block dest n x \<or> snd (memmove dest src n m) x = m x)
       \<and> memmove dest src n m = uacpi_memmove dest src n m"
proof -
  have "memmove dest src n m = uacpi_memmove dest src n m"
    using assms by (intro prod_eqI)
      (simp_all add: kernel_move.move_blits builtin_move.move_blits
        kernel_move.move_returns_dest builtin_move.move_returns_dest)
  then show ?thesis
    using kernel_move.moved_bytes [OF assms] kernel_move.moved_frame [OF assms] by blast
qed

theorem memmove_moves_witness:
  "read_bytes (snd (memmove 0x1002 0x1000 4 (\<lambda>x. ucast x))) 0x1002 4 = [0, 1, 2, 3]"
proof -
  have "fits 0x1000 4" "fits 0x1002 4" by (simp_all add: fits_def)
  from memmove_moves [OF this, of "\<lambda>x. ucast x"]
  have "read_bytes (snd (memmove 0x1002 0x1000 4 (\<lambda>x. ucast x))) 0x1002 (unat (4 :: u64))
      = read_bytes (\<lambda>x. ucast x) 0x1000 (unat (4 :: u64))" by (rule conjunct1)
  also have "\<dots> = [0, 1, 2, 3]" by (simp add: read_bytes_def upt_rec)
  finally show ?thesis by simp
qed

text \<open>The kernel's \<open>memcmp\<close> is the sign of the built-in one, and both report equality
  exactly when the two blocks hold the same bytes.\<close>

lemma memcmp_agrees:
  "memcmp a b n m = sgn (uacpi_memcmp a b n m)
   \<and> ((uacpi_memcmp a b n m = 0) = (read_bytes m a (unat n) = read_bytes m b (unat n)))"
  using memcmp_zero_iff [of a b n m] memcmp_eq_sgn [of a b n m] by (simp add: sgn_0_0)

end
