(* ===== verification/Serial.thy ===== *)
theory Serial
  imports Prelude "HOL-Library.Monad_Syntax"
begin

text \<open>
  The serial console, \<^verbatim>\<open>src/kern/serial/serial.c\<close>.  The device is the log of the
  bytes written to I/O ports.  A C string is the list of the bytes of its object, so a
  read beyond the object is visible: it is the result \<open>None\<close>, as is every other
  undefined behaviour of the code (an index outside a local buffer, the negation of
  \<^verbatim>\<open>INT_MIN\<close>, a missing variable argument).
\<close>

type_synonym port_log = "(u16 \<times> u8) list"

definition cstr :: "string \<Rightarrow> u8 list" where
  "cstr s = map of_char s @ [0]"

definition SERIAL_PORT :: u16 where
  "SERIAL_PORT = 0x3F8"

definition outb :: "u16 \<Rightarrow> u8 \<Rightarrow> port_log \<Rightarrow> port_log" where
  "outb port val log = log @ [(port, val)]"

fun serial_write :: "u8 list \<Rightarrow> port_log \<Rightarrow> port_log option" where
  "serial_write [] log = None"
| "serial_write (c # str) log =
     (if c \<noteq> 0 then serial_write str (outb SERIAL_PORT c log) else Some log)"

section \<open>Numbers\<close>

definition hex_digits :: "u8 list" where
  "hex_digits = map of_char ''0123456789ABCDEF''"

text \<open>
  \<^verbatim>\<open>for (int i = 15; i >= 0; i--) { buffer[i] = hex_digits[value & 0xF]; value >>= 4; }\<close>
  Every cell of the local buffers is written before it is read, so the model starts them
  with zeros.
\<close>

fun hex_loop :: "nat list \<Rightarrow> u64 \<Rightarrow> u8 list \<Rightarrow> u8 list" where
  "hex_loop [] value buffer = buffer"
| "hex_loop (i # is) value buffer =
     hex_loop is (drop_bit 4 value) (buffer[i := hex_digits ! unat (value AND 0xF)])"

definition serial_write_hex :: "u64 \<Rightarrow> port_log \<Rightarrow> port_log option" where
  "serial_write_hex value log =
     (let buffer = hex_loop (rev [0..<16]) value ((replicate 17 0)[16 := 0]) in
      do { log \<leftarrow> serial_write (cstr ''0x'') log; serial_write buffer log })"

text \<open>
  The \<^verbatim>\<open>do ... while\<close> of \<open>serial_write_dec\<close>: the index is decremented before the
  store, so \<open>0\<close> on entry would be a store before the buffer.
\<close>

fun dec_loop :: "nat \<Rightarrow> u64 \<Rightarrow> u8 list \<Rightarrow> (nat \<times> u8 list) option" where
  "dec_loop 0 value buffer = None"
| "dec_loop (Suc i) value buffer =
     (let buffer = buffer[i := 48 + ucast (value mod 10)]; value = value div 10 in
      if value > 0 then dec_loop i value buffer else Some (i, buffer))"

definition serial_write_dec :: "u64 \<Rightarrow> port_log \<Rightarrow> port_log option" where
  "serial_write_dec value log =
     do { (i, buffer) \<leftarrow> dec_loop 20 value ((replicate 21 0)[20 := 0]);
          serial_write (drop i buffer) log }"

text \<open>A C \<^verbatim>\<open>int\<close> is an integer between \<open>INT_MIN\<close> and \<open>INT_MAX\<close>.\<close>

definition INT_MIN :: int where "INT_MIN = - (2 ^ 31)"
definition INT_MAX :: int where "INT_MAX = 2 ^ 31 - 1"

function int_digits :: "int \<Rightarrow> nat \<Rightarrow> u8 list \<Rightarrow> (nat \<times> u8 list) option" where
  "int_digits value i buffer =
     (if length buffer \<le> i then None
      else let buffer = buffer[i := 48 + of_int (value mod 10)]; value = value div 10 in
           if value > 0 then int_digits value (Suc i) buffer else Some (Suc i, buffer))"
  by pat_completeness auto
termination
  by (relation "measure (\<lambda>(value, i, buffer). length buffer - i)") auto

declare int_digits.simps [simp del]

definition store_char :: "u8 list \<Rightarrow> nat \<Rightarrow> u8 \<Rightarrow> u8 list option" where
  "store_char buffer i c = (if i < length buffer then Some (buffer[i := c]) else None)"

definition swap_ends :: "nat \<Rightarrow> nat \<Rightarrow> u8 list \<Rightarrow> u8 list" where
  "swap_ends i j buffer = buffer[j := buffer ! (i - j - 1), i - j - 1 := buffer ! j]"

definition int_to_string :: "int \<Rightarrow> u8 list \<Rightarrow> u8 list option" where
  "int_to_string value buffer =
     do { value' \<leftarrow> (if value < 0 then (if value = INT_MIN then None else Some (- value))
                    else Some value);
          (i, buffer) \<leftarrow> int_digits value' 0 buffer;
          (i, buffer) \<leftarrow> (if value < 0 then do { b \<leftarrow> store_char buffer i 45; Some (Suc i, b) }
                         else Some (i, buffer));
          buffer \<leftarrow> store_char buffer i 0;
          Some (fold (swap_ends i) [0..<i div 2] buffer) }"

section \<open>Formatted output\<close>

text \<open>
  The variable arguments the kernel passes: an \<^verbatim>\<open>int\<close>, an unsigned 64-bit integer or a
  string.  Reading an \<^verbatim>\<open>int\<close> from the register that holds a 64-bit argument yields its
  low half, as the calling convention of the target has it; reading 64 bits where an
  \<^verbatim>\<open>int\<close> was passed yields unspecified bits and is \<open>None\<close>.
\<close>

datatype varg = VInt int | VU64 u64 | VStr "u8 list"

fun va_arg_int :: "varg \<Rightarrow> int option" where
  "va_arg_int (VInt v) = Some v"
| "va_arg_int (VU64 v) = Some (sint (ucast v :: u32))"
| "va_arg_int (VStr s) = None"

fun va_arg_u64 :: "varg \<Rightarrow> u64 option" where
  "va_arg_u64 (VU64 v) = Some v"
| "va_arg_u64 _ = None"

fun va_arg_str :: "varg \<Rightarrow> u8 list option" where
  "va_arg_str (VStr s) = Some s"
| "va_arg_str _ = None"

definition next_arg :: "varg list \<Rightarrow> (varg \<times> varg list) option" where
  "next_arg args = (case args of [] \<Rightarrow> None | a # args \<Rightarrow> Some (a, args))"

text \<open>The \<^verbatim>\<open>switch\<close> over the character after the percent sign.\<close>

definition printf_conv :: "u8 \<Rightarrow> varg list \<Rightarrow> port_log \<Rightarrow> (varg list \<times> port_log) option" where
  "printf_conv c args log =
     (if c = of_char CHR ''d'' then
        do { (a, args) \<leftarrow> next_arg args; value \<leftarrow> va_arg_int a;
             buffer \<leftarrow> int_to_string value (replicate 21 0);
             log \<leftarrow> serial_write buffer log; Some (args, log) }
      else if c = of_char CHR ''x'' then
        do { (a, args) \<leftarrow> next_arg args; value \<leftarrow> va_arg_u64 a;
             log \<leftarrow> serial_write_hex value log; Some (args, log) }
      else if c = of_char CHR ''s'' then
        do { (a, args) \<leftarrow> next_arg args; str \<leftarrow> va_arg_str a;
             log \<leftarrow> serial_write str log; Some (args, log) }
      else if c = of_char CHR ''%'' then
        do { log \<leftarrow> serial_write (cstr ''%'') log; Some (args, log) }
      else do { log \<leftarrow> serial_write (cstr ''[UNKNOWN]'') log; Some (args, log) })"

fun serial_printf :: "u8 list \<Rightarrow> varg list \<Rightarrow> port_log \<Rightarrow> port_log option" where
  "serial_printf [] args log = None"
| "serial_printf [c] args log =
     (if c = 0 then Some log
      else None)"
| "serial_printf (c # d # format) args log =
     (if c = 0 then Some log
      else if c = of_char CHR ''%'' then
        (case printf_conv d args log of
           None \<Rightarrow> None
         | Some (args, log) \<Rightarrow> serial_printf format args log)
      else serial_printf (d # format) args (outb SERIAL_PORT c log))"

section \<open>What is printed\<close>

fun digits10 :: "nat \<Rightarrow> u8 list" where
  "digits10 n = (if n < 10 then [48 + of_nat n] else digits10 (n div 10) @ [48 + of_nat (n mod 10)])"

declare digits10.simps [simp del]

definition hex_text :: "u64 \<Rightarrow> u8 list" where
  "hex_text v = map of_char ''0x'' @
     map (\<lambda>i. hex_digits ! unat (drop_bit (4 * (15 - i)) v AND 0xF)) [0..<16]"

definition int_text :: "int \<Rightarrow> u8 list" where
  "int_text v = (if v < 0 then 45 # digits10 (nat (- v)) else digits10 (nat v))"

definition transmit :: "u8 list \<Rightarrow> port_log \<Rightarrow> port_log" where
  "transmit cs log = log @ map (Pair SERIAL_PORT) cs"

lemma transmit_Nil [simp]: "transmit [] log = log"
  by (simp add: transmit_def)

lemma transmit_transmit [simp]: "transmit ys (transmit xs log) = transmit (xs @ ys) log"
  by (simp add: transmit_def)

lemma outb_eq_transmit: "outb SERIAL_PORT c log = transmit [c] log"
  by (simp add: outb_def transmit_def)

lemma transmit_Cons: "transmit (x # xs) log = transmit xs (outb SERIAL_PORT x log)"
  by (simp add: transmit_def outb_def)

lemma serial_write_prefix:
  "0 \<notin> set cs \<Longrightarrow> serial_write (cs @ 0 # rest) log = Some (transmit cs log)"
  by (induction cs arbitrary: log) (auto simp: transmit_Cons)

lemma serial_write_text: "0 \<notin> set cs \<Longrightarrow> serial_write (cs @ [0]) log = Some (transmit cs log)"
  by (rule serial_write_prefix)

lemma of_char_u8_eq_iff: "(of_char c :: u8) = of_char d \<longleftrightarrow> c = d"
proof -
  have "(of_char c :: u8) = of_char d \<longleftrightarrow> (of_nat (of_char c) :: u8) = of_nat (of_char d)"
    by (simp only: of_nat_of_char)
  also have "\<dots> \<longleftrightarrow> of_char c = (of_char d :: nat)"
    by (simp only: word_of_nat_eq_iff) (simp add: take_bit_nat_eq_self)
  finally show ?thesis by simp
qed

lemma of_char_NUL: "(of_char CHR 0x00 :: u8) = 0"
  by simp

lemma zero_in_chars: "(0 :: u8) \<in> of_char ` S \<longleftrightarrow> CHR 0x00 \<in> S"
  by (metis image_iff of_char_NUL of_char_u8_eq_iff)

lemma serial_write_cstr:
  "CHR 0x00 \<notin> set s \<Longrightarrow> serial_write (cstr s) log = Some (transmit (map of_char s) log)"
  unfolding cstr_def by (rule serial_write_prefix) (simp add: zero_in_chars)

lemma digits10_no_NUL: "0 \<notin> set (digits10 n)"
proof (induction n rule: digits10.induct)
  case (1 n)
  have "48 + of_nat d \<noteq> (0 :: u8)" if "d < 10" for d
  proof -
    have "48 + of_nat d = (of_nat (48 + d) :: u8)" by simp
    moreover have "of_nat (48 + d) \<noteq> (of_nat 0 :: u8)"
      using that by (simp only: word_of_nat_eq_iff) (simp add: take_bit_nat_eq_self)
    ultimately show ?thesis by simp
  qed
  with 1 show ?case by (cases "n < 10") (auto simp: digits10.simps [of n])
qed

lemma ucast_mod10: "(48 + ucast (v mod 10 :: u64) :: u8) = 48 + of_nat (unat v mod 10)"
proof -
  have "unat v mod 10 = unat (v mod 10)" by (simp add: unat_mod)
  then show ?thesis by (simp only: of_nat_unat)
qed

lemma dec_loop_digits:
  assumes "unat v < 10 ^ i" and "0 < i" and "i < length buf"
  shows "\<exists>k buf'. dec_loop i v buf = Some (k, buf')
           \<and> drop k buf' = digits10 (unat v) @ drop i buf"
  using assms
proof (induction i arbitrary: v buf)
  case 0
  then show ?case by simp
next
  case (Suc i)
  define d where "d = (48 + ucast (v mod 10) :: u8)"
  have d: "d = 48 + of_nat (unat v mod 10)" by (simp add: d_def ucast_mod10)
  have tail: "drop i (buf[i := d]) = d # drop (Suc i) buf"
    using Suc.prems(3) by (simp add: Cons_nth_drop_Suc [symmetric])
  have div10: "unat (v div 10) = unat v div 10" by (simp add: unat_div)
  show ?case
  proof (cases "v div 10 > 0")
    case True
    then have big: "unat v div 10 > 0" using div10 by (simp add: word_less_nat_alt)
    have lt: "unat (v div 10) < 10 ^ i" using Suc.prems(1) div10 by (simp add: div_less_iff_less_mult)
    with big div10 have "0 < i" by (cases i) auto
    with Suc.IH [OF lt, of "buf[i := d]"] Suc.prems(3) obtain k buf' where
      "dec_loop i (v div 10) (buf[i := d]) = Some (k, buf')"
      "drop k buf' = digits10 (unat v div 10) @ drop i (buf[i := d])"
      by (auto simp: div10)
    moreover have "digits10 (unat v) = digits10 (unat v div 10) @ [d]"
      using big d by (subst digits10.simps) auto
    ultimately show ?thesis using True tail by (auto simp: d_def [symmetric])
  next
    case False
    then have "unat v < 10" using div10 by (simp add: word_less_nat_alt)
    then have "digits10 (unat v) = [d]" using d by (subst digits10.simps) auto
    with False tail show ?thesis by (auto simp: d_def [symmetric])
  qed
qed

lemma serial_write_dec_text:
  "serial_write_dec v log = Some (transmit (digits10 (unat v)) log)"
proof -
  have "unat v < 10 ^ 20" using unat_u64_less [of v] by simp
  then obtain k buf' where "dec_loop 20 v ((replicate 21 0)[20 := 0]) = Some (k, buf')"
    "drop k buf' = digits10 (unat v) @ drop 20 ((replicate 21 0)[20 := 0])"
    using dec_loop_digits [of v 20 "(replicate 21 0)[20 := 0]"] by auto
  moreover have "drop 20 ((replicate 21 0)[20 := 0]) = [0 :: u8]" by code_simp
  ultimately show ?thesis
    by (simp add: serial_write_dec_def serial_write_text digits10_no_NUL)
qed

lemma hex_loop_digits:
  assumes "k \<le> length buf"
  shows "hex_loop (rev [0..<k]) v buf
       = map (\<lambda>i. hex_digits ! unat (drop_bit (4 * (k - 1 - i)) v AND 0xF)) [0..<k] @ drop k buf"
  using assms
proof (induction k arbitrary: v buf)
  case 0
  then show ?case by simp
next
  case (Suc k)
  let ?d = "hex_digits ! unat (v AND 0xF)"
  have tail: "drop k (buf[k := ?d]) = ?d # drop (Suc k) buf"
    using Suc.prems by (simp add: Cons_nth_drop_Suc [symmetric])
  have shift: "map (\<lambda>i. hex_digits ! unat (drop_bit (4 * (k - 1 - i)) (drop_bit 4 v) AND 0xF)) [0..<k]
      = map (\<lambda>i. hex_digits ! unat (drop_bit (4 * (k - i)) v AND 0xF)) [0..<k]"
  proof (rule map_cong [OF refl])
    fix i
    assume "i \<in> set [0..<k]"
    then have "4 * (k - 1 - i) + 4 = 4 * (k - i)" by simp
    then show "hex_digits ! unat (drop_bit (4 * (k - 1 - i)) (drop_bit 4 v) AND 0xF)
        = hex_digits ! unat (drop_bit (4 * (k - i)) v AND 0xF)"
      by (simp only: drop_bit_drop_bit)
  qed
  have "hex_loop (rev [0..<Suc k]) v buf = hex_loop (rev [0..<k]) (drop_bit 4 v) (buf[k := ?d])"
    by simp
  also have "\<dots> = map (\<lambda>i. hex_digits ! unat (drop_bit (4 * (k - 1 - i)) (drop_bit 4 v) AND 0xF)) [0..<k]
      @ drop k (buf[k := ?d])"
    using Suc.prems by (intro Suc.IH) simp
  also have "\<dots> = map (\<lambda>i. hex_digits ! unat (drop_bit (4 * (k - i)) v AND 0xF)) [0..<k]
      @ ?d # drop (Suc k) buf"
    unfolding shift tail ..
  finally show ?case by simp
qed

lemma unat_low_nibble: "unat ((w :: u64) AND 0xF) < 16"
proof -
  have "w AND 0xF = take_bit 4 w"
    by (simp add: take_bit_eq_mask mask_eq_exp_minus_1)
  then show ?thesis by (simp add: unsigned_take_bit_eq take_bit_nat_less_exp [of 4, simplified])
qed

lemma hex_digit_no_NUL: "hex_digits ! unat ((w :: u64) AND 0xF) \<noteq> 0"
proof -
  have "length hex_digits = 16" by (simp add: hex_digits_def)
  then have "hex_digits ! unat (w AND 0xF) \<in> set hex_digits"
    using unat_low_nibble [of w] by simp
  moreover have "0 \<notin> set hex_digits"
    unfolding hex_digits_def by (simp only: set_map zero_in_chars) simp
  ultimately show ?thesis by metis
qed

lemma serial_write_hex_text: "serial_write_hex v log = Some (transmit (hex_text v) log)"
proof -
  let ?ds = "map (\<lambda>i. hex_digits ! unat (drop_bit (4 * (15 - i)) v AND 0xF)) [0..<16]"
  have "drop 16 ((replicate 17 0)[16 := 0]) = [0 :: u8]" by code_simp
  moreover have "0 \<notin> set ?ds" using hex_digit_no_NUL by (auto simp: image_iff)
  ultimately have "serial_write (hex_loop (rev [0..<16]) v ((replicate 17 0)[16 := 0])) log'
      = Some (transmit ?ds log')" for log'
    by (simp add: hex_loop_digits serial_write_text del: upt_rec_numeral)
  then show ?thesis
    by (simp add: serial_write_hex_def serial_write_cstr hex_text_def del: upt_rec_numeral)
qed

section \<open>Signed decimal\<close>

lemma nth_map_upt_0: "p < n \<Longrightarrow> map f [0..<n] ! p = f p"
  by simp

lemma swap_ends_reverses:
  assumes "n \<le> length b" and "k \<le> n div 2"
  shows "fold (swap_ends n) [0..<k] b
       = map (\<lambda>p. if p < k \<or> n - k \<le> p \<and> p < n then b ! (n - 1 - p) else b ! p) [0..<length b]"
  using assms(2)
proof (induction k)
  case 0
  then show ?case by (auto intro!: nth_equalityI)
next
  case (Suc k)
  let ?g = "map (\<lambda>p. if p < k \<or> n - k \<le> p \<and> p < n then b ! (n - 1 - p) else b ! p) [0..<length b]"
  have "fold (swap_ends n) [0..<Suc k] b = swap_ends n k ?g" using Suc by simp
  also have "\<dots> = map (\<lambda>p. if p < Suc k \<or> n - Suc k \<le> p \<and> p < n
      then b ! (n - 1 - p) else b ! p) [0..<length b]"
  proof (rule nth_equalityI)
    have k: "Suc k \<le> n div 2" "n \<le> length b" using Suc.prems assms(1) by auto
    then have at: "?g ! k = b ! k" "?g ! (n - k - 1) = b ! (n - k - 1)" by auto
    fix p
    assume "p < length (swap_ends n k ?g)"
    then have p: "p < length b" by (simp add: swap_ends_def)
    have upd: "swap_ends n k ?g ! p
        = (if p = n - k - 1 then b ! k else if p = k then b ! (n - k - 1) else ?g ! p)"
      using p at by (simp only: swap_ends_def nth_list_update length_list_update length_map) auto
    consider "p = n - k - 1" | "p = k" "p \<noteq> n - k - 1" | "p \<noteq> k" "p \<noteq> n - k - 1" by blast
    then show "swap_ends n k ?g ! p = map (\<lambda>p. if p < Suc k \<or> n - Suc k \<le> p \<and> p < n
        then b ! (n - 1 - p) else b ! p) [0..<length b] ! p"
    proof cases
      case 1
      then have "n - 1 - p = k" "p < n" using k by auto
      with 1 p show ?thesis by (subst upd) simp
    next
      case 2
      with k p show ?thesis by (subst upd) simp
    next
      case 3
      then have "(p < Suc k \<or> n - Suc k \<le> p \<and> p < n) = (p < k \<or> n - k \<le> p \<and> p < n)"
        by auto
      with 3 p show ?thesis by (subst upd) simp
    qed
  qed (simp add: swap_ends_def)
  finally show ?case .
qed

lemma swap_ends_rev:
  assumes "n \<le> length b"
  shows "fold (swap_ends n) [0..<n div 2] b = rev (take n b) @ drop n b"
proof -
  have "fold (swap_ends n) [0..<n div 2] b
      = map (\<lambda>p. if p < n div 2 \<or> n - n div 2 \<le> p \<and> p < n then b ! (n - 1 - p) else b ! p) [0..<length b]"
    using swap_ends_reverses [OF assms order.refl] .
  also have "\<dots> = rev (take n b) @ drop n b"
  proof (rule nth_equalityI)
    fix p
    assume "p < length (map (\<lambda>p. if p < n div 2 \<or> n - n div 2 \<le> p \<and> p < n
        then b ! (n - 1 - p) else b ! p) [0..<length b])"
    then have p: "p < length b" by simp
    have "(if p < n div 2 \<or> n - n div 2 \<le> p \<and> p < n then b ! (n - 1 - p) else b ! p)
        = (if p < n then b ! (n - 1 - p) else b ! p)"
    proof (cases "p < n \<and> \<not> p < n div 2 \<and> \<not> n - n div 2 \<le> p")
      case True
      moreover have "2 * (n div 2) + n mod 2 = n" "n mod 2 < 2" by simp_all
      ultimately have "n - 1 - p = p" by linarith
      then have "b ! (n - 1 - p) = b ! p" by (rule arg_cong)
      with True show ?thesis by metis
    next
      case False
      have "n div 2 \<le> n" by (rule div_le_dividend)
      with False show ?thesis by auto
    qed
    also have "\<dots> = (rev (take n b) @ drop n b) ! p"
      using p assms by (simp add: nth_append rev_nth)
    finally show "map (\<lambda>p. if p < n div 2 \<or> n - n div 2 \<le> p \<and> p < n
        then b ! (n - 1 - p) else b ! p) [0..<length b] ! p = (rev (take n b) @ drop n b) ! p"
      unfolding nth_map_upt_0 [OF p] .
  qed (use assms in simp)
  finally show ?thesis .
qed

lemma of_int_digit:
  assumes "0 \<le> v"
  shows "(48 + of_int (v mod 10) :: u8) = 48 + of_nat (nat v mod 10)"
proof -
  have "v mod 10 = int (nat v mod 10)"
    using assms by (simp add: nat_mod_distrib zmod_int)
  then show ?thesis by (simp only: of_int_of_nat_eq)
qed

lemma int_digits_rev:
  assumes "0 \<le> v" and "nat v < 10 ^ d" and "0 < d" and "i + d \<le> length buf"
  shows "\<exists>k buf'. int_digits v i buf = Some (k, buf') \<and> k \<le> i + d
      \<and> length buf' = length buf \<and> take k buf' = take i buf @ rev (digits10 (nat v))"
  using assms
proof (induction d arbitrary: v i buf)
  case 0
  then show ?case by simp
next
  case (Suc d)
  let ?c = "48 + of_int (v mod 10) :: u8"
  let ?buf = "buf[i := ?c]"
  have i: "i < length buf" using Suc.prems by simp
  then have head: "take (Suc i) ?buf = take i buf @ [?c]"
    by (simp add: take_Suc_conv_app_nth)
  have div10: "nat (v div 10) = nat v div 10" by (simp add: nat_div_distrib)
  show ?case
  proof (cases "v div 10 > 0")
    case True
    then have lt: "nat (v div 10) < 10 ^ d" "0 \<le> v div 10"
      using Suc.prems(2) div10 by (auto simp: div_less_iff_less_mult)
    have "0 < d" using lt True by (cases d) auto
    with lt Suc.IH [of "v div 10" "Suc i" ?buf] Suc.prems(4) obtain k buf' where
      k: "int_digits (v div 10) (Suc i) ?buf = Some (k, buf')" "k \<le> Suc i + d"
         "length buf' = length buf"
         "take k buf' = take (Suc i) ?buf @ rev (digits10 (nat v div 10))"
      by (auto simp: div10)
    have "digits10 (nat v) = digits10 (nat v div 10) @ [?c]"
      using True div10 Suc.prems(1) of_int_digit [OF Suc.prems(1)]
      by (subst digits10.simps) auto
    with k head have "take k buf' = take i buf @ rev (digits10 (nat v))" by simp
    moreover have "int_digits v i buf = Some (k, buf')"
      using i True k(1) by (subst int_digits.simps) simp
    ultimately show ?thesis using k by auto
  next
    case False
    then have "nat v < 10" using Suc.prems(1) by auto
    then have "digits10 (nat v) = [?c]"
      using of_int_digit [OF Suc.prems(1)] by (subst digits10.simps) auto
    moreover have "int_digits v i buf = Some (Suc i, ?buf)"
      using i False by (subst int_digits.simps) simp
    ultimately show ?thesis using head by auto
  qed
qed

lemma take_store: "i < length b \<Longrightarrow> take (Suc i) (b[i := c]) = take i b @ [c]"
  by (simp add: take_Suc_conv_app_nth)

lemma finish_string:
  assumes "take i b = rev t" and "i < length b"
  shows "\<exists>rest. (do { b \<leftarrow> store_char b i 0; Some (fold (swap_ends i) [0..<i div 2] b) }) = Some (t @ 0 # rest)"
proof -
  let ?b = "b[i := 0]"
  have "drop i ?b = 0 # drop (Suc i) b"
    using assms(2) by (simp add: Cons_nth_drop_Suc [symmetric])
  moreover have "take i ?b = rev t" using assms(1) by simp
  ultimately have "fold (swap_ends i) [0..<i div 2] ?b = t @ 0 # drop (Suc i) b"
    using swap_ends_rev [of i ?b] assms(2) by simp
  then show ?thesis using assms(2) by (simp add: store_char_def)
qed

lemma int_to_string_text:
  assumes "INT_MIN < v" and "v \<le> INT_MAX" and "12 \<le> length buf"
  shows "\<exists>rest. int_to_string v buf = Some (int_text v @ 0 # rest)"
proof -
  define a where "a = (if v < 0 then - v else v)"
  have a: "0 \<le> a" "nat a < 10 ^ 10"
    using assms by (auto simp: a_def INT_MIN_def INT_MAX_def)
  then obtain k b where k: "int_digits a 0 buf = Some (k, b)" "k \<le> 10" "length b = length buf"
      "take k b = rev (digits10 (nat a))"
    using int_digits_rev [of a 10 0 buf] assms(3) by auto
  have kb: "k < length b" "Suc k < length b" using k(2,3) assms(3) by auto
  show ?thesis
  proof (cases "v < 0")
    case True
    have "take (Suc k) (b[k := 45]) = rev (int_text v)"
      using k(4) kb True by (simp add: take_store int_text_def a_def)
    from finish_string [OF this] kb True k(1) assms(1) show ?thesis
      by (simp add: int_to_string_def a_def store_char_def)
  next
    case False
    have "take k b = rev (int_text v)" using k(4) False by (simp add: int_text_def a_def)
    from finish_string [OF this] kb False k(1) show ?thesis
      by (simp add: int_to_string_def a_def)
  qed
qed

lemma int_text_no_NUL: "0 \<notin> set (int_text v)"
  by (simp add: int_text_def digits10_no_NUL)

section \<open>The formatted print as a renderer\<close>

text \<open>
  A format is a sequence of pieces; \<open>piece_format\<close> is how a piece is spelled in the
  format string, \<open>piece_args\<close> the arguments it takes and \<open>piece_text\<close> what it prints.
\<close>

datatype piece = Lit u8 | Dec int | Hex u64 | Str "u8 list" | Percent

fun piece_format :: "piece \<Rightarrow> u8 list" where
  "piece_format (Lit c) = [c]"
| "piece_format (Dec v) = map of_char ''%d''"
| "piece_format (Hex v) = map of_char ''%x''"
| "piece_format (Str s) = map of_char ''%s''"
| "piece_format Percent = map of_char ''%%''"

fun piece_args :: "piece \<Rightarrow> varg list" where
  "piece_args (Dec v) = [VInt v]"
| "piece_args (Hex v) = [VU64 v]"
| "piece_args (Str s) = [VStr (s @ [0])]"
| "piece_args _ = []"

fun piece_text :: "piece \<Rightarrow> u8 list" where
  "piece_text (Lit c) = [c]"
| "piece_text (Dec v) = int_text v"
| "piece_text (Hex v) = hex_text v"
| "piece_text (Str s) = s"
| "piece_text Percent = map of_char ''%''"

fun piece_ok :: "piece \<Rightarrow> bool" where
  "piece_ok (Lit c) = (c \<noteq> 0 \<and> c \<noteq> of_char CHR ''%'')"
| "piece_ok (Dec v) = (INT_MIN < v \<and> v \<le> INT_MAX)"
| "piece_ok (Str s) = (0 \<notin> set s)"
| "piece_ok _ = True"

definition text_of :: "piece list \<Rightarrow> u8 list" where
  "text_of ps = concat (map piece_text ps)"

definition format_of :: "piece list \<Rightarrow> u8 list" where
  "format_of ps = concat (map piece_format ps) @ [0]"

definition args_of :: "piece list \<Rightarrow> varg list" where
  "args_of ps = concat (map piece_args ps)"

lemma serial_printf_lit:
  assumes "c \<noteq> 0" and "c \<noteq> of_char CHR ''%''" and "fmt \<noteq> []"
  shows "serial_printf (c # fmt) args log = serial_printf fmt args (outb SERIAL_PORT c log)"
  using assms by (cases fmt) auto

lemma serial_printf_piece:
  assumes "piece_ok p" and "fmt \<noteq> []"
  shows "serial_printf (piece_format p @ fmt) (piece_args p @ args) log
       = serial_printf fmt args (transmit (piece_text p) log)"
proof (cases p)
  case (Lit c)
  with assms show ?thesis by (simp add: serial_printf_lit outb_eq_transmit)
next
  case (Dec v)
  with assms int_to_string_text [of v "replicate 21 0"] obtain rest where
    "int_to_string v (replicate 21 0) = Some (int_text v @ 0 # rest)" by auto
  with Dec show ?thesis
    by (simp add: printf_conv_def next_arg_def serial_write_prefix int_text_no_NUL)
next
  case (Hex v)
  then show ?thesis by (simp add: printf_conv_def next_arg_def serial_write_hex_text)
next
  case (Str s)
  with assms show ?thesis by (simp add: printf_conv_def next_arg_def serial_write_text)
next
  case Percent
  then show ?thesis by (simp add: printf_conv_def serial_write_cstr)
qed

lemma serial_printf_pieces:
  "list_all piece_ok ps \<Longrightarrow>
   serial_printf (format_of ps) (args_of ps) log = Some (transmit (text_of ps) log)"
proof (induction ps arbitrary: log)
  case Nil
  then show ?case by (simp add: format_of_def args_of_def text_of_def)
next
  case (Cons p ps)
  have "serial_printf (format_of (p # ps)) (args_of (p # ps)) log
      = serial_printf (piece_format p @ format_of ps) (piece_args p @ args_of ps) log"
    by (simp add: format_of_def args_of_def)
  also have "\<dots> = serial_printf (format_of ps) (args_of ps) (transmit (piece_text p) log)"
    using Cons.prems by (intro serial_printf_piece) (auto simp: format_of_def)
  also have "\<dots> = Some (transmit (text_of (p # ps)) log)"
    using Cons by (simp add: text_of_def)
  finally show ?case .
qed

section \<open>Properties\<close>

text \<open>C38: \<open>serial_printf\<close> is a renderer.  For every format made of plain characters,
  \<open>%d\<close>, \<open>%x\<close>, \<open>%s\<close> and \<open>%%\<close>, with arguments of the matching kinds (an \<^verbatim>\<open>int\<close> above
  \<open>INT_MIN\<close>, strings without an inner terminator), it returns and writes to the serial
  port exactly the rendered pieces in order: signed decimal, sixteen hexadecimal digits,
  the string, the percent sign.\<close>

theorem serial_printf_renders:
  assumes "list_all piece_ok ps"
  shows "serial_printf (format_of ps) (args_of ps) log
       = Some (log @ map (\<lambda>c. (SERIAL_PORT, c)) (concat (map piece_text ps)))"
  using serial_printf_pieces [OF assms] by (simp add: transmit_def text_of_def)

theorem serial_printf_renders_witness:
  "serial_printf (cstr ''n=%d%%'') [VInt (- 40)] []
   = Some (map (\<lambda>c. (SERIAL_PORT, of_char c)) ''n=-40%'')"
proof -
  let ?ps = "[Lit (of_char CHR ''n''), Lit (of_char CHR ''=''), Dec (- 40), Percent]"
  have "list_all piece_ok ?ps" by (simp add: INT_MIN_def INT_MAX_def)
  from serial_printf_renders [OF this, of "[]"] show ?thesis
    by (simp add: format_of_def args_of_def cstr_def int_text_def digits10.simps)
qed

text \<open>\<open>int_to_string\<close> on the buffer \<open>serial_printf\<close> gives it is defined on every
  \<^verbatim>\<open>int\<close> but the smallest one, whose negation overflows; where it is defined the buffer
  starts with the signed decimal digits of the number and a terminator.\<close>

lemma int_to_string_total:
  assumes "INT_MIN \<le> v" and "v \<le> INT_MAX"
  shows "(int_to_string v (replicate 21 0) = None) = (v = INT_MIN)
       \<and> (v = INT_MIN \<or> (\<exists>rest. int_to_string v (replicate 21 0) = Some (int_text v @ 0 # rest)))"
proof (cases "v = INT_MIN")
  case True
  then show ?thesis by (simp add: int_to_string_def INT_MIN_def)
next
  case False
  with int_to_string_text [of v "replicate 21 0"] assms show ?thesis by auto
qed

lemma int_to_string_total_witness:
  "int_to_string INT_MIN (replicate 21 0) = None
   \<and> (\<exists>rest. int_to_string (- 7) (replicate 21 0) = Some ([45, 55, 0] @ rest))"
  using int_to_string_total [of INT_MIN] int_to_string_total [of "- 7"]
  by (simp add: INT_MIN_def INT_MAX_def int_text_def digits10.simps)

end
