(* ===== verification/Paging.thy ===== *)
theory Paging
  imports Prelude
begin

text \<open>
  The boot page tables of \<^verbatim>\<open>src/kern/mem/paging.c\<close>: four statically allocated tables
  that \<^verbatim>\<open>load_pages\<close> fills in.  The tables are maps from indices to entries; the
  addresses the linker gives the tables, the address of the kernel image and the offset of
  the direct map, which the boot loader reports, are the fields of \<open>paging_env\<close>.
\<close>

definition PAGE_SIZE :: nat where "PAGE_SIZE = 4096"
definition MAX_PAGES :: nat where "MAX_PAGES = 65536 * 8"

record paging =
  pml4 :: "nat \<Rightarrow> u64"
  pdpt :: "nat \<Rightarrow> u64"
  pd :: "nat \<Rightarrow> u64"
  pt :: "nat \<Rightarrow> u64"

record paging_env =
  pt_addr :: u64
  pd_addr :: u64
  pdpt_addr :: u64
  kernel_addr :: u64
  hhdm_offset :: u64

text \<open>
  The two loop bodies of \<^verbatim>\<open>load_pages\<close>.  The second one stores the entry of the page
  and then stores \<^verbatim>\<open>*pt = virt | 1\<close> as often as there are pages.
\<close>

definition map_low :: "nat \<Rightarrow> (nat \<Rightarrow> u64) \<Rightarrow> nat \<Rightarrow> u64" where
  "map_low addr t = t(addr div PAGE_SIZE := of_nat addr OR 3)"

definition hhdm_index :: "paging_env \<Rightarrow> nat \<Rightarrow> nat" where
  "hhdm_index e off = unat (((hhdm_offset e + of_nat off) AND 0x1FFFFF) div of_nat PAGE_SIZE)"

definition map_kernel :: "paging_env \<Rightarrow> nat \<Rightarrow> (nat \<Rightarrow> u64) \<Rightarrow> nat \<Rightarrow> u64" where
  "map_kernel e off t =
     (let virt = hhdm_offset e + of_nat off;
          phys = kernel_addr e + of_nat off;
          t = t(hhdm_index e off := phys OR 3)
      in ((\<lambda>t. t(0 := virt OR 1)) ^^ MAX_PAGES) t)"

definition load_pages :: "paging_env \<Rightarrow> paging \<Rightarrow> paging" where
  "load_pages e g =
     (let g = g\<lparr>pt := fold map_low [0..<MAX_PAGES] (pt g)\<rparr>;
          g = g\<lparr>pd := (pd g)(0 := pt_addr e OR 3)\<rparr>;
          g = g\<lparr>pdpt := (pdpt g)(0 := pd_addr e OR 3)\<rparr>;
          g = g\<lparr>pml4 := (pml4 g)(0 := pdpt_addr e OR 3)\<rparr>
      in g\<lparr>pt := fold (map_kernel e) [0..<MAX_PAGES] (pt g)\<rparr>)"

section \<open>What the tables hold afterwards\<close>

lemma funpow_store: "((\<lambda>t. t(x := v)) ^^ Suc n) t = t(x := v)"
  by (induction n) auto

lemma map_kernel_eq:
  "map_kernel e off t =
     t(hhdm_index e off := (kernel_addr e + of_nat off) OR 3,
       0 := (hhdm_offset e + of_nat off) OR 1)"
proof -
  have "MAX_PAGES = Suc 524287" by (simp add: MAX_PAGES_def)
  then show ?thesis
    unfolding map_kernel_def Let_def by (metis funpow_store)
qed

lemma map_kernel_fold_other:
  assumes "x \<noteq> 0" and "t x = u x"
  shows "fold (map_kernel e) offs t x
       = fold (\<lambda>off u. u(hhdm_index e off := (kernel_addr e + of_nat off) OR 3)) offs u x"
  using assms(2)
proof (induction offs arbitrary: t u)
  case Nil
  then show ?case by simp
next
  case (Cons off offs)
  let ?u = "u(hhdm_index e off := (kernel_addr e + of_nat off) OR 3)"
  have "map_kernel e off t x = ?u x"
    using assms(1) Cons.prems by (simp add: map_kernel_eq)
  then show ?case using Cons.IH [of "map_kernel e off t" ?u] by simp
qed

text \<open>A direct map that starts on a 2 MiB boundary, as the boot protocol places it.\<close>

definition hhdm_aligned :: "paging_env \<Rightarrow> bool" where
  "hhdm_aligned e \<longleftrightarrow> hhdm_offset e AND 0x1FFFFF = 0"

lemma unat_hhdm_index: "hhdm_index e off = unat (hhdm_offset e + of_nat off) mod 2 ^ 21 div 4096"
  by (simp add: hhdm_index_def mask_21 unat_AND_mask unat_div PAGE_SIZE_def)

lemma hhdm_index_bound: "hhdm_index e off < 512"
  unfolding unat_hhdm_index by (simp add: div_less_iff_less_mult)

lemma hhdm_index_aligned:
  assumes "hhdm_aligned e" and "off < MAX_PAGES"
  shows "hhdm_index e off = off div PAGE_SIZE"
proof -
  have off: "off < 2 ^ 21" "off < 2 ^ 64" using assms(2) by (auto simp: MAX_PAGES_def)
  have h: "unat (hhdm_offset e) mod 2 ^ 21 = 0"
    using assms(1) unat_AND_mask [of "hhdm_offset e" 21] by (simp add: hhdm_aligned_def mask_21)
  have "unat (hhdm_offset e + of_nat off) mod 2 ^ 21 = (unat (hhdm_offset e) + off) mod 2 ^ 21"
    using off by (simp add: unat_add_mod unat_of_nat_u64 del: power_numeral)
  also have "\<dots> = off" using h off by (simp add: mod_add_left_eq [symmetric] del: power_numeral)
  finally show ?thesis by (simp add: unat_hhdm_index PAGE_SIZE_def)
qed

lemma load_pages_pt:
  "pt (load_pages e g) = fold (map_kernel e) [0..<MAX_PAGES] (fold map_low [0..<MAX_PAGES] (pt g))"
  by (simp add: load_pages_def Let_def)

lemma load_pages_entry:
  assumes "hhdm_aligned e" and "0 < i" and "i < 128"
  shows "pt (load_pages e g) i = (kernel_addr e + of_nat (i * PAGE_SIZE + 4095)) OR 3"
proof -
  let ?v = "\<lambda>off. (kernel_addr e + of_nat off) OR 3"
  let ?last = "i * PAGE_SIZE + 4095"
  have last: "?last < MAX_PAGES" "hhdm_index e ?last = i"
    using assms hhdm_index_aligned [of e ?last] by (auto simp: MAX_PAGES_def PAGE_SIZE_def)
  have later: "hhdm_index e j \<noteq> i" if "?last < j" "j < MAX_PAGES" for j
    using that assms(1) hhdm_index_aligned [of e j] by (simp add: PAGE_SIZE_def)
  have "pt (load_pages e g) i
      = fold (\<lambda>off u. u(hhdm_index e off := ?v off)) [0..<MAX_PAGES]
          (fold map_low [0..<MAX_PAGES] (pt g)) i"
    unfolding load_pages_pt using assms(2) by (intro map_kernel_fold_other) simp_all
  also have "\<dots> = fold (\<lambda>off u. u(hhdm_index e off := ?v off)) [0..<MAX_PAGES]
          (fold map_low [0..<MAX_PAGES] (pt g)) (hhdm_index e ?last)"
    by (simp only: last(2))
  also have "\<dots> = ?v ?last"
    by (rule fold_fun_upd_at [OF last(1)]) (simp only: last(2) later not_False_eq_True)
  finally show ?thesis .
qed

lemma load_pages_entry_0: "pt (load_pages e g) 0 = (hhdm_offset e + of_nat (MAX_PAGES - 1)) OR 1"
proof -
  have M: "MAX_PAGES = Suc (MAX_PAGES - 1)" by (simp add: MAX_PAGES_def)
  have "fold (map_kernel e) [0..<Suc n] t 0 = (hhdm_offset e + of_nat n) OR 1" for n t
    unfolding fold_upt_Suc map_kernel_eq by simp
  from this [of "MAX_PAGES - 1"] show ?thesis
    unfolding load_pages_pt M [symmetric] .
qed

lemma load_pages_unmapped:
  assumes "hhdm_aligned e" and "128 \<le> i"
  shows "pt (load_pages e g) i = pt g i"
proof -
  have low: "fold map_low [0..<MAX_PAGES] t i = t i" for t
    using assms(2) unfolding map_low_def
    by (intro fold_fun_upd_other) (auto simp: MAX_PAGES_def PAGE_SIZE_def div_less_iff_less_mult)
  have "fold (\<lambda>off u. u(hhdm_index e off := (kernel_addr e + of_nat off) OR 3)) [0..<MAX_PAGES] t i = t i" for t
    using assms hhdm_index_aligned [OF assms(1)]
    by (intro fold_fun_upd_other) (auto simp: MAX_PAGES_def PAGE_SIZE_def div_less_iff_less_mult)
  then show ?thesis
    unfolding load_pages_pt using assms(2) low
    by (simp add: map_kernel_fold_other [where u = "fold map_low [0..<MAX_PAGES] (pt g)"])
qed

lemma low_bits_OR_3:
  assumes "kernel_addr e AND 0xFFF = 0"
  shows "((kernel_addr e + of_nat (i * PAGE_SIZE + 4095)) OR 3) AND 0xFFF = 0xFFF"
proof -
  let ?k = "kernel_addr e" and ?n = "i * PAGE_SIZE + 4095"
  have k: "unat ?k mod 2 ^ 12 = 0"
    using assms unat_AND_mask [of ?k 12] by (simp add: mask_12)
  have n: "unat (of_nat ?n :: u64) mod 2 ^ 12 = 4095"
    by (simp only: unat_of_nat_mod) (simp add: PAGE_SIZE_def)
  have "unat ((?k + of_nat ?n) AND 0xFFF) = (unat ?k + unat (of_nat ?n :: u64)) mod 2 ^ 12"
    unfolding mask_12 unat_AND_mask by (rule unat_add_mod) simp
  also have "\<dots> = (unat ?k mod 2 ^ 12 + unat (of_nat ?n :: u64) mod 2 ^ 12) mod 2 ^ 12"
    by (rule mod_add_eq [symmetric])
  also have "\<dots> = unat (0xFFF :: u64)"
    unfolding k n by simp
  finally have "(?k + of_nat ?n) AND 0xFFF = 0xFFF" by (simp only: word_unat_eq_iff)
  then show ?thesis by (simp add: bit.conj_disj_distrib2)
qed

section \<open>Properties\<close>

text \<open>C40: the page table \<open>load_pages\<close> leaves behind.  With a direct map that starts on
  a 2 MiB boundary and a page-aligned kernel image, the first 128 entries but number 0 hold
  the page of the kernel image with \<^bold>\<open>all\<close> of the low twelve bits set (the loops run over
  bytes, and the last byte of a page is the one that stays), entry 0 holds the last value of
  the inner loop, and entries from 128 on are untouched.\<close>

theorem load_pages_entries:
  assumes "hhdm_aligned e" and "kernel_addr e AND 0xFFF = 0"
  shows "\<forall>i. (if i = 0 then pt (load_pages e g) i = (hhdm_offset e + 0x7FFFF) OR 1
              else if i < 128 then pt (load_pages e g) i = (kernel_addr e + of_nat (i * PAGE_SIZE + 4095)) OR 3
                \<and> pt (load_pages e g) i AND 0xFFF = 0xFFF
              else pt (load_pages e g) i = pt g i)"
proof
  fix i
  show "(if i = 0 then pt (load_pages e g) i = (hhdm_offset e + 0x7FFFF) OR 1
         else if i < 128 then pt (load_pages e g) i = (kernel_addr e + of_nat (i * PAGE_SIZE + 4095)) OR 3
           \<and> pt (load_pages e g) i AND 0xFFF = 0xFFF
         else pt (load_pages e g) i = pt g i)"
    using load_pages_entry [OF assms(1), of i g] load_pages_unmapped [OF assms(1), of i g]
      load_pages_entry_0 [of e g] low_bits_OR_3 [OF assms(2), of i]
    by (simp add: MAX_PAGES_def)
qed

theorem load_pages_entries_witness:
  "pt (load_pages \<lparr>pt_addr = 0x1000, pd_addr = 0x2000, pdpt_addr = 0x3000, kernel_addr = 0x200000,
        hhdm_offset = 0xFFFF800000000000\<rparr>
      \<lparr>pml4 = (\<lambda>_. 0), pdpt = (\<lambda>_. 0), pd = (\<lambda>_. 0), pt = (\<lambda>_. 0)\<rparr>) 5 = 0x205FFF"
proof -
  let ?e = "\<lparr>pt_addr = 0x1000, pd_addr = 0x2000, pdpt_addr = 0x3000, kernel_addr = 0x200000,
        hhdm_offset = 0xFFFF800000000000\<rparr>"
  have "hhdm_aligned ?e" "kernel_addr ?e AND 0xFFF = 0" by (simp_all add: hhdm_aligned_def)
  from load_pages_entries [OF this, THEN spec [of _ 5]] show ?thesis
    by (simp add: PAGE_SIZE_def)
qed

end
