(* ===== verification/Pmm.thy ===== *)
theory Pmm
  imports Paging Mem "HOL-Library.Monad_Syntax"
begin

text \<open>
  The physical page allocator, \<^verbatim>\<open>src/kern/mem/pmm.c\<close>: a table of page addresses and a
  bitmap, both filled in from the boot loader's memory map.  The two static arrays are
  maps from indices; \<open>pmm_inv\<close> keeps every index the code uses inside their bounds.
\<close>

section \<open>State and operations\<close>

record pmm =
  bitmap :: "nat \<Rightarrow> u64"
  page_addrs :: "nat \<Rightarrow> u64"
  total_pages :: nat

definition pmm_set_bit :: "nat \<Rightarrow> pmm \<Rightarrow> pmm" where
  "pmm_set_bit index p =
     p\<lparr>bitmap := (bitmap p)(index div 8 := bitmap p (index div 8) OR push_bit (index mod 8) 1)\<rparr>"

definition pmm_clear_bit :: "nat \<Rightarrow> pmm \<Rightarrow> pmm" where
  "pmm_clear_bit index p =
     p\<lparr>bitmap := (bitmap p)(index div 8 := bitmap p (index div 8) AND NOT (push_bit (index mod 8) 1))\<rparr>"

definition pmm_test_bit :: "nat \<Rightarrow> pmm \<Rightarrow> bool" where
  "pmm_test_bit index p \<longleftrightarrow> bitmap p (index div 8) AND push_bit (index mod 8) 1 \<noteq> 0"

text \<open>
  \<^verbatim>\<open>alloc_page\<close> overwrites its length argument and writes the page address through its
  pointer argument only when it finds a clear bit: \<open>None\<close> is a pointer left as it was.
\<close>

definition alloc_page :: "pmm \<Rightarrow> u64 option \<times> pmm" where
  "alloc_page p =
     (case find (\<lambda>index. \<not> pmm_test_bit index p) [0..<total_pages p] of
        None \<Rightarrow> (None, p)
      | Some index \<Rightarrow> (Some (page_addrs p index), pmm_set_bit index p))"

definition free_page :: "u64 \<Rightarrow> pmm \<Rightarrow> mem \<Rightarrow> pmm \<times> mem" where
  "free_page addr p m =
     (case find (\<lambda>index. page_addrs p index = addr) [0..<total_pages p] of
        None \<Rightarrow> (p, m)
      | Some index \<Rightarrow> (pmm_clear_bit index p, snd (memset addr 0 (of_nat PAGE_SIZE) m)))"

text \<open>
  \<^verbatim>\<open>get_block_addr\<close> returns \<^verbatim>\<open>&memory_pool[block_index * PAGE_SIZE]\<close>; the result here
  is the offset from the start of the pool, which has \<open>PAGE_SIZE\<close> bytes.
\<close>

definition get_block_addr :: "int \<Rightarrow> int option" where
  "get_block_addr block_index =
     (if block_index \<ge> 0 \<and> block_index < int PAGE_SIZE
      then Some (block_index * int PAGE_SIZE) else None)"

section \<open>Initialisation from the memory map\<close>

record memmap_entry =
  me_base :: u64
  me_length :: u64
  me_type :: u64

definition LIMINE_MEMMAP_USABLE :: u64 where "LIMINE_MEMMAP_USABLE = 0"

definition page_start :: "memmap_entry \<Rightarrow> u64" where
  "page_start entry = (me_base entry + of_nat PAGE_SIZE - 1) AND NOT 0xFFF"

definition page_end :: "memmap_entry \<Rightarrow> u64" where
  "page_end entry = (me_base entry + me_length entry) AND NOT 0xFFF"

definition add_page :: "u64 \<Rightarrow> pmm \<Rightarrow> pmm" where
  "add_page addr p =
     (if total_pages p < MAX_PAGES then
        let p = p\<lparr>page_addrs := (page_addrs p)(total_pages p := addr)\<rparr>;
            p = pmm_clear_bit (total_pages p) p
        in p\<lparr>total_pages := total_pages p + 1\<rparr>
      else p)"

definition drop_page :: "u64 \<Rightarrow> pmm \<Rightarrow> pmm" where
  "drop_page addr p =
     (if total_pages p > MAX_PAGES then
        let p = p\<lparr>page_addrs := (page_addrs p)(total_pages p := addr)\<rparr>;
            p = pmm_set_bit (total_pages p) p
        in p\<lparr>total_pages := total_pages p - 1\<rparr>
      else p)"

fun init_usable :: "memmap_entry list \<Rightarrow> pmm \<Rightarrow> pmm option" where
  "init_usable [] p = Some p"
| "init_usable (entry # entries) p =
     (if me_type entry = LIMINE_MEMMAP_USABLE then
        case for_up (page_start entry) (page_end entry) (of_nat PAGE_SIZE) add_page p of
          None \<Rightarrow> None
        | Some p \<Rightarrow> init_usable entries p
      else init_usable entries p)"

fun init_reserved :: "memmap_entry list \<Rightarrow> pmm \<Rightarrow> pmm option" where
  "init_reserved [] p = Some p"
| "init_reserved (entry # entries) p =
     (if me_type entry \<noteq> LIMINE_MEMMAP_USABLE then
        case for_down (page_start entry) (page_end entry) (of_nat PAGE_SIZE) drop_page p of
          None \<Rightarrow> None
        | Some p \<Rightarrow> init_reserved entries p
      else init_reserved entries p)"

definition bitmap_init ::
  "memmap_entry list \<Rightarrow> paging_env \<Rightarrow> pmm \<Rightarrow> paging \<Rightarrow> (pmm \<times> paging) option" where
  "bitmap_init entries e p g =
     do { p \<leftarrow> init_usable entries (p\<lparr>total_pages := 0\<rparr>);
          p \<leftarrow> init_reserved entries p;
          Some (p, load_pages e g) }"

section \<open>The bitmap\<close>

lemma pmm_test_bit_iff: "pmm_test_bit index p \<longleftrightarrow> bit (bitmap p (index div 8)) (index mod 8)"
  by (simp add: pmm_test_bit_def bit_iff_and_push_bit_not_eq_0)

lemma div_mod_8_eq_iff: "(i div 8 = j div 8 \<and> i mod 8 = j mod 8) \<longleftrightarrow> i = (j :: nat)"
  by (metis div_mult_mod_eq)

lemma mod8_less_64: "(i :: nat) mod 8 < 64"
  using mod_less_divisor [of 8 i] by linarith

lemma bit_exp_mod8 [simp]: "bit (2 ^ (i mod 8) :: u64) (j mod 8) \<longleftrightarrow> i mod 8 = j mod 8"
  using mod8_less_64 [of j] by (auto simp: bit_exp_iff)

lemma test_set_bit [simp]:
  "pmm_test_bit j (pmm_set_bit i p) \<longleftrightarrow> j = i \<or> pmm_test_bit j p"
  using div_mod_8_eq_iff [of i j]
  by (auto simp: pmm_test_bit_iff pmm_set_bit_def bit_or_iff)

lemma test_clear_bit [simp]:
  "pmm_test_bit j (pmm_clear_bit i p) \<longleftrightarrow> j \<noteq> i \<and> pmm_test_bit j p"
  using div_mod_8_eq_iff [of i j] mod8_less_64 [of j]
  by (auto simp: pmm_test_bit_iff pmm_clear_bit_def bit_and_iff bit_not_iff)

lemma set_clear_bit_frame [simp]:
  "page_addrs (pmm_set_bit i p) = page_addrs p" "total_pages (pmm_set_bit i p) = total_pages p"
  "page_addrs (pmm_clear_bit i p) = page_addrs p" "total_pages (pmm_clear_bit i p) = total_pages p"
  by (simp_all add: pmm_set_bit_def pmm_clear_bit_def)

section \<open>The allocator against its abstraction\<close>

definition pages :: "pmm \<Rightarrow> u64 list" where
  "pages p = map (page_addrs p) [0..<total_pages p]"

definition pmm_inv :: "pmm \<Rightarrow> bool" where
  "pmm_inv p \<longleftrightarrow> total_pages p \<le> MAX_PAGES \<and> distinct (pages p)"

definition free_pages :: "pmm \<Rightarrow> u64 set" where
  "free_pages p = {page_addrs p i | i. i < total_pages p \<and> \<not> pmm_test_bit i p}"

definition used_pages :: "pmm \<Rightarrow> u64 set" where
  "used_pages p = {page_addrs p i | i. i < total_pages p \<and> pmm_test_bit i p}"

lemma pages_inj:
  assumes "pmm_inv p" and "i < total_pages p" and "j < total_pages p"
  shows "page_addrs p i = page_addrs p j \<longleftrightarrow> i = j"
  using assms by (auto simp: pmm_inv_def pages_def distinct_map inj_on_def)

lemma pmm_inv_bits [simp]:
  "pmm_inv (pmm_set_bit i p) = pmm_inv p" "pmm_inv (pmm_clear_bit i p) = pmm_inv p"
  by (simp_all add: pmm_inv_def pages_def)

lemma find_index_Some:
  "find P [0..<n] = Some i \<Longrightarrow> i < n \<and> P i \<and> (\<forall>j < i. \<not> P j)"
  by (auto simp: find_Some_iff)

lemma find_index_None: "find P [0..<n] = None \<longleftrightarrow> (\<forall>i < n. \<not> P i)"
  by (auto simp: find_None_iff)

lemma alloc_page_Some:
  assumes "pmm_inv p" and "alloc_page p = (Some a, p')"
  shows "a \<in> free_pages p \<and> free_pages p' = free_pages p - {a}
       \<and> used_pages p' = insert a (used_pages p) \<and> pmm_inv p'"
proof -
  from assms(2) obtain i where
    i: "find (\<lambda>index. \<not> pmm_test_bit index p) [0..<total_pages p] = Some i"
    and a: "a = page_addrs p i" and p': "p' = pmm_set_bit i p"
    by (auto simp: alloc_page_def split: option.splits)
  from find_index_Some [OF i] have "i < total_pages p" "\<not> pmm_test_bit i p" by auto
  then show ?thesis
    using assms(1) pages_inj [OF assms(1)]
    by (auto simp: a p' free_pages_def used_pages_def)
qed

lemma alloc_page_None:
  assumes "alloc_page p = (None, p')"
  shows "p' = p \<and> free_pages p = {}"
  using assms find_index_None [of "\<lambda>index. \<not> pmm_test_bit index p"]
  by (auto simp: alloc_page_def free_pages_def split: option.splits)

lemma free_page_used:
  assumes "pmm_inv p" and "a \<in> used_pages p"
  shows "used_pages (fst (free_page a p m)) = used_pages p - {a}
       \<and> free_pages (fst (free_page a p m)) = insert a (free_pages p)
       \<and> pmm_inv (fst (free_page a p m))"
proof -
  from assms(2) obtain k where k: "k < total_pages p" "page_addrs p k = a" "pmm_test_bit k p"
    by (auto simp: used_pages_def)
  then obtain i where
    i: "find (\<lambda>index. page_addrs p index = a) [0..<total_pages p] = Some i"
    using find_index_None [of "\<lambda>index. page_addrs p index = a" "total_pages p"] by auto
  from find_index_Some [OF i] k have "i = k"
    using pages_inj [OF assms(1)] by auto
  then show ?thesis
    using assms(1) k i pages_inj [OF assms(1)]
    by (auto simp: free_page_def free_pages_def used_pages_def)
qed

lemma free_page_unknown:
  assumes "a \<notin> used_pages p" and "a \<notin> free_pages p"
  shows "free_page a p m = (p, m)"
proof -
  have "find (\<lambda>index. page_addrs p index = a) [0..<total_pages p] = None"
    using assms unfolding find_index_None free_pages_def used_pages_def by blast
  then show ?thesis by (simp add: free_page_def)
qed

lemma free_used_disjoint: "pmm_inv p \<Longrightarrow> free_pages p \<inter> used_pages p = {}"
  using pages_inj by (fastforce simp: free_pages_def used_pages_def)

section \<open>The allocator the memory map gives\<close>

definition usable :: "memmap_entry \<Rightarrow> bool" where
  "usable entry \<longleftrightarrow> me_type entry = LIMINE_MEMMAP_USABLE"

definition pages_of :: "memmap_entry \<Rightarrow> u64 list" where
  "pages_of entry =
     map (\<lambda>k. page_start entry + of_nat k * of_nat PAGE_SIZE)
       [0..<(unat (page_end entry) - unat (page_start entry)) div PAGE_SIZE]"

definition memmap_pages :: "memmap_entry list \<Rightarrow> u64 list" where
  "memmap_pages entries = concat (map pages_of (filter usable entries))"

text \<open>
  The boot protocol's promise about the map: usable regions are sorted and do not overlap,
  and physical addresses have at most 52 bits.
\<close>

definition memmap_ok :: "memmap_entry list \<Rightarrow> bool" where
  "memmap_ok entries \<longleftrightarrow>
     sorted_wrt (\<lambda>a b. unat (me_base a) + unat (me_length a) \<le> unat (me_base b)) (filter usable entries)
     \<and> list_all (\<lambda>a. unat (me_base a) + unat (me_length a) \<le> 2 ^ 52) (filter usable entries)"

lemma unat_page_start: "unat (page_start e) = unat (me_base e + of_nat PAGE_SIZE - 1) div 4096 * 4096"
  unfolding page_start_def by (rule unat_mask_4096)

lemma unat_page_end: "unat (page_end e) = unat (me_base e + me_length e) div 4096 * 4096"
  unfolding page_end_def by (rule unat_mask_4096)

lemma unat_PAGE_SIZE: "unat (of_nat PAGE_SIZE :: u64) = 4096"
  by (simp add: PAGE_SIZE_def)

lemma page_bounds_multiple:
  assumes "unat (a :: u64) = i * 4096" and "unat (b :: u64) = j * 4096" and "\<not> b \<le> a"
  shows "unat b = unat a + ((unat b - unat a) div PAGE_SIZE) * unat (of_nat PAGE_SIZE :: u64)"
proof -
  have "i < j" using assms by (simp add: word_le_nat_alt)
  then obtain d where "j = i + d" using less_imp_add_positive by blast
  then have "unat b - unat a = d * 4096" using assms by simp
  moreover have "unat b = unat a + d * 4096" using assms \<open>j = i + d\<close> by simp
  ultimately show ?thesis by (simp only: unat_PAGE_SIZE) (simp add: PAGE_SIZE_def)
qed

lemma for_up_pages:
  "for_up (page_start e) (page_end e) (of_nat PAGE_SIZE) f p = Some (fold f (pages_of e) p)"
proof (cases "page_end e \<le> page_start e")
  case True
  then have "pages_of e = []" by (simp add: pages_of_def word_le_nat_alt)
  with True show ?thesis by (simp add: for_up_done)
next
  case False
  have "0 < unat (of_nat PAGE_SIZE :: u64)" by (simp only: unat_PAGE_SIZE)
  with page_bounds_multiple [OF unat_page_start unat_page_end False] show ?thesis
    by (simp add: for_up_closed pages_of_def fold_map comp_def)
qed

lemma for_down_pages:
  assumes "\<And>a. f a p = p"
  shows "for_down (page_start e) (page_end e) (of_nat PAGE_SIZE) f p = Some p"
proof (cases "page_start e \<le> page_end e")
  case True
  then show ?thesis by (simp add: for_down_done)
next
  case False
  from page_bounds_multiple [OF unat_page_end unat_page_start False] assms show ?thesis
    by (rule for_down_inert)
qed

text \<open>The bits of the pages in the table are clear throughout initialisation.\<close>

definition all_free :: "pmm \<Rightarrow> bool" where
  "all_free p \<longleftrightarrow> total_pages p \<le> MAX_PAGES \<and> (\<forall>i < total_pages p. \<not> pmm_test_bit i p)"

lemma length_pages [simp]: "length (pages p) = total_pages p"
  by (simp add: pages_def)

lemma add_page_full: "\<not> total_pages p < MAX_PAGES \<Longrightarrow> add_page a p = p"
  by (simp add: add_page_def)

lemma test_bit_cong: "bitmap p = bitmap q \<Longrightarrow> pmm_test_bit i p = pmm_test_bit i q"
  by (simp add: pmm_test_bit_def)

lemma add_page_room:
  assumes "total_pages p < MAX_PAGES"
  shows "pages (add_page a p) = pages p @ [a]"
    and "total_pages (add_page a p) = Suc (total_pages p)"
    and "pmm_test_bit i (add_page a p) \<longleftrightarrow> i \<noteq> total_pages p \<and> pmm_test_bit i p"
proof -
  let ?q = "p\<lparr>page_addrs := (page_addrs p)(total_pages p := a)\<rparr>"
  have eq: "add_page a p = (pmm_clear_bit (total_pages p) ?q)\<lparr>total_pages := total_pages p + 1\<rparr>"
    using assms by (simp add: add_page_def Let_def)
  show "pages (add_page a p) = pages p @ [a]" by (simp add: eq pages_def)
  show "total_pages (add_page a p) = Suc (total_pages p)" by (simp add: eq)
  have "pmm_test_bit i (add_page a p) = pmm_test_bit i (pmm_clear_bit (total_pages p) ?q)"
    unfolding eq by (rule test_bit_cong) simp
  also have "\<dots> \<longleftrightarrow> i \<noteq> total_pages p \<and> pmm_test_bit i ?q" by simp
  also have "pmm_test_bit i ?q = pmm_test_bit i p" by (rule test_bit_cong) simp
  finally show "pmm_test_bit i (add_page a p) \<longleftrightarrow> i \<noteq> total_pages p \<and> pmm_test_bit i p" .
qed

lemma add_page_all_free: "all_free p \<Longrightarrow> all_free (add_page a p)"
  by (cases "total_pages p < MAX_PAGES") (auto simp: all_free_def add_page_room add_page_full)

lemma fold_add_page:
  assumes "all_free p"
  shows "all_free (fold add_page as p) \<and> pages (fold add_page as p) = take MAX_PAGES (pages p @ as)"
  using assms
proof (induction as arbitrary: p)
  case Nil
  then show ?case by (simp add: all_free_def)
next
  case (Cons a as)
  have "take MAX_PAGES (pages (add_page a p) @ as) = take MAX_PAGES (pages p @ a # as)"
    using Cons.prems
    by (cases "total_pages p < MAX_PAGES") (auto simp: add_page_room add_page_full all_free_def)
  with Cons.IH [OF add_page_all_free [OF Cons.prems]] show ?case by simp
qed

lemma take_take_append: "take n (take n xs @ ys) = take n (xs @ ys)"
  by (simp add: min_def)

lemma init_usable_spec:
  assumes "all_free p"
  shows "\<exists>p'. init_usable entries p = Some p' \<and> all_free p'
       \<and> pages p' = take MAX_PAGES (pages p @ memmap_pages entries)"
  using assms
proof (induction entries arbitrary: p)
  case Nil
  then show ?case by (simp add: memmap_pages_def all_free_def)
next
  case (Cons e entries)
  show ?case
  proof (cases "usable e")
    case True
    let ?q = "fold add_page (pages_of e) p"
    have q: "all_free ?q" "pages ?q = take MAX_PAGES (pages p @ pages_of e)"
      using fold_add_page [OF Cons.prems] by auto
    from Cons.IH [OF q(1)] obtain p' where
      "init_usable entries ?q = Some p'" "all_free p'"
      "pages p' = take MAX_PAGES (pages ?q @ memmap_pages entries)" by auto
    moreover have "pages p' = take MAX_PAGES (pages p @ memmap_pages (e # entries))"
      using calculation(3) True by (simp only: q(2) take_take_append) (simp add: memmap_pages_def)
    moreover have "init_usable (e # entries) p = init_usable entries ?q"
      using True by (simp add: for_up_pages usable_def)
    ultimately show ?thesis by auto
  next
    case False
    with Cons show ?thesis by (simp add: usable_def memmap_pages_def)
  qed
qed

lemma init_reserved_inert: "total_pages p \<le> MAX_PAGES \<Longrightarrow> init_reserved entries p = Some p"
proof (induction entries)
  case Nil
  then show ?case by simp
next
  case (Cons e entries)
  then have "drop_page a p = p" for a by (simp add: drop_page_def)
  with Cons show ?case by (simp add: for_down_pages)
qed

section \<open>Pages of disjoint regions are distinct\<close>

lemma in_pages_of:
  assumes "unat (me_base e) + unat (me_length e) \<le> 2 ^ 52" and "x \<in> set (pages_of e)"
  shows "unat (me_base e) \<le> unat x \<and> unat x + PAGE_SIZE \<le> unat (me_base e) + unat (me_length e)
       \<and> unat x mod PAGE_SIZE = 0"
proof -
  let ?b = "unat (me_base e)" and ?l = "unat (me_length e)"
  have bl: "unat (me_base e + me_length e) = ?b + ?l"
    using assms(1) by (subst unat_word_ariths) simp
  have four: "me_base e + of_nat PAGE_SIZE - 1 = me_base e + of_nat 4095" by (simp add: PAGE_SIZE_def)
  have b: "unat (me_base e + of_nat PAGE_SIZE - 1) = ?b + 4095"
  proof -
    have "?b + 4095 < 2 ^ 64" using assms(1) by simp
    then have "unat (me_base e + of_nat 4095) = ?b + 4095" by (rule unat_add_no_wrap)
    then show ?thesis by (simp only: four)
  qed
  from assms(2) obtain k where k: "k < (unat (page_end e) - unat (page_start e)) div PAGE_SIZE"
    and x: "x = page_start e + of_nat k * of_nat PAGE_SIZE" by (auto simp: pages_of_def)
  have end_eq: "unat (page_end e) = (?b + ?l) div 4096 * 4096" by (simp add: unat_page_end bl)
  have start_eq: "unat (page_start e) = (?b + 4095) div 4096 * 4096" by (simp add: unat_page_start b)
  have k_lt: "(?b + 4095) div 4096 + k < (?b + ?l) div 4096"
    using k unfolding end_eq start_eq PAGE_SIZE_def diff_mult_distrib [symmetric] by simp
  have step: "(A + k) * 4096 + 4096 \<le> C" if "A + k < B" "B * 4096 \<le> C" for A B C :: nat
  proof -
    have "Suc (A + k) * 4096 \<le> B * 4096" using that(1) by (intro mult_le_mono1) simp
    then show ?thesis using that(2) by simp
  qed
  have room: "((?b + 4095) div 4096 + k) * 4096 + 4096 \<le> ?b + ?l"
    by (rule step [OF k_lt div_times_less_eq_dividend])
  have xk: "x = page_start e + of_nat (k * 4096)" using x by (simp add: PAGE_SIZE_def)
  have lt: "unat (page_start e) + k * 4096 < 2 ^ 64"
    using room assms(1) unfolding start_eq by simp
  have ux: "unat x = ((?b + 4095) div 4096 + k) * 4096"
    unfolding xk unat_add_no_wrap [OF lt] start_eq by simp
  have "?b \<le> (?b + 4095) div 4096 * 4096"
    using div_mult_mod_eq [of "?b + 4095" 4096] mod_less_divisor [of 4096 "?b + 4095"] by linarith
  then show ?thesis using ux room by (simp add: PAGE_SIZE_def algebra_simps)
qed

lemma distinct_pages_of: "distinct (pages_of e)"
proof -
  let ?n = "(unat (page_end e) - unat (page_start e)) div PAGE_SIZE"
  have "?n * 4096 \<le> unat (page_end e) - unat (page_start e)" by (simp add: PAGE_SIZE_def)
  then have n: "?n * 4096 < 2 ^ 64" using unat_u64_less [of "page_end e"] by linarith
  have "inj_on (\<lambda>k. page_start e + of_nat k * of_nat PAGE_SIZE) {0..<?n}"
  proof (rule inj_onI)
    fix i j
    assume ij: "i \<in> {0..<?n}" "j \<in> {0..<?n}"
      and eq: "page_start e + of_nat i * of_nat PAGE_SIZE = page_start e + of_nat j * of_nat PAGE_SIZE"
    have "i < ?n" "j < ?n" using ij by auto
    then have "i * 4096 < 2 ^ 64" "j * 4096 < 2 ^ 64" using n by linarith+
    moreover have "page_start e + of_nat (i * 4096) = page_start e + of_nat (j * 4096)"
      using eq by (simp add: PAGE_SIZE_def)
    ultimately have "i * 4096 = j * 4096" by (simp only: add_of_nat_u64_eq_iff)
    then show "i = j" by simp
  qed
  then show ?thesis by (simp add: pages_of_def distinct_map)
qed

lemma distinct_memmap_pages:
  assumes "memmap_ok entries"
  shows "distinct (memmap_pages entries)"
proof -
  have "distinct (concat (map pages_of es))"
    if "sorted_wrt (\<lambda>a b. unat (me_base a) + unat (me_length a) \<le> unat (me_base b)) es"
      and "list_all (\<lambda>a. unat (me_base a) + unat (me_length a) \<le> 2 ^ 52) es" for es
    using that
  proof (induction es)
    case Nil
    then show ?case by simp
  next
    case (Cons e es)
    have "set (pages_of e) \<inter> set (concat (map pages_of es)) = {}"
    proof (rule ccontr)
      assume "set (pages_of e) \<inter> set (concat (map pages_of es)) \<noteq> {}"
      then obtain x f where x: "x \<in> set (pages_of e)" "f \<in> set es" "x \<in> set (pages_of f)" by auto
      then have "unat (me_base f) + unat (me_length f) \<le> 2 ^ 52"
        "unat (me_base e) + unat (me_length e) \<le> unat (me_base f)"
        using Cons.prems by (auto simp: list_all_iff)
      then have "unat (me_base f) \<le> unat x"
        "unat x + PAGE_SIZE \<le> unat (me_base e) + unat (me_length e)"
        using x Cons.prems(2) in_pages_of [of f x] in_pages_of [of e x] by auto
      then show False
        using \<open>unat (me_base e) + unat (me_length e) \<le> unat (me_base f)\<close> by (simp add: PAGE_SIZE_def)
    qed
    with Cons show ?case by (simp add: distinct_pages_of)
  qed
  then show ?thesis using assms by (simp add: memmap_ok_def memmap_pages_def)
qed

lemma bitmap_init_spec:
  "\<exists>p'. bitmap_init entries e p g = Some (p', load_pages e g)
      \<and> pages p' = take MAX_PAGES (memmap_pages entries) \<and> all_free p'"
proof -
  have "all_free (p\<lparr>total_pages := 0\<rparr>)" "pages (p\<lparr>total_pages := 0\<rparr>) = []"
    by (simp_all add: all_free_def pages_def)
  with init_usable_spec [of "p\<lparr>total_pages := 0\<rparr>" entries] obtain p' where
    p': "init_usable entries (p\<lparr>total_pages := 0\<rparr>) = Some p'" "all_free p'"
    "pages p' = take MAX_PAGES (memmap_pages entries)" by auto
  then have "init_reserved entries p' = Some p'"
    by (simp add: init_reserved_inert all_free_def)
  with p' show ?thesis by (simp add: bitmap_init_def)
qed

lemma all_free_sets:
  assumes "all_free p"
  shows "free_pages p = set (pages p)" and "used_pages p = {}"
  using assms by (auto simp: all_free_def free_pages_def used_pages_def pages_def)

section \<open>The allocator as an interface\<close>

text \<open>
  What the rest of the kernel relies on: \<open>alloc\<close> hands out a free page and fails only
  when there is none, \<open>release\<close> makes a used page free again and ignores an address
  that is not a page.
\<close>

fun alloc_n :: "('s \<Rightarrow> 'a option \<times> 's) \<Rightarrow> nat \<Rightarrow> 's \<Rightarrow> 'a list \<times> 's" where
  "alloc_n alloc 0 s = ([], s)"
| "alloc_n alloc (Suc n) s =
     (case alloc s of
        (None, s) \<Rightarrow> ([], s)
      | (Some a, s) \<Rightarrow> (case alloc_n alloc n s of (as, s) \<Rightarrow> (a # as, s)))"

locale page_allocator =
  fixes alloc :: "'s \<Rightarrow> 'a option \<times> 's"
    and release :: "'a \<Rightarrow> 's \<Rightarrow> 's"
    and free used :: "'s \<Rightarrow> 'a set"
    and inv :: "'s \<Rightarrow> bool"
  assumes alloc_some: "inv s \<Longrightarrow> alloc s = (Some a, s') \<Longrightarrow>
      a \<in> free s \<and> free s' = free s - {a} \<and> used s' = insert a (used s) \<and> inv s'"
    and alloc_none: "inv s \<Longrightarrow> alloc s = (None, s') \<Longrightarrow> s' = s \<and> free s = {}"
    and release_used: "inv s \<Longrightarrow> a \<in> used s \<Longrightarrow>
      used (release a s) = used s - {a} \<and> free (release a s) = insert a (free s) \<and> inv (release a s)"
    and release_unknown: "a \<notin> used s \<Longrightarrow> a \<notin> free s \<Longrightarrow> release a s = s"
    and disjoint: "inv s \<Longrightarrow> free s \<inter> used s = {}"
begin

lemma alloc_succeeds: "inv s \<Longrightarrow> free s \<noteq> {} \<Longrightarrow> \<exists>a s'. alloc s = (Some a, s')"
  using alloc_none by (cases "alloc s"; cases "fst (alloc s)") auto

lemma alloc_release:
  assumes "inv s" and "alloc s = (Some a, s')"
  shows "free (release a s') = free s \<and> used (release a s') = used s"
  using alloc_some [OF assms] release_used [of s' a] disjoint [OF assms(1)] by auto

lemma alloc_n_distinct:
  assumes "inv s" and "alloc_n alloc n s = (as, s')"
  shows "distinct as \<and> set as \<subseteq> free s \<and> free s' = free s - set as
       \<and> used s' = used s \<union> set as \<and> inv s'"
  using assms
proof (induction n arbitrary: s as)
  case 0
  then show ?case by simp
next
  case (Suc n)
  show ?case
  proof (cases "fst (alloc s)")
    case None
    with Suc.prems alloc_none show ?thesis by (auto split: prod.splits)
  next
    case (Some a)
    then obtain t bs where t: "alloc s = (Some a, t)" "alloc_n alloc n t = (bs, s')" "as = a # bs"
      using Suc.prems(2) by (auto split: prod.splits)
    with alloc_some [OF Suc.prems(1) t(1)] Suc.IH [of t bs] show ?thesis by auto
  qed
qed

lemma alloc_n_complete:
  assumes "inv s" and "alloc_n alloc n s = (as, s')" and "finite (free s)"
  shows "length as = min n (card (free s))"
  using assms
proof (induction n arbitrary: s as)
  case 0
  then show ?case by simp
next
  case (Suc n)
  show ?case
  proof (cases "fst (alloc s)")
    case None
    with Suc.prems alloc_none show ?thesis by (auto split: prod.splits)
  next
    case (Some a)
    then obtain t bs where t: "alloc s = (Some a, t)" "alloc_n alloc n t = (bs, s')" "as = a # bs"
      using Suc.prems(2) by (auto split: prod.splits)
    note a = alloc_some [OF Suc.prems(1) t(1)]
    then have "length bs = min n (card (free s - {a}))"
      using Suc.IH [of t bs] t Suc.prems(3) by auto
    moreover have "card (free s) = Suc (card (free s - {a}))"
      using a Suc.prems(3) by (metis card.remove)
    ultimately show ?thesis using t(3) by simp
  qed
qed

end

text \<open>The page tables of the kernel provide it; the memory cleared on release is a parameter.\<close>

interpretation pmm_alloc: page_allocator alloc_page "\<lambda>a p. fst (free_page a p m)"
    free_pages used_pages pmm_inv for m
proof unfold_locales
  fix p p' a
  show "pmm_inv p \<Longrightarrow> alloc_page p = (Some a, p') \<Longrightarrow>
      a \<in> free_pages p \<and> free_pages p' = free_pages p - {a}
      \<and> used_pages p' = insert a (used_pages p) \<and> pmm_inv p'"
    by (rule alloc_page_Some)
qed (simp_all add: alloc_page_None free_page_used free_page_unknown free_used_disjoint)

section \<open>Properties\<close>

text \<open>C2: start-up.  On a memory map as the boot protocol describes it, \<open>bitmap_init\<close>
  returns, the table holds exactly the whole pages of the usable regions in order (cut at
  \<open>MAX_PAGES\<close>), without repetition, and all of them are free; the second loop changes
  nothing, so reserved regions need no handling.\<close>

theorem bitmap_init_pages:
  assumes "memmap_ok entries"
  shows "\<exists>p'. bitmap_init entries e p g = Some (p', load_pages e g)
      \<and> pmm_inv p' \<and> pages p' = take MAX_PAGES (memmap_pages entries)
      \<and> free_pages p' = set (take MAX_PAGES (memmap_pages entries)) \<and> used_pages p' = {}"
proof -
  obtain p' where p': "bitmap_init entries e p g = Some (p', load_pages e g)"
    "pages p' = take MAX_PAGES (memmap_pages entries)" "all_free p'"
    using bitmap_init_spec by blast
  moreover have "distinct (take MAX_PAGES (memmap_pages entries))"
    using distinct_memmap_pages [OF assms] by (rule distinct_take)
  moreover have "total_pages p' \<le> MAX_PAGES" using p'(3) by (simp add: all_free_def)
  ultimately show ?thesis using all_free_sets [OF p'(3)] by (auto simp: pmm_inv_def)
qed

theorem bitmap_init_pages_witness:
  "\<forall>e p g. \<exists>p'. bitmap_init [\<lparr>me_base = 0x1800, me_length = 0x3000, me_type = 0\<rparr>] e p g
      = Some (p', load_pages e g) \<and> free_pages p' = {0x2000, 0x3000}"
proof -
  let ?m = "[\<lparr>me_base = 0x1800, me_length = 0x3000, me_type = 0\<rparr>]"
  have "memmap_ok ?m" by (simp add: memmap_ok_def)
  moreover have "take MAX_PAGES (memmap_pages ?m) = [0x2000, 0x3000]"
    by (simp add: memmap_pages_def usable_def LIMINE_MEMMAP_USABLE_def pages_of_def page_start_def
        page_end_def PAGE_SIZE_def MAX_PAGES_def upt_rec)
  ultimately show ?thesis using bitmap_init_pages [of ?m] by force
qed

text \<open>C1: allocation after start-up.  However often the kernel calls \<open>alloc_page\<close>
  after \<open>bitmap_init\<close>, the pages it gets are different from each other and belong to the
  usable regions, and it gets as many as it asks for until every page is in use.\<close>

theorem alloc_after_init:
  assumes "memmap_ok entries" and "bitmap_init entries e p g = Some (p', g')"
    and "alloc_n alloc_page n p' = (as, p'')"
  shows "distinct as \<and> set as \<subseteq> set (memmap_pages entries)
       \<and> length as = min n (min MAX_PAGES (length (memmap_pages entries)))
       \<and> used_pages p'' = set as \<and> pmm_inv p''"
proof -
  obtain q where q: "bitmap_init entries e p g = Some (q, load_pages e g)"
    "pages q = take MAX_PAGES (memmap_pages entries)" "all_free q"
    using bitmap_init_spec by blast
  with assms(2) have pq: "p' = q" by simp
  have dist: "distinct (take MAX_PAGES (memmap_pages entries))"
    using distinct_memmap_pages [OF assms(1)] by (rule distinct_take)
  with q have inv: "pmm_inv p'" by (simp add: pq pmm_inv_def all_free_def)
  have free: "free_pages p' = set (take MAX_PAGES (memmap_pages entries))" "used_pages p' = {}"
    using all_free_sets [OF q(3)] q(2) by (simp_all add: pq)
  then have "finite (free_pages p')"
    "card (free_pages p') = min MAX_PAGES (length (memmap_pages entries))"
    using distinct_card [OF dist] by (simp_all add: min.commute)
  then show ?thesis
    using pmm_alloc.alloc_n_distinct [OF inv assms(3)] pmm_alloc.alloc_n_complete [OF inv assms(3)]
      free set_take_subset [of MAX_PAGES "memmap_pages entries"] by auto
qed

theorem alloc_after_init_witness:
  "\<forall>e p g. \<exists>p' p''. bitmap_init [\<lparr>me_base = 0x1800, me_length = 0x3000, me_type = 0\<rparr>] e p g
        = Some (p', load_pages e g)
      \<and> (\<exists>as. alloc_n alloc_page 5 p' = (as, p'') \<and> length as = 2 \<and> distinct as)"
proof (intro allI)
  fix e p g
  let ?m = "[\<lparr>me_base = 0x1800, me_length = 0x3000, me_type = 0\<rparr>]"
  have m: "memmap_ok ?m" by (simp add: memmap_ok_def)
  have len: "length (memmap_pages ?m) = 2"
    by (simp add: memmap_pages_def usable_def LIMINE_MEMMAP_USABLE_def pages_of_def page_start_def
        page_end_def PAGE_SIZE_def)
  obtain p' where p': "bitmap_init ?m e p g = Some (p', load_pages e g)"
    using bitmap_init_spec by blast
  obtain as p'' where a: "alloc_n alloc_page 5 p' = (as, p'')" by fastforce
  from alloc_after_init [OF m p' a] len have "length as = 2 \<and> distinct as"
    by (simp add: MAX_PAGES_def)
  with p' a show "\<exists>p' p''. bitmap_init ?m e p g = Some (p', load_pages e g)
      \<and> (\<exists>as. alloc_n alloc_page 5 p' = (as, p'') \<and> length as = 2 \<and> distinct as)" by blast
qed

text \<open>Freeing.  On a page in use, \<open>free_page\<close> makes exactly that page free and
  clears its 4096 bytes and nothing else; on an address that is not a page of the table it
  changes nothing at all.\<close>

lemma free_page_effect:
  assumes "pmm_inv p"
  shows "if a \<in> used_pages p then
           used_pages (fst (free_page a p m)) = used_pages p - {a}
           \<and> free_pages (fst (free_page a p m)) = insert a (free_pages p)
           \<and> snd (free_page a p m) = (\<lambda>x. if in_block a 4096 x then 0 else m x)
         else a \<in> free_pages p \<or> free_page a p m = (p, m)"
proof (cases "a \<in> used_pages p")
  case True
  then obtain k where "k < total_pages p" "page_addrs p k = a" by (auto simp: used_pages_def)
  then obtain i where i: "find (\<lambda>index. page_addrs p index = a) [0..<total_pages p] = Some i"
    using find_index_None [of "\<lambda>index. page_addrs p index = a" "total_pages p"] by auto
  have "snd (free_page a p m) = (\<lambda>x. if in_block a 4096 x then 0 else m x)"
    by (rule ext) (simp add: free_page_def i memset_apply PAGE_SIZE_def)
  with True show ?thesis using pmm_alloc.release_used [OF assms True, of m] by simp
next
  case False
  then show ?thesis using free_page_unknown by auto
qed

lemma free_page_effect_witness:
  "free_page 0x5000 \<lparr>bitmap = (\<lambda>_. 0), page_addrs = (\<lambda>i. 0x1000 * of_nat (Suc i)), total_pages = 1\<rparr> (\<lambda>_. 7)
   = (\<lparr>bitmap = (\<lambda>_. 0), page_addrs = (\<lambda>i. 0x1000 * of_nat (Suc i)), total_pages = 1\<rparr>, \<lambda>_. 7)"
proof -
  let ?p = "\<lparr>bitmap = (\<lambda>_. 0), page_addrs = (\<lambda>i. 0x1000 * of_nat (Suc i)), total_pages = 1\<rparr>"
  have "pmm_inv ?p" by (simp add: pmm_inv_def pages_def MAX_PAGES_def)
  moreover have "0x5000 \<notin> used_pages ?p" "0x5000 \<notin> free_pages ?p"
    by (auto simp: used_pages_def free_pages_def)
  ultimately show ?thesis using free_page_effect [of ?p "0x5000" "\<lambda>_. 7"] by simp
qed

end
