(* ===== verification/Gdt.thy ===== *)
theory Gdt
  imports Serial
begin

text \<open>
  The segment descriptors of \<^verbatim>\<open>src/kern/cpu/gdt.c\<close>, the segment reload of
  \<^verbatim>\<open>src/kern/cpu/gdt.asm\<close>, and the helpers for model-specific registers, flags and
  CPUID in \<^verbatim>\<open>access.h\<close> and \<^verbatim>\<open>cpuid.c\<close>.  A descriptor is decoded the way
  the processor reads it, so that what the code builds can be compared with what it loads.
\<close>

section \<open>Descriptors\<close>

record gdt_t =
  null :: u64
  kernel_code :: u64
  kernel_data :: u64
  user_code :: u64
  user_data :: u64

record gdt_descriptor_t =
  gdt_limit :: u16
  gdt_base :: u64

text \<open>
  The state \<^verbatim>\<open>gdt_init\<close> works on: the structure \<^verbatim>\<open>gdt\<close>, the array
  \<^verbatim>\<open>gdt_entries\<close>, and the table register that \<^verbatim>\<open>lgdt\<close> loads from
  \<^verbatim>\<open>descriptor\<close>, whose base is the address of \<^verbatim>\<open>gdt\<close>.
\<close>

record gdt_state =
  gdt :: gdt_t
  gdt_entries :: "nat \<Rightarrow> u64"
  gdtr :: "gdt_descriptor_t option"

definition descriptor :: "u64 \<Rightarrow> gdt_descriptor_t" where
  "descriptor gdt_addr = \<lparr>gdt_limit = 5 * 8 - 1, gdt_base = gdt_addr\<rparr>"

definition gdt_init :: "u64 \<Rightarrow> gdt_state \<Rightarrow> port_log \<Rightarrow> (gdt_state \<times> port_log) option" where
  "gdt_init gdt_addr s log =
     (let g = (gdt s)\<lparr>null := 0\<rparr>;
          es = (gdt_entries s)(0 := null g);
          g = g\<lparr>kernel_code := 0\<rparr>;
          g = g\<lparr>kernel_code := kernel_code g OR push_bit 8 0b1011\<rparr>;
          g = g\<lparr>kernel_code := kernel_code g OR push_bit 12 1\<rparr>;
          g = g\<lparr>kernel_code := kernel_code g OR push_bit 13 0\<rparr>;
          g = g\<lparr>kernel_code := kernel_code g OR push_bit 15 1\<rparr>;
          g = g\<lparr>kernel_code := kernel_code g OR push_bit 21 1\<rparr>;
          es = es(1 := push_bit 32 (kernel_code g));
          g = g\<lparr>kernel_data := 0\<rparr>;
          g = g\<lparr>kernel_data := kernel_data g OR push_bit 8 0b0011\<rparr>;
          g = g\<lparr>kernel_data := kernel_data g OR push_bit 12 1\<rparr>;
          g = g\<lparr>kernel_data := kernel_data g OR push_bit 13 0\<rparr>;
          g = g\<lparr>kernel_data := kernel_data g OR push_bit 15 1\<rparr>;
          g = g\<lparr>kernel_data := kernel_data g OR push_bit 21 1\<rparr>;
          es = es(2 := push_bit 32 (kernel_data g));
          g = g\<lparr>user_code := 0\<rparr>;
          g = g\<lparr>user_code := kernel_code g OR push_bit 13 3\<rparr>;
          es = es(3 := user_code g);
          g = g\<lparr>user_data := 0\<rparr>;
          g = g\<lparr>user_data := kernel_data g OR push_bit 13 3\<rparr>;
          es = es(4 := user_data g)
      in case serial_write (cstr (''[ OK ] GDT'' @ [CHR 0x0A])) log of
           None \<Rightarrow> None
         | Some log \<Rightarrow> Some (\<lparr>gdt = g, gdt_entries = es, gdtr = Some (descriptor gdt_addr)\<rparr>, log))"

section \<open>How the processor reads a descriptor\<close>

definition seg_present :: "u64 \<Rightarrow> bool" where "seg_present d = bit d 47"
definition seg_system :: "u64 \<Rightarrow> bool" where "seg_system d = (\<not> bit d 44)"
definition seg_executable :: "u64 \<Rightarrow> bool" where "seg_executable d = bit d 43"
definition seg_long :: "u64 \<Rightarrow> bool" where "seg_long d = bit d 53"
definition seg_dpl :: "u64 \<Rightarrow> nat" where "seg_dpl d = unat (drop_bit 45 d AND 3)"

text \<open>The eight bytes at a selector of the table that starts at the structure \<open>gdt\<close>.\<close>

definition gdt_words :: "gdt_t \<Rightarrow> u64 list" where
  "gdt_words g = [null g, kernel_code g, kernel_data g, user_code g, user_data g]"

definition loaded_descriptor :: "gdt_state \<Rightarrow> nat \<Rightarrow> u64" where
  "loaded_descriptor s selector = gdt_words (gdt s) ! (selector div 8)"

section \<open>Registers\<close>

text \<open>\<^verbatim>\<open>wrmsr\<close> hands the processor the two halves of the value, \<^verbatim>\<open>rdmsr\<close>
  joins them again.\<close>

definition wrmsr :: "u64 \<Rightarrow> u32 \<times> u32" where
  "wrmsr val = (let low = ucast (val AND 0xFFFFFFFF); high = ucast (drop_bit 32 val) in (high, low))"

definition rdmsr :: "u32 \<times> u32 \<Rightarrow> u64" where
  "rdmsr hl = (case hl of (high, low) \<Rightarrow> push_bit 32 (ucast high) OR ucast low)"

definition are_interrupts_enabled :: "u64 \<Rightarrow> bool" where
  "are_interrupts_enabled flags \<longleftrightarrow> flags AND push_bit 9 1 \<noteq> 0"

definition CPUID_FEAT_EDX_APIC :: u32 where "CPUID_FEAT_EDX_APIC = push_bit 9 1"

text \<open>
  The CPUID instruction is a parameter: leaf to the registers \<open>(eax, ebx, ecx, edx)\<close>.
  \<^verbatim>\<open>__get_cpuid\<close> leaves the registers alone when the leaf is above the highest one;
  \<open>rdx0\<close> is what the uninitialised variable holds then.
\<close>

definition get_model :: "(u32 \<Rightarrow> u32 \<times> u32 \<times> u32 \<times> u32) \<Rightarrow> u32" where
  "get_model cpuid = fst (snd (cpuid 0))"

definition check_apic :: "(u32 \<Rightarrow> u32 \<times> u32 \<times> u32 \<times> u32) \<Rightarrow> u32 \<Rightarrow> u32" where
  "check_apic cpuid rdx0 =
     (let rdx = (if fst (cpuid 0) \<ge> 1 then snd (snd (snd (cpuid 1))) else rdx0)
      in rdx AND CPUID_FEAT_EDX_APIC)"

section \<open>Lemmas\<close>

lemma gdt_init_runs:
  "\<exists>s'. gdt_init a s log = Some (s', transmit (map of_char (''[ OK ] GDT'' @ [CHR 0x0A])) log)
     \<and> gdt_words (gdt s') = [0, 0x209B00, 0x209300, 0x20FB00, 0x20F300]
     \<and> gdt_entries s' 0 = 0 \<and> gdt_entries s' 1 = push_bit 32 0x209B00
     \<and> gdt_entries s' 2 = push_bit 32 0x209300
     \<and> gdt_entries s' 3 = 0x20FB00 \<and> gdt_entries s' 4 = 0x20F300
     \<and> gdtr s' = Some (descriptor a)"
  by (simp add: gdt_init_def Let_def serial_write_cstr gdt_words_def)

lemma rdmsr_wrmsr: "rdmsr (wrmsr v) = v"
  by (rule bit_word_eqI) (auto simp: rdmsr_def wrmsr_def Let_def mask_32 bit_simps)

section \<open>Properties\<close>

text \<open>\<open>gdt_init\<close> returns and loads the table at the structure \<open>gdt\<close>, whose words
  are the descriptor attributes in the low half: at every selector of the loaded table
  (0x08, 0x10, 0x18, 0x20) the processor finds a descriptor that is not present.  The
  shifted words, present and of ring 0, 64-bit code and data, are in the array
  \<open>gdt_entries\<close>, which is not loaded; its user entries are not shifted either.\<close>

lemma gdt_init_descriptors:
  "\<exists>s' log'. gdt_init a s log = Some (s', log') \<and> gdtr s' = Some (descriptor a)
     \<and> list_all (\<lambda>sel. \<not> seg_present (loaded_descriptor s' sel)) [0x00, 0x08, 0x10, 0x18, 0x20]
     \<and> (let c = gdt_entries s' 1 in seg_present c \<and> seg_executable c \<and> seg_long c
          \<and> \<not> seg_system c \<and> seg_dpl c = 0)
     \<and> (let d = gdt_entries s' 2 in seg_present d \<and> \<not> seg_executable d
          \<and> \<not> seg_system d \<and> seg_dpl d = 0)
     \<and> \<not> seg_present (gdt_entries s' 3) \<and> \<not> seg_present (gdt_entries s' 4)"
proof -
  obtain s' where s': "gdt_init a s log = Some (s', transmit (map of_char (''[ OK ] GDT'' @ [CHR 0x0A])) log)"
    "gdt_words (gdt s') = [0, 0x209B00, 0x209300, 0x20FB00, 0x20F300]"
    "gdt_entries s' (Suc 0) = push_bit 32 0x209B00" "gdt_entries s' 2 = push_bit 32 0x209300"
    "gdt_entries s' 3 = 0x20FB00" "gdt_entries s' 4 = 0x20F300" "gdtr s' = Some (descriptor a)"
    using gdt_init_runs [of a s log] by auto
  show ?thesis
    by (rule exI [of _ s'], rule exI, rule conjI, rule s'(1))
      (simp add: s'(2-) loaded_descriptor_def seg_present_def seg_executable_def seg_long_def
        seg_system_def seg_dpl_def Let_def)
qed

end
