(* ===== verification/Interrupts.thy ===== *)
theory Interrupts
  imports Serial
begin

text \<open>
  Interrupts and the panic path: \<^verbatim>\<open>src/kern/cpu/idt.c\<close>, the entry stubs of
  \<^verbatim>\<open>src/kern/cpu/stub.asm\<close> and \<^verbatim>\<open>src/kern/panic.c\<close>.  A handler either
  returns or halts the processor for good; both carry what was printed.
\<close>

datatype outcome = Returned port_log | Halted port_log

abbreviation msg :: "string \<Rightarrow> u8 list" where
  "msg s \<equiv> cstr (s @ [CHR 0x0A])"

section \<open>Panic\<close>

record cpu_state_t =
  cs_rip :: u64
  cs_rsp :: u64
  cs_rbp :: u64
  cs_rflags :: u64
  cs_registers :: "u64 list"

definition capture_cpu_state :: "cpu_state_t option \<Rightarrow> port_log \<Rightarrow> port_log option" where
  "capture_cpu_state state log =
     (case state of
        None \<Rightarrow> serial_write (msg ''[ ERR ] capture_cpu_state called with NULL state'') log
      | Some st \<Rightarrow>
          serial_printf (msg ''[ DEBUG ] Captured CPU State: RIP=%x, RSP=%x, RBP=%x'')
            [VU64 (cs_rip st), VU64 (cs_rsp st), VU64 (cs_rbp st)] log)"

definition dump_field :: "string \<Rightarrow> u64 \<Rightarrow> port_log \<Rightarrow> port_log option" where
  "dump_field name val log =
     do { log \<leftarrow> serial_write (cstr name) log;
          log \<leftarrow> serial_write_hex val log;
          serial_write (msg []) log }"

fun dump_registers :: "nat list \<Rightarrow> cpu_state_t \<Rightarrow> port_log \<Rightarrow> port_log option" where
  "dump_registers [] st log = Some log"
| "dump_registers (i # is) st log =
     do { log \<leftarrow> serial_write (cstr ''REG['') log;
          log \<leftarrow> serial_write_dec (of_nat i) log;
          log \<leftarrow> serial_write (cstr '']: '') log;
          r \<leftarrow> (if i < length (cs_registers st) then Some (cs_registers st ! i) else None);
          log \<leftarrow> serial_write_hex r log;
          log \<leftarrow> serial_write (msg []) log;
          dump_registers is st log }"

definition coredump :: "cpu_state_t \<Rightarrow> port_log \<Rightarrow> port_log option" where
  "coredump st log =
     do { log \<leftarrow> serial_write (msg ([CHR 0x0A] @ ''--- CORE DUMP ---'')) log;
          log \<leftarrow> dump_field ''RIP: '' (cs_rip st) log;
          log \<leftarrow> dump_field ''RSP: '' (cs_rsp st) log;
          log \<leftarrow> dump_field ''RBP: '' (cs_rbp st) log;
          log \<leftarrow> dump_field ''RFLAGS: '' (cs_rflags st) log;
          log \<leftarrow> dump_registers [0..<16] st log;
          serial_write (msg ''--- END CORE DUMP ---'') log }"

text \<open>
  The message is kept with the spelling of the source.  Both branches end in the loop
  around \<^verbatim>\<open>hlt\<close>.
\<close>

definition panic :: "cpu_state_t option \<Rightarrow> port_log \<Rightarrow> outcome option" where
  "panic state log =
     do { log \<leftarrow> serial_write (msg ([CHR 0x0A] @ ''*** KERNEL PANIC ***'')) log;
          log \<leftarrow> serial_write (msg ''Fuck happened?'') log;
          case state of
            None \<Rightarrow>
              do { log \<leftarrow> serial_write (msg ''[ ERR ] Panic called with NULL state. Cannot generate core dump.'') log;
                   Some (Halted log) }
          | Some st \<Rightarrow> do { log \<leftarrow> coredump st log; Some (Halted log) } }"

section \<open>Exceptions\<close>

text \<open>
  \<^verbatim>\<open>exception_handler\<close> declares its \<^verbatim>\<open>cpu_state_t\<close> and never fills it in: what it
  prints and tests is whatever the stack held, the parameter \<open>junk\<close>.
\<close>

definition exception_handler ::
  "cpu_state_t \<Rightarrow> u64 \<Rightarrow> u64 \<Rightarrow> port_log \<Rightarrow> outcome option" where
  "exception_handler junk vector error_code log =
     do { log \<leftarrow> serial_printf (msg ''[ EXCEPTION ] Vector: %x, Error Code: %x'')
                  [VU64 vector, VU64 error_code] log;
          log \<leftarrow> capture_cpu_state (Some junk) log;
          log \<leftarrow> serial_printf (msg ''[ DEBUG ] Captured CPU State: RIP=%x, RSP=%x, RBP=%x'')
                  [VU64 (cs_rip junk), VU64 (cs_rsp junk), VU64 (cs_rbp junk)] log;
          if cs_rip junk = 0 \<or> cs_rip junk = 1 then
            do { log \<leftarrow> serial_printf (msg ''[ ERR ] Invalid RIP value: %x'') [VU64 (cs_rip junk)] log;
                 Some (Halted log) }
          else panic (Some junk) log }"

text \<open>The registers structure, in the order of its fields.\<close>

record registers_t =
  r_rdx :: u64
  r_rcx :: u64
  r_rbx :: u64
  r_rax :: u64
  r_rsi :: u64
  r_rdi :: u64
  r_rbp :: u64
  r_rsp :: u64
  r_r15 :: u64
  r_r14 :: u64
  r_r13 :: u64
  r_r12 :: u64
  r_r11 :: u64
  r_r10 :: u64
  r_r9 :: u64
  r_r8 :: u64
  int_no :: u64
  err_code :: u64
  r_rip :: u64
  r_cs :: u64
  r_rflags :: u64
  user_rsp :: u64
  r_ss :: u64

definition flag_message :: "u64 \<Rightarrow> u64 \<Rightarrow> string \<Rightarrow> string option \<Rightarrow> port_log \<Rightarrow> port_log option" where
  "flag_message code bit_value yes no log =
     (if code AND bit_value \<noteq> 0 then serial_write (msg yes) log
      else case no of None \<Rightarrow> Some log | Some s \<Rightarrow> serial_write (msg s) log)"

definition page_fault_handler ::
  "u64 \<Rightarrow> cpu_state_t \<Rightarrow> registers_t \<Rightarrow> port_log \<Rightarrow> outcome option" where
  "page_fault_handler cr2 junk regs log =
     do { log \<leftarrow> serial_printf (msg ''[ ERR ] Page Fault at address: %x, Error Code: %x'')
                  [VU64 cr2, VU64 (err_code regs)] log;
          log \<leftarrow> flag_message (err_code regs) 1 ''[ INFO ] Page-level protection violation''
                  (Some ''[ INFO ] Non-present page'') log;
          log \<leftarrow> flag_message (err_code regs) 2 ''[ INFO ] Write access''
                  (Some ''[ INFO ] Read access'') log;
          log \<leftarrow> flag_message (err_code regs) 4 ''[ INFO ] Fault in user-mode''
                  (Some ''[ INFO ] Fault in kernel-mode'') log;
          log \<leftarrow> flag_message (err_code regs) 8 ''[ INFO ] Fault caused by reserved bit set'' None log;
          log \<leftarrow> flag_message (err_code regs) 16 ''[ INFO ] Instruction fetch fault'' None log;
          exception_handler junk (int_no regs) (err_code regs) log }"

text \<open>
  \<^verbatim>\<open>hpet_interrupt_handler\<close> declares a local \<^verbatim>\<open>hpet_base\<close> that hides the global and is
  null, and tests that.  The store to the device and the tick are behind the test; \<open>store\<close>
  stands for the device.
\<close>

definition hpet_interrupt_handler ::
  "(u64 \<Rightarrow> u64 \<Rightarrow> 'dev \<Rightarrow> 'dev) \<Rightarrow> u64 \<Rightarrow> 'dev \<Rightarrow> port_log \<Rightarrow> (u64 \<times> 'dev \<times> port_log) option" where
  "hpet_interrupt_handler store tick dev log =
     (let hpet_base = 0 in
      if hpet_base = 0 then
        do { log \<leftarrow> serial_write (msg ''[ ERR ] HPET base address is NULL'') log;
             Some (tick, dev, log) }
      else
        do { dev \<leftarrow> Some (store (hpet_base + 0x20) 1 dev);
             tick \<leftarrow> Some (tick + 1);
             log \<leftarrow> serial_printf (msg ''[ INFO ] HPET Interrupt: Tick %d'') [VU64 tick] log;
             Some (tick, dev, log) })"

definition interrupt_handler ::
  "(u64 \<Rightarrow> u64 \<Rightarrow> 'dev \<Rightarrow> 'dev) \<Rightarrow> u64 \<Rightarrow> cpu_state_t \<Rightarrow> registers_t option
    \<Rightarrow> u64 \<Rightarrow> 'dev \<Rightarrow> port_log \<Rightarrow> (u64 \<times> 'dev \<times> outcome) option" where
  "interrupt_handler store cr2 junk regs tick dev log =
     (case regs of
        None \<Rightarrow>
          do { log \<leftarrow> serial_write (msg ''[ ERR ] interrupt_handler called with NULL regs'') log;
               Some (tick, dev, Returned log) }
      | Some regs \<Rightarrow>
          if int_no regs = 14 then
            do { r \<leftarrow> page_fault_handler cr2 junk regs log; Some (tick, dev, r) }
          else if int_no regs = 2 then
            do { (tick, dev, log) \<leftarrow> hpet_interrupt_handler store tick dev log;
                 Some (tick, dev, Returned log) }
          else Some (tick, dev, Returned log))"

section \<open>The entry stubs\<close>

text \<open>
  The registers when an interrupt arrives, and the words the processor has pushed
  (instruction pointer, code segment, flags, stack pointer, stack segment).  The stack
  grows downwards, so a push is a \<open>#\<close> and the list is memory from the stack pointer up.
\<close>

record cpu_regs =
  c_rax :: u64  c_rbx :: u64  c_rcx :: u64  c_rdx :: u64
  c_rbp :: u64  c_rdi :: u64  c_rsi :: u64  c_r8 :: u64
  c_r9 :: u64  c_r10 :: u64  c_r11 :: u64  c_r12 :: u64
  c_r13 :: u64  c_r14 :: u64  c_r15 :: u64

definition common_stub :: "cpu_regs \<Rightarrow> u64 list \<Rightarrow> u64 list" where
  "common_stub c stack =
     fold (\<lambda>r s. r # s)
       [c_rax c, c_rbx c, c_rcx c, c_rdx c, c_rbp c, c_rdi c, c_rsi c, c_r8 c,
        c_r9 c, c_r10 c, c_r11 c, c_r12 c, c_r13 c, c_r14 c, c_r15 c] stack"

text \<open>The vectors with an error code, which the processor has pushed, and the others.\<close>

definition isr_has_error_code :: "nat \<Rightarrow> bool" where
  "isr_has_error_code v \<longleftrightarrow> v \<in> {8, 10, 11, 12, 13, 14, 17, 21, 29, 30}"

definition isr_stub :: "nat \<Rightarrow> cpu_regs \<Rightarrow> u64 list \<Rightarrow> u64 list" where
  "isr_stub v c stack =
     (if isr_has_error_code v then common_stub c (of_nat v # stack)
      else common_stub c (of_nat v # 0 # stack))"

text \<open>What the C code sees through the pointer it is handed: the words in field order.\<close>

definition registers_at :: "u64 list \<Rightarrow> registers_t" where
  "registers_at w =
     \<lparr>r_rdx = w ! 0, r_rcx = w ! 1, r_rbx = w ! 2, r_rax = w ! 3, r_rsi = w ! 4, r_rdi = w ! 5,
      r_rbp = w ! 6, r_rsp = w ! 7, r_r15 = w ! 8, r_r14 = w ! 9, r_r13 = w ! 10, r_r12 = w ! 11,
      r_r11 = w ! 12, r_r10 = w ! 13, r_r9 = w ! 14, r_r8 = w ! 15, int_no = w ! 16,
      err_code = w ! 17, r_rip = w ! 18, r_cs = w ! 19, r_rflags = w ! 20, user_rsp = w ! 21,
      r_ss = w ! 22\<rparr>"

text \<open>
  The stack the processor leaves: the five words, with the error code below them for the
  vectors that have one.  An interrupt is one such arrival followed by stub and handler;
  above the frame is the stack of the interrupted code.
\<close>

definition iret_frame :: "nat \<Rightarrow> u64 \<Rightarrow> u64 list \<Rightarrow> u64 list \<Rightarrow> u64 list" where
  "iret_frame v err five rest =
     (if isr_has_error_code v then err # five @ rest else five @ rest)"

definition interrupt ::
  "(u64 \<Rightarrow> u64 \<Rightarrow> 'dev \<Rightarrow> 'dev) \<Rightarrow> u64 \<Rightarrow> cpu_state_t \<Rightarrow> cpu_regs \<Rightarrow> nat \<Rightarrow> u64 \<Rightarrow> u64 list \<Rightarrow> u64 list
    \<Rightarrow> u64 \<Rightarrow> 'dev \<Rightarrow> port_log \<Rightarrow> (u64 \<times> 'dev \<times> outcome) option" where
  "interrupt store cr2 junk c v err five rest tick dev log =
     interrupt_handler store cr2 junk
       (Some (registers_at (isr_stub v c (iret_frame v err five rest)))) tick dev log"

section \<open>The descriptor table\<close>

record idt_entry_t =
  isr_low :: u16
  kernel_cs :: u16
  ist :: u8
  attributes :: u8
  isr_mid :: u16
  isr_high :: u32
  reserved :: u32

definition KERNEL_CS :: u16 where "KERNEL_CS = 0x08"
definition IDT_MAX_DESCRIPTORS :: nat where "IDT_MAX_DESCRIPTORS = 256"

type_synonym idt = "idt_entry_t list"

record idtr_t =
  idtr_limit :: u16
  idtr_base :: u64

definition gate_entry :: "u64 \<Rightarrow> u8 \<Rightarrow> idt_entry_t" where
  "gate_entry isr flags =
     \<lparr>isr_low = ucast (isr AND 0xFFFF), kernel_cs = KERNEL_CS, ist = 0, attributes = flags,
      isr_mid = ucast (drop_bit 16 isr AND 0xFFFF),
      isr_high = ucast (drop_bit 32 isr AND 0xFFFFFFFF), reserved = 0\<rparr>"

definition idt_set_descriptor :: "u64 \<Rightarrow> u64 \<Rightarrow> u8 \<Rightarrow> idt \<Rightarrow> port_log \<Rightarrow> (idt \<times> port_log) option" where
  "idt_set_descriptor vector isr flags idt log =
     (if isr = 0 then
        do { log \<leftarrow> serial_printf (msg ''[ ERR ] Null ISR for vector: %x'') [VU64 vector] log;
             Some (idt, log) }
      else if unat vector < length idt then Some (idt[unat vector := gate_entry isr flags], log)
      else None)"

fun idt_set_all :: "nat list \<Rightarrow> (nat \<Rightarrow> u64) \<Rightarrow> idt \<Rightarrow> port_log \<Rightarrow> (idt \<times> port_log) option" where
  "idt_set_all [] isr_stub_table idt log = Some (idt, log)"
| "idt_set_all (i # is) isr_stub_table idt log =
     (case idt_set_descriptor (of_nat i) (isr_stub_table i) 0x8E idt log of
        None \<Rightarrow> None
      | Some (idt, log) \<Rightarrow> idt_set_all is isr_stub_table idt log)"

text \<open>The address of the table and the stub table are link-time data.\<close>

definition idt_init ::
  "u64 \<Rightarrow> (nat \<Rightarrow> u64) \<Rightarrow> idt \<Rightarrow> port_log \<Rightarrow> (idtr_t \<times> idt \<times> port_log) option" where
  "idt_init idt_addr isr_stub_table idt log =
     (let idtr = \<lparr>idtr_limit = of_nat (16 * IDT_MAX_DESCRIPTORS - 1), idtr_base = idt_addr\<rparr> in
      do { (idt, log) \<leftarrow> idt_set_all [0..<48] isr_stub_table idt log;
           log \<leftarrow> serial_write (msg ''[ OK ] IDT'') log;
           Some (idtr, idt, log) })"

text \<open>How the processor reads a gate.\<close>

definition gate_target :: "idt_entry_t \<Rightarrow> u64" where
  "gate_target e =
     ucast (isr_low e) OR push_bit 16 (ucast (isr_mid e)) OR push_bit 32 (ucast (isr_high e))"

definition gate_present :: "idt_entry_t \<Rightarrow> bool" where
  "gate_present e = bit (attributes e) 7"

section \<open>Lemmas\<close>

text \<open>Printing never fails on the messages of these handlers, so each runs to its end.\<close>

lemma serial_printf_msg:
  assumes "msg s = format_of ps" and "args = args_of ps" and "list_all piece_ok ps"
  shows "serial_printf (msg s) args log = Some (transmit (text_of ps) log)"
  using serial_printf_pieces [OF assms(3)] assms(1,2) by simp

definition lits :: "string \<Rightarrow> piece list" where
  "lits s = map (\<lambda>c. Lit (of_char c)) s"

lemma lits_simps [simp]:
  "concat (map piece_format (lits s)) = map of_char s" "concat (map piece_args (lits s)) = []"
  "concat (map piece_text (lits s)) = map of_char s"
  "list_all piece_ok (lits s) \<longleftrightarrow> CHR 0x00 \<notin> set s \<and> CHR ''%'' \<notin> set s"
proof -
  have "(of_char c :: u8) = 0 \<longleftrightarrow> c = CHR 0x00" for c
    using of_char_u8_eq_iff [of c "CHR 0x00"] by simp
  moreover have "(of_char c :: u8) = 37 \<longleftrightarrow> c = CHR ''%''" for c
    using of_char_u8_eq_iff [of c "CHR ''%''"] by simp
  ultimately show "list_all piece_ok (lits s) \<longleftrightarrow> CHR 0x00 \<notin> set s \<and> CHR ''%'' \<notin> set s"
    by (induction s) (auto simp: lits_def)
qed (induction s, simp_all add: lits_def)+

lemma hpet_handler_dead: "hpet_interrupt_handler store tick dev log =
    Some (tick, dev, transmit (map of_char (''[ ERR ] HPET base address is NULL'' @ [CHR 0x0A])) log)"
  by (simp add: hpet_interrupt_handler_def serial_write_cstr)

lemma dump_field_text:
  assumes "CHR 0x00 \<notin> set name"
  shows "dump_field name val log
       = Some (transmit (map of_char name @ hex_text val @ [10]) log)"
  using assms
  by (simp add: dump_field_def serial_write_cstr serial_write_hex_text)

subsection \<open>The frame the stubs build\<close>

lemma registers_of_frame:
  assumes "length five = 5"
  shows "int_no (registers_at (isr_stub v c (iret_frame v err five rest)))
           = (if isr_has_error_code v then err else 0)"
    and "err_code (registers_at (isr_stub v c (iret_frame v err five rest))) = five ! 0"
proof -
  obtain w ws where "five = w # ws" using assms by (cases five) auto
  then show "int_no (registers_at (isr_stub v c (iret_frame v err five rest)))
      = (if isr_has_error_code v then err else 0)"
    "err_code (registers_at (isr_stub v c (iret_frame v err five rest))) = five ! 0"
    by (simp_all add: registers_at_def isr_stub_def common_stub_def iret_frame_def)
qed

lemma interrupt_handler_ignores:
  assumes "int_no regs \<noteq> 14" and "int_no regs \<noteq> 2"
  shows "interrupt_handler store cr2 junk (Some regs) tick dev log = Some (tick, dev, Returned log)"
  using assms by (simp add: interrupt_handler_def)

subsection \<open>Halting\<close>

definition register_text :: "nat \<Rightarrow> u64 \<Rightarrow> u8 list" where
  "register_text i r =
     map of_char ''REG['' @ digits10 i @ map of_char '']: '' @ hex_text r @ [10]"

definition coredump_text :: "cpu_state_t \<Rightarrow> u8 list" where
  "coredump_text st =
     map of_char ([CHR 0x0A] @ ''--- CORE DUMP ---'' @ [CHR 0x0A])
     @ map of_char ''RIP: '' @ hex_text (cs_rip st) @ [10]
     @ map of_char ''RSP: '' @ hex_text (cs_rsp st) @ [10]
     @ map of_char ''RBP: '' @ hex_text (cs_rbp st) @ [10]
     @ map of_char ''RFLAGS: '' @ hex_text (cs_rflags st) @ [10]
     @ concat (map (\<lambda>i. register_text i (cs_registers st ! i)) [0..<16])
     @ map of_char (''--- END CORE DUMP ---'' @ [CHR 0x0A])"

lemma dump_registers_text:
  assumes "\<forall>i \<in> set is. i < length (cs_registers st) \<and> i < 2 ^ 64"
  shows "dump_registers is st log
       = Some (transmit (concat (map (\<lambda>i. register_text i (cs_registers st ! i)) is)) log)"
  using assms
proof (induction "is" arbitrary: log)
  case Nil
  then show ?case by simp
next
  case (Cons i "is")
  then have "unat (of_nat i :: u64) = i" by (simp add: unat_of_nat_u64)
  with Cons show ?case
    by (simp add: serial_write_cstr serial_write_dec_text serial_write_hex_text register_text_def)
qed

lemma coredump_prints:
  assumes "length (cs_registers st) = 16"
  shows "coredump st log = Some (transmit (coredump_text st) log)"
proof -
  have "\<forall>i \<in> set [0..<16]. i < length (cs_registers st) \<and> i < 2 ^ 64"
    using assms by auto
  from dump_registers_text [OF this] show ?thesis
    by (simp add: coredump_def coredump_text_def dump_field_text serial_write_cstr
        del: upt_rec_numeral)
qed

lemma panic_halts:
  assumes "\<And>st. state = Some st \<Longrightarrow> length (cs_registers st) = 16"
  shows "\<exists>log'. panic state log = Some (Halted log')"
  using assms by (cases state) (simp_all add: panic_def serial_write_cstr coredump_prints)

lemma capture_cpu_state_prints: "\<exists>t. capture_cpu_state (Some st) log = Some (transmit t log)"
proof -
  let ?ps = "lits ''[ DEBUG ] Captured CPU State: RIP='' @ [Hex (cs_rip st)] @ lits '', RSP=''
      @ [Hex (cs_rsp st)] @ lits '', RBP='' @ [Hex (cs_rbp st)] @ [Lit 10]"
  have "msg ''[ DEBUG ] Captured CPU State: RIP=%x, RSP=%x, RBP=%x'' = format_of ?ps"
    "[VU64 (cs_rip st), VU64 (cs_rsp st), VU64 (cs_rbp st)] = args_of ?ps"
    "list_all piece_ok ?ps"
    by (simp_all add: cstr_def format_of_def args_of_def)
  from serial_printf_msg [OF this] show ?thesis
    by (auto simp: capture_cpu_state_def simp del: append.simps)
qed

lemma exception_handler_halts:
  assumes "length (cs_registers junk) = 16"
  shows "\<exists>log'. exception_handler junk vector err log = Some (Halted log')"
proof -
  let ?ps = "lits ''[ EXCEPTION ] Vector: '' @ [Hex vector] @ lits '', Error Code: '' @ [Hex err] @ [Lit 10]"
  have "msg ''[ EXCEPTION ] Vector: %x, Error Code: %x'' = format_of ?ps"
    "[VU64 vector, VU64 err] = args_of ?ps" "list_all piece_ok ?ps"
    by (simp_all add: cstr_def format_of_def args_of_def)
  from serial_printf_msg [OF this, of log] obtain l1 where
    1: "serial_printf (msg ''[ EXCEPTION ] Vector: %x, Error Code: %x'') [VU64 vector, VU64 err] log = Some l1"
    by blast
  obtain l2 where 2: "capture_cpu_state (Some junk) l1 = Some l2"
    using capture_cpu_state_prints by blast
  obtain l3 where 3: "serial_printf (msg ''[ DEBUG ] Captured CPU State: RIP=%x, RSP=%x, RBP=%x'')
      [VU64 (cs_rip junk), VU64 (cs_rsp junk), VU64 (cs_rbp junk)] l2 = Some l3"
    using capture_cpu_state_prints [of junk l2] by (auto simp: capture_cpu_state_def)
  let ?qs = "lits ''[ ERR ] Invalid RIP value: '' @ [Hex (cs_rip junk)] @ [Lit 10]"
  have "msg ''[ ERR ] Invalid RIP value: %x'' = format_of ?qs"
    "[VU64 (cs_rip junk)] = args_of ?qs" "list_all piece_ok ?qs"
    by (simp_all add: cstr_def format_of_def args_of_def)
  from serial_printf_msg [OF this, of l3] obtain l4 where
    4: "serial_printf (msg ''[ ERR ] Invalid RIP value: %x'') [VU64 (cs_rip junk)] l3 = Some l4"
    by blast
  obtain l5 where 5: "panic (Some junk) l3 = Some (Halted l5)"
    using panic_halts [of "Some junk"] assms by auto
  show ?thesis unfolding exception_handler_def by (simp only: 1 2 3 4 5 Option.bind.simps) simp
qed

lemma flag_message_prints:
  assumes "CHR 0x00 \<notin> set yes" and "\<And>s. no = Some s \<Longrightarrow> CHR 0x00 \<notin> set s"
  shows "\<exists>log'. flag_message code b yes no log = Some log'"
proof (cases no)
  case None
  then show ?thesis
    using assms(1) by (simp add: flag_message_def serial_write_cstr)
next
  case (Some s)
  then show ?thesis
    using assms(1) assms(2) [OF Some] by (simp add: flag_message_def serial_write_cstr)
qed

lemma page_fault_handler_halts:
  assumes "length (cs_registers junk) = 16"
  shows "\<exists>log'. page_fault_handler cr2 junk regs log = Some (Halted log')"
proof -
  let ?e = "err_code regs"
  let ?ps = "lits ''[ ERR ] Page Fault at address: '' @ [Hex cr2] @ lits '', Error Code: '' @ [Hex ?e] @ [Lit 10]"
  have "msg ''[ ERR ] Page Fault at address: %x, Error Code: %x'' = format_of ?ps"
    "[VU64 cr2, VU64 ?e] = args_of ?ps" "list_all piece_ok ?ps"
    by (simp_all add: cstr_def format_of_def args_of_def)
  from serial_printf_msg [OF this, of log] obtain l0 where
    0: "serial_printf (msg ''[ ERR ] Page Fault at address: %x, Error Code: %x'') [VU64 cr2, VU64 ?e] log = Some l0"
    by blast
  obtain l1 where 1: "flag_message ?e 1 ''[ INFO ] Page-level protection violation''
      (Some ''[ INFO ] Non-present page'') l0 = Some l1"
    using flag_message_prints [of "''[ INFO ] Page-level protection violation''"
        "Some ''[ INFO ] Non-present page''" ?e 1 l0] by auto
  obtain l2 where 2: "flag_message ?e 2 ''[ INFO ] Write access'' (Some ''[ INFO ] Read access'') l1 = Some l2"
    using flag_message_prints [of "''[ INFO ] Write access''" "Some ''[ INFO ] Read access''" ?e 2 l1] by auto
  obtain l3 where 3: "flag_message ?e 4 ''[ INFO ] Fault in user-mode''
      (Some ''[ INFO ] Fault in kernel-mode'') l2 = Some l3"
    using flag_message_prints [of "''[ INFO ] Fault in user-mode''"
        "Some ''[ INFO ] Fault in kernel-mode''" ?e 4 l2] by auto
  obtain l4 where 4: "flag_message ?e 8 ''[ INFO ] Fault caused by reserved bit set'' None l3 = Some l4"
    using flag_message_prints [of "''[ INFO ] Fault caused by reserved bit set''" None ?e 8 l3] by auto
  obtain l5 where 5: "flag_message ?e 16 ''[ INFO ] Instruction fetch fault'' None l4 = Some l5"
    using flag_message_prints [of "''[ INFO ] Instruction fetch fault''" None ?e 16 l4] by auto
  obtain l6 where 6: "exception_handler junk (int_no regs) ?e l5 = Some (Halted l6)"
    using exception_handler_halts [OF assms] by blast
  show ?thesis unfolding page_fault_handler_def by (simp only: 0 1 2 3 4 5 6 Option.bind.simps) simp
qed

subsection \<open>Gates\<close>

lemma gate_target_entry: "gate_target (gate_entry isr flags) = isr"
proof (rule bit_word_eqI)
  fix n
  assume n: "n < LENGTH(64)"
  consider "n < 16" | k where "n = 16 + k" "k < 16" | k where "n = 32 + k" "k < 32"
  proof -
    have "n < 16 \<or> (16 \<le> n \<and> n - 16 < 16) \<or> (32 \<le> n \<and> n - 32 < 32)" using n by auto
    moreover have "16 \<le> n \<Longrightarrow> n = 16 + (n - 16)" "32 \<le> n \<Longrightarrow> n = 32 + (n - 32)" by simp_all
    ultimately show thesis using that by blast
  qed
  then show "bit (gate_target (gate_entry isr flags)) n = bit isr n"
    by cases (simp_all add: gate_target_def gate_entry_def mask_16 mask_32 bit_simps)
qed

lemma idt_set_all_eq:
  assumes "\<forall>i \<in> set is. stubs i \<noteq> 0 \<and> i < length t \<and> i < 2 ^ 64"
  shows "idt_set_all is stubs t log = Some (fold (\<lambda>i t. t[i := gate_entry (stubs i) 0x8E]) is t, log)"
  using assms
proof (induction "is" arbitrary: t)
  case Nil
  then show ?case by simp
next
  case (Cons i "is")
  then have "unat (of_nat i :: u64) = i" by (simp add: unat_of_nat_u64)
  with Cons show ?case by (simp add: idt_set_descriptor_def)
qed

lemma fold_list_update_nth:
  "i < length t \<Longrightarrow> distinct is \<Longrightarrow>
   fold (\<lambda>i t. t[i := f i]) is t ! i = (if i \<in> set is then f i else t ! i)"
  by (induction "is" arbitrary: t) auto

lemma length_fold_list_update [simp]: "length (fold (\<lambda>i t. t[i := f i]) is t) = length t"
  by (induction "is" arbitrary: t) auto

lemma idt_init_gates:
  assumes "\<And>i. i < 48 \<Longrightarrow> stubs i \<noteq> 0" and "length t = IDT_MAX_DESCRIPTORS"
  shows "\<exists>t' log'. idt_init a stubs t log = Some (\<lparr>idtr_limit = 4095, idtr_base = a\<rparr>, t', log')
      \<and> length t' = IDT_MAX_DESCRIPTORS
      \<and> (\<forall>i < 48. t' ! i = gate_entry (stubs i) 0x8E)
      \<and> (\<forall>i < IDT_MAX_DESCRIPTORS. 48 \<le> i \<longrightarrow> t' ! i = t ! i)"
proof -
  let ?t = "fold (\<lambda>i t. t[i := gate_entry (stubs i) 0x8E]) [0..<48] t"
  have "idt_set_all [0..<48] stubs t log = Some (?t, log)"
    using assms by (intro idt_set_all_eq) (auto simp: IDT_MAX_DESCRIPTORS_def)
  moreover have "?t ! i = (if i \<in> set [0..<48] then gate_entry (stubs i) 0x8E else t ! i)"
    if "i < IDT_MAX_DESCRIPTORS" for i
    using that assms(2) by (intro fold_list_update_nth) auto
  ultimately show ?thesis
    using assms(2) by (simp add: idt_init_def serial_write_cstr IDT_MAX_DESCRIPTORS_def del: upt_rec_numeral)
qed

section \<open>Properties\<close>

text \<open>With stubs for all 48 vectors, \<open>idt_init\<close> returns, the table register covers
  all 256 gates, each of the first 48 gates is present, uses the kernel code selector and
  leads to the stub of its own vector, and the other gates are as they were.\<close>

lemma idt_init_installs:
  assumes "\<And>i. i < 48 \<Longrightarrow> stubs i \<noteq> 0" and "length t = IDT_MAX_DESCRIPTORS"
  shows "\<exists>t' log'. idt_init a stubs t log = Some (\<lparr>idtr_limit = 4095, idtr_base = a\<rparr>, t', log')
      \<and> (\<forall>i < 48. gate_target (t' ! i) = stubs i \<and> gate_present (t' ! i)
            \<and> kernel_cs (t' ! i) = KERNEL_CS \<and> ist (t' ! i) = 0)
      \<and> (\<forall>i < IDT_MAX_DESCRIPTORS. 48 \<le> i \<longrightarrow> t' ! i = t ! i)"
proof -
  obtain t' log' where t': "idt_init a stubs t log = Some (\<lparr>idtr_limit = 4095, idtr_base = a\<rparr>, t', log')"
    "\<forall>i < 48. t' ! i = gate_entry (stubs i) 0x8E"
    "\<forall>i < IDT_MAX_DESCRIPTORS. 48 \<le> i \<longrightarrow> t' ! i = t ! i"
    using idt_init_gates [of stubs t a log] assms by blast
  have "gate_present (gate_entry v 0x8E)" "kernel_cs (gate_entry v 0x8E) = KERNEL_CS"
    "ist (gate_entry v 0x8E) = 0" for v
    by (simp_all add: gate_present_def gate_entry_def)
  with t' show ?thesis by (auto simp: gate_target_entry)
qed

lemma idt_init_installs_witness:
  "\<exists>t' log'. idt_init 0x9000 (\<lambda>i. 0xFFFFFFFF80001000 + of_nat i)
        (replicate IDT_MAX_DESCRIPTORS (gate_entry 0 0)) []
      = Some (\<lparr>idtr_limit = 4095, idtr_base = 0x9000\<rparr>, t', log')
      \<and> gate_target (t' ! 14) = 0xFFFFFFFF8000100E"
proof -
  let ?s = "\<lambda>i. 0xFFFFFFFF80001000 + of_nat i :: u64"
  have "?s i \<noteq> 0" if "i < 48" for i
  proof
    assume "?s i = 0"
    then have "of_nat i = (0x7FFFF000 :: u64)" by (simp add: add_eq_0_iff)
    then have "unat (of_nat i :: u64) = 0x7FFFF000" by simp
    with that show False by (simp add: unat_of_nat_u64)
  qed
  from idt_init_installs [of ?s "replicate IDT_MAX_DESCRIPTORS (gate_entry 0 0)" "0x9000" "[]", OF this]
  show ?thesis by auto
qed

text \<open>C39: dispatch as it is.  The stubs push one word less than \<open>registers_t\<close> has
  before \<open>int_no\<close>, so \<open>interrupt_handler\<close> tests the processor's error code (0 for a
  vector without one): an interrupt of any vector, page faults included, returns with
  nothing done unless that word is 14 or 2; when it is 14 the page-fault handler gets the
  interrupted instruction pointer as its error code.\<close>

theorem interrupt_dispatch:
  assumes "length five = 5"
  shows "interrupt store cr2 junk c v err five rest tick dev log =
     (let code = (if isr_has_error_code v then err else 0) in
      if code = 14 then
        map_option (\<lambda>r. (tick, dev, r)) (page_fault_handler cr2 junk
          (registers_at (isr_stub v c (iret_frame v err five rest))) log)
      else if code = 2 then
        Some (tick, dev, Returned (transmit (map of_char (''[ ERR ] HPET base address is NULL'' @ [CHR 0x0A])) log))
      else Some (tick, dev, Returned log))
     \<and> err_code (registers_at (isr_stub v c (iret_frame v err five rest))) = five ! 0"
  using registers_of_frame [OF assms, of v c err rest]
  by (simp add: interrupt_def interrupt_handler_def hpet_handler_dead Let_def
      map_option_case Option.bind_eq_Some_conv split: option.splits)

theorem interrupt_dispatch_witness:
  "\<forall>junk c log. interrupt (\<lambda>_ _ d. d) 0xDEAD000 junk c 14 6 [0x400000, 0x1B, 0x202, 0x7000, 0x23] [] 0 () log
   = Some (0, (), Returned log)"
  by (simp add: interrupt_dispatch [of "[0x400000, 0x1B, 0x202, 0x7000, 0x23]"]
      isr_has_error_code_def)

text \<open>No way back from a fault: whatever the registers and the (uninitialised) saved
  state hold, the page-fault handler and the exception handler print their report without
  failing and end in the halt loop.\<close>

lemma fault_handlers_halt:
  assumes "length (cs_registers junk) = 16"
  shows "(\<exists>log'. page_fault_handler cr2 junk regs log = Some (Halted log'))
       \<and> (\<exists>log'. exception_handler junk vector err log = Some (Halted log'))
       \<and> (\<exists>log'. panic (Some junk) log = Some (Halted log'))"
  using page_fault_handler_halts [OF assms] exception_handler_halts [OF assms]
    panic_halts [of "Some junk"] assms by auto

lemma fault_handlers_halt_witness:
  "\<exists>log'. exception_handler \<lparr>cs_rip = 1, cs_rsp = 0, cs_rbp = 0, cs_rflags = 0,
      cs_registers = replicate 16 0\<rparr> 14 2 [] = Some (Halted log')"
  using fault_handlers_halt [of "\<lparr>cs_rip = 1, cs_rsp = 0, cs_rbp = 0, cs_rflags = 0,
      cs_registers = replicate 16 0\<rparr>"] by simp

end
