(* ===== verification/Acpi_Base.thy ===== *)
theory Acpi_Base
  imports Mem
begin

text \<open>
  What the parts of the ACPI library share: the status codes of
  \<^verbatim>\<open>include/uacpi/status.h\<close> and their texts, little-endian data in memory, the table
  structures of \<^verbatim>\<open>include/uacpi/acpi.h\<close>, and the services of the host that the
  library calls (\<^verbatim>\<open>uacpi_kernel_map\<close>, \<^verbatim>\<open>uacpi_kernel_unmap\<close>,
  \<^verbatim>\<open>uacpi_kernel_get_rsdp\<close>) as a record of functions over a host state of any type.
\<close>

section \<open>Status codes\<close>

datatype uacpi_status =
    UACPI_STATUS_OK
  | UACPI_STATUS_MAPPING_FAILED
  | UACPI_STATUS_OUT_OF_MEMORY
  | UACPI_STATUS_BAD_CHECKSUM
  | UACPI_STATUS_INVALID_SIGNATURE
  | UACPI_STATUS_INVALID_TABLE_LENGTH
  | UACPI_STATUS_NOT_FOUND
  | UACPI_STATUS_INVALID_ARGUMENT
  | UACPI_STATUS_UNIMPLEMENTED
  | UACPI_STATUS_ALREADY_EXISTS
  | UACPI_STATUS_INTERNAL_ERROR
  | UACPI_STATUS_TYPE_MISMATCH
  | UACPI_STATUS_INIT_LEVEL_MISMATCH
  | UACPI_STATUS_NAMESPACE_NODE_DANGLING
  | UACPI_STATUS_NO_HANDLER
  | UACPI_STATUS_NO_RESOURCE_END_TAG
  | UACPI_STATUS_COMPILED_OUT
  | UACPI_STATUS_HARDWARE_TIMEOUT
  | UACPI_STATUS_TIMEOUT
  | UACPI_STATUS_OVERRIDDEN
  | UACPI_STATUS_DENIED
  | UACPI_STATUS_AML_UNDEFINED_REFERENCE
  | UACPI_STATUS_AML_INVALID_NAMESTRING
  | UACPI_STATUS_AML_OBJECT_ALREADY_EXISTS
  | UACPI_STATUS_AML_INVALID_OPCODE
  | UACPI_STATUS_AML_INCOMPATIBLE_OBJECT_TYPE
  | UACPI_STATUS_AML_BAD_ENCODING
  | UACPI_STATUS_AML_OUT_OF_BOUNDS_INDEX
  | UACPI_STATUS_AML_SYNC_LEVEL_TOO_HIGH
  | UACPI_STATUS_AML_INVALID_RESOURCE
  | UACPI_STATUS_AML_LOOP_TIMEOUT
  | UACPI_STATUS_AML_CALL_STACK_DEPTH_LIMIT

primrec status_code :: "uacpi_status \<Rightarrow> u32" where
  "status_code UACPI_STATUS_OK = 0"
| "status_code UACPI_STATUS_MAPPING_FAILED = 1"
| "status_code UACPI_STATUS_OUT_OF_MEMORY = 2"
| "status_code UACPI_STATUS_BAD_CHECKSUM = 3"
| "status_code UACPI_STATUS_INVALID_SIGNATURE = 4"
| "status_code UACPI_STATUS_INVALID_TABLE_LENGTH = 5"
| "status_code UACPI_STATUS_NOT_FOUND = 6"
| "status_code UACPI_STATUS_INVALID_ARGUMENT = 7"
| "status_code UACPI_STATUS_UNIMPLEMENTED = 8"
| "status_code UACPI_STATUS_ALREADY_EXISTS = 9"
| "status_code UACPI_STATUS_INTERNAL_ERROR = 10"
| "status_code UACPI_STATUS_TYPE_MISMATCH = 11"
| "status_code UACPI_STATUS_INIT_LEVEL_MISMATCH = 12"
| "status_code UACPI_STATUS_NAMESPACE_NODE_DANGLING = 13"
| "status_code UACPI_STATUS_NO_HANDLER = 14"
| "status_code UACPI_STATUS_NO_RESOURCE_END_TAG = 15"
| "status_code UACPI_STATUS_COMPILED_OUT = 16"
| "status_code UACPI_STATUS_HARDWARE_TIMEOUT = 17"
| "status_code UACPI_STATUS_TIMEOUT = 18"
| "status_code UACPI_STATUS_OVERRIDDEN = 19"
| "status_code UACPI_STATUS_DENIED = 20"
| "status_code UACPI_STATUS_AML_UNDEFINED_REFERENCE = 0x0EFF0000"
| "status_code UACPI_STATUS_AML_INVALID_NAMESTRING = 0x0EFF0001"
| "status_code UACPI_STATUS_AML_OBJECT_ALREADY_EXISTS = 0x0EFF0002"
| "status_code UACPI_STATUS_AML_INVALID_OPCODE = 0x0EFF0003"
| "status_code UACPI_STATUS_AML_INCOMPATIBLE_OBJECT_TYPE = 0x0EFF0004"
| "status_code UACPI_STATUS_AML_BAD_ENCODING = 0x0EFF0005"
| "status_code UACPI_STATUS_AML_OUT_OF_BOUNDS_INDEX = 0x0EFF0006"
| "status_code UACPI_STATUS_AML_SYNC_LEVEL_TOO_HIGH = 0x0EFF0007"
| "status_code UACPI_STATUS_AML_INVALID_RESOURCE = 0x0EFF0008"
| "status_code UACPI_STATUS_AML_LOOP_TIMEOUT = 0x0EFF0009"
| "status_code UACPI_STATUS_AML_CALL_STACK_DEPTH_LIMIT = 0x0EFF000A"

primrec uacpi_status_to_string :: "uacpi_status \<Rightarrow> string" where
  "uacpi_status_to_string UACPI_STATUS_OK = ''no error''"
| "uacpi_status_to_string UACPI_STATUS_MAPPING_FAILED = ''failed to map memory''"
| "uacpi_status_to_string UACPI_STATUS_OUT_OF_MEMORY = ''out of memory''"
| "uacpi_status_to_string UACPI_STATUS_BAD_CHECKSUM = ''bad table checksum''"
| "uacpi_status_to_string UACPI_STATUS_INVALID_SIGNATURE = ''invalid table signature''"
| "uacpi_status_to_string UACPI_STATUS_INVALID_TABLE_LENGTH = ''invalid table length''"
| "uacpi_status_to_string UACPI_STATUS_NOT_FOUND = ''not found''"
| "uacpi_status_to_string UACPI_STATUS_INVALID_ARGUMENT = ''invalid argument''"
| "uacpi_status_to_string UACPI_STATUS_UNIMPLEMENTED = ''unimplemented''"
| "uacpi_status_to_string UACPI_STATUS_ALREADY_EXISTS = ''already exists''"
| "uacpi_status_to_string UACPI_STATUS_INTERNAL_ERROR = ''internal error''"
| "uacpi_status_to_string UACPI_STATUS_TYPE_MISMATCH = ''object type mismatch''"
| "uacpi_status_to_string UACPI_STATUS_INIT_LEVEL_MISMATCH = ''init level too low/high for this action''"
| "uacpi_status_to_string UACPI_STATUS_NAMESPACE_NODE_DANGLING = ''attempting to use a dangling namespace node''"
| "uacpi_status_to_string UACPI_STATUS_NO_HANDLER = ''no handler found''"
| "uacpi_status_to_string UACPI_STATUS_NO_RESOURCE_END_TAG = ''resource template without an end tag''"
| "uacpi_status_to_string UACPI_STATUS_COMPILED_OUT = ''this functionality has been compiled out of this build''"
| "uacpi_status_to_string UACPI_STATUS_HARDWARE_TIMEOUT = ''timed out waiting for hardware response''"
| "uacpi_status_to_string UACPI_STATUS_TIMEOUT = ''wait timed out''"
| "uacpi_status_to_string UACPI_STATUS_OVERRIDDEN = ''the requested action has been overridden''"
| "uacpi_status_to_string UACPI_STATUS_DENIED = ''the requested action has been denied''"
| "uacpi_status_to_string UACPI_STATUS_AML_UNDEFINED_REFERENCE = ''AML referenced an undefined object''"
| "uacpi_status_to_string UACPI_STATUS_AML_INVALID_NAMESTRING = ''invalid AML name string''"
| "uacpi_status_to_string UACPI_STATUS_AML_OBJECT_ALREADY_EXISTS = ''object already exists''"
| "uacpi_status_to_string UACPI_STATUS_AML_INVALID_OPCODE = ''invalid AML opcode''"
| "uacpi_status_to_string UACPI_STATUS_AML_INCOMPATIBLE_OBJECT_TYPE = ''incompatible AML object type''"
| "uacpi_status_to_string UACPI_STATUS_AML_BAD_ENCODING = ''bad AML instruction encoding''"
| "uacpi_status_to_string UACPI_STATUS_AML_OUT_OF_BOUNDS_INDEX = ''out of bounds AML index''"
| "uacpi_status_to_string UACPI_STATUS_AML_SYNC_LEVEL_TOO_HIGH = ''AML attempted to acquire a mutex with a lower sync level''"
| "uacpi_status_to_string UACPI_STATUS_AML_INVALID_RESOURCE = ''invalid resource template encoding or type''"
| "uacpi_status_to_string UACPI_STATUS_AML_LOOP_TIMEOUT = ''hanging AML while loop''"
| "uacpi_status_to_string UACPI_STATUS_AML_CALL_STACK_DEPTH_LIMIT = ''reached maximum AML call stack depth''"

section \<open>Little-endian data\<close>

fun le_word :: "u8 list \<Rightarrow> u64" where
  "le_word [] = 0"
| "le_word (b # bs) = ucast b OR push_bit 8 (le_word bs)"

fun le_bytes :: "nat \<Rightarrow> u64 \<Rightarrow> u8 list" where
  "le_bytes 0 v = []"
| "le_bytes (Suc n) v = ucast v # le_bytes n (drop_bit 8 v)"

text \<open>Reading and writing a field of \<open>n\<close> bytes at an offset of a byte image.\<close>

definition get_le :: "nat \<Rightarrow> nat \<Rightarrow> u8 list \<Rightarrow> u64" where
  "get_le off n bs = le_word (take n (drop off bs))"

definition put_le :: "nat \<Rightarrow> nat \<Rightarrow> u64 \<Rightarrow> u8 list \<Rightarrow> u8 list" where
  "put_le off n v bs = take off bs @ le_bytes n v @ drop (off + n) bs"

lemma length_le_bytes [simp]: "length (le_bytes n v) = n"
  by (induction n arbitrary: v) simp_all

lemma le_word_le_bytes: "n \<le> 8 \<Longrightarrow> le_word (le_bytes n v) = v AND mask (8 * n)"
proof (induction n arbitrary: v)
  case 0
  then show ?case by simp
next
  case (Suc n)
  have "ucast (ucast v :: u8) OR push_bit 8 (drop_bit 8 v AND mask (8 * n)) = v AND mask (8 * Suc n)"
    by (rule bit_word_eqI) (auto simp: bit_simps)
  with Suc show ?case by simp
qed

lemma length_put_le [simp]: "off + n \<le> length bs \<Longrightarrow> length (put_le off n v bs) = length bs"
  by (simp add: put_le_def)

lemma get_put_same:
  "off + n \<le> length bs \<Longrightarrow> n \<le> 8 \<Longrightarrow> get_le off n (put_le off n v bs) = v AND mask (8 * n)"
  by (simp add: get_le_def put_le_def le_word_le_bytes)

lemma get_put_before:
  "i + k \<le> off \<Longrightarrow> off \<le> length bs \<Longrightarrow> get_le i k (put_le off n v bs) = get_le i k bs"
  by (simp add: get_le_def put_le_def drop_take)

lemma get_put_after:
  assumes "off + n \<le> i" and "off + n \<le> length bs"
  shows "get_le i k (put_le off n v bs) = get_le i k bs"
proof -
  have "drop i (put_le off n v bs) = drop (i - n - off) (drop (off + n) bs)"
    using assms by (simp add: put_le_def)
  also have "\<dots> = drop i bs" using assms by simp
  finally show ?thesis by (simp add: get_le_def)
qed

lemma le_word_zeros [simp]: "le_word (replicate n 0) = 0"
  by (induction n) simp_all

lemma get_le_zeros [simp]: "get_le i k (replicate n 0) = 0"
  by (simp add: get_le_def)

section \<open>Table structures\<close>

record acpi_sdt_hdr =
  h_signature :: "u8 list"
  h_length :: u32
  h_revision :: u8
  h_checksum :: u8
  h_oemid :: "u8 list"
  h_oem_table_id :: "u8 list"
  h_oem_revision :: u32
  h_creator_id :: u32
  h_creator_revision :: u32

definition sdt_hdr_size :: nat where "sdt_hdr_size = 36"

definition read_hdr :: "mem \<Rightarrow> u64 \<Rightarrow> acpi_sdt_hdr" where
  "read_hdr m a =
     \<lparr>h_signature = read_bytes m a 4,
      h_length = ucast (le_word (read_bytes m (a + 4) 4)),
      h_revision = m (a + 8), h_checksum = m (a + 9),
      h_oemid = read_bytes m (a + 10) 6, h_oem_table_id = read_bytes m (a + 16) 8,
      h_oem_revision = ucast (le_word (read_bytes m (a + 24) 4)),
      h_creator_id = ucast (le_word (read_bytes m (a + 28) 4)),
      h_creator_revision = ucast (le_word (read_bytes m (a + 32) 4))\<rparr>"

text \<open>The root pointer; the code reads these fields of it.\<close>

record acpi_rsdp =
  rsdp_revision :: u8
  rsdt_addr :: u32
  xsdt_addr :: u64

definition rsdp_size :: nat where "rsdp_size = 36"

definition read_rsdp :: "mem \<Rightarrow> u64 \<Rightarrow> acpi_rsdp" where
  "read_rsdp m a =
     \<lparr>rsdp_revision = m (a + 15),
      rsdt_addr = ucast (le_word (read_bytes m (a + 16) 4)),
      xsdt_addr = le_word (read_bytes m (a + 24) 8)\<rparr>"

text \<open>The signatures, as the four bytes the code compares.\<close>

definition sig :: "string \<Rightarrow> u8 list" where "sig s = map of_char s"

definition ACPI_FADT_SIGNATURE :: "u8 list" where "ACPI_FADT_SIGNATURE = sig ''FACP''"
definition ACPI_FACS_SIGNATURE :: "u8 list" where "ACPI_FACS_SIGNATURE = sig ''FACS''"
definition ACPI_DSDT_SIGNATURE :: "u8 list" where "ACPI_DSDT_SIGNATURE = sig ''DSDT''"
definition ACPI_XSDT_SIGNATURE :: "u8 list" where "ACPI_XSDT_SIGNATURE = sig ''XSDT''"
definition ACPI_RSDT_SIGNATURE :: "u8 list" where "ACPI_RSDT_SIGNATURE = sig ''RSDT''"

text \<open>
  The fixed description table: the fields of \<^verbatim>\<open>struct acpi_fadt\<close> in order with their sizes
  in bytes.  The structure is packed, so a field starts where the one before it ends.
\<close>

definition acpi_fadt_layout :: "(string \<times> nat) list" where
  "acpi_fadt_layout =
     [(''hdr'', 36), (''firmware_ctrl'', 4), (''dsdt'', 4), (''int_model'', 1),
      (''preferred_pm_profile'', 1), (''sci_int'', 2), (''smi_cmd'', 4),
      (''acpi_enable'', 1), (''acpi_disable'', 1), (''s4bios_req'', 1),
      (''pstate_cnt'', 1), (''pm1a_evt_blk'', 4), (''pm1b_evt_blk'', 4),
      (''pm1a_cnt_blk'', 4), (''pm1b_cnt_blk'', 4), (''pm2_cnt_blk'', 4),
      (''pm_tmr_blk'', 4), (''gpe0_blk'', 4), (''gpe1_blk'', 4), (''pm1_evt_len'', 1),
      (''pm1_cnt_len'', 1), (''pm2_cnt_len'', 1), (''pm_tmr_len'', 1),
      (''gpe0_blk_len'', 1), (''gpe1_blk_len'', 1), (''gpe1_base'', 1), (''cst_cnt'', 1),
      (''p_lvl2_lat'', 2), (''p_lvl3_lat'', 2), (''flush_size'', 2),
      (''flush_stride'', 2), (''duty_offset'', 1), (''duty_width'', 1),
      (''day_alrm'', 1), (''mon_alrm'', 1), (''century'', 1), (''iapc_boot_arch'', 2),
      (''rsvd'', 1), (''flags'', 4), (''reset_reg'', 12), (''reset_value'', 1),
      (''arm_boot_arch'', 2), (''fadt_minor_verison'', 1), (''x_firmware_ctrl'', 8),
      (''x_dsdt'', 8), (''x_pm1a_evt_blk'', 12), (''x_pm1b_evt_blk'', 12),
      (''x_pm1a_cnt_blk'', 12), (''x_pm1b_cnt_blk'', 12), (''x_pm2_cnt_blk'', 12),
      (''x_pm_tmr_blk'', 12), (''x_gpe0_blk'', 12), (''x_gpe1_blk'', 12),
      (''sleep_control_reg'', 12), (''sleep_status_reg'', 12),
      (''hypervisor_vendor_identity'', 8)]"

fun offset_in :: "string \<Rightarrow> (string \<times> nat) list \<Rightarrow> nat" where
  "offset_in name [] = 0"
| "offset_in name ((f, n) # fs) = (if f = name then 0 else n + offset_in name fs)"

definition fadt_offset :: "string \<Rightarrow> nat" where
  "fadt_offset name = offset_in name acpi_fadt_layout"

definition fadt_size :: nat where "fadt_size = sum_list (map snd acpi_fadt_layout)"

record acpi_gas =
  address_space_id :: u8
  register_bit_width :: u8
  register_bit_offset :: u8
  access_size :: u8
  gas_address :: u64

definition get_gas :: "nat \<Rightarrow> u8 list \<Rightarrow> acpi_gas" where
  "get_gas off bs =
     \<lparr>address_space_id = ucast (get_le off 1 bs), register_bit_width = ucast (get_le (off + 1) 1 bs),
      register_bit_offset = ucast (get_le (off + 2) 1 bs), access_size = ucast (get_le (off + 3) 1 bs),
      gas_address = get_le (off + 4) 8 bs\<rparr>"

definition put_gas :: "nat \<Rightarrow> acpi_gas \<Rightarrow> u8 list \<Rightarrow> u8 list" where
  "put_gas off g bs =
     put_le (off + 4) 8 (gas_address g)
       (put_le (off + 3) 1 (ucast (access_size g))
         (put_le (off + 2) 1 (ucast (register_bit_offset g))
           (put_le (off + 1) 1 (ucast (register_bit_width g))
             (put_le off 1 (ucast (address_space_id g)) bs))))"

section \<open>The host\<close>

record 'h host_api =
  host_map :: "u64 \<Rightarrow> u64 \<Rightarrow> 'h \<Rightarrow> u64 \<times> 'h"
  host_unmap :: "u64 \<Rightarrow> u64 \<Rightarrow> 'h \<Rightarrow> 'h"
  host_mem :: "'h \<Rightarrow> mem"
  host_get_rsdp :: "'h \<Rightarrow> (uacpi_status \<times> u64) \<times> 'h"

section \<open>Lemmas\<close>

lemma fadt_size_276: "fadt_size = 276"
  by (simp add: fadt_size_def acpi_fadt_layout_def)

lemma status_code_inj: "status_code a = status_code b \<longleftrightarrow> a = b"
  by (cases a; cases b) simp_all

end
