(* ===== verification/Dynamic_Array.thy ===== *)
theory Dynamic_Array
  imports Prelude "HOL-Library.Sublist"
begin

text \<open>
  The array with inline storage of \<^verbatim>\<open>include/uacpi/internal/dynamic_array.h\<close>: the
  first elements live in the structure, the others in a separate buffer.  Both allocators
  of the header are here, the one that grows the buffer and the one of the bare-bones build,
  which uses a buffer of fixed size.  A pointer to an element is a \<open>slot\<close>.
\<close>

section \<open>The array and its operations\<close>

record 'a darray =
  inline_storage :: "'a list"
  dynamic_storage :: "'a list"
  dynamic_capacity :: nat
  size_including_inline :: nat

datatype slot = Inline nat | Dynamic nat

definition darray_inline_capacity :: "'a darray \<Rightarrow> nat" where
  "darray_inline_capacity arr = length (inline_storage arr)"

definition darray_capacity :: "'a darray \<Rightarrow> nat" where
  "darray_capacity arr = darray_inline_capacity arr + dynamic_capacity arr"

definition darray_size :: "'a darray \<Rightarrow> nat" where
  "darray_size arr = size_including_inline arr"

definition darray_at :: "nat \<Rightarrow> 'a darray \<Rightarrow> slot option" where
  "darray_at idx arr =
     (if idx \<ge> size_including_inline arr then None
      else if idx < darray_inline_capacity arr then Some (Inline idx)
      else Some (Dynamic (idx - darray_inline_capacity arr)))"

text \<open>The bare-bones allocator: no room, no element.\<close>

definition darray_alloc :: "'a darray \<Rightarrow> slot option \<times> 'a darray" where
  "darray_alloc arr =
     (let inline_cap = darray_inline_capacity arr in
      if size_including_inline arr \<ge> inline_cap then
        let dynamic_size = size_including_inline arr - inline_cap in
        if dynamic_size = dynamic_capacity arr then (None, arr)
        else (Some (Dynamic dynamic_size),
              arr\<lparr>size_including_inline := size_including_inline arr + 1\<rparr>)
      else (Some (Inline (size_including_inline arr)),
            arr\<lparr>size_including_inline := size_including_inline arr + 1\<rparr>))"

text \<open>
  The growing allocator.  \<open>type_size\<close> is the size of an element in bytes and
  \<open>alloc\<close> says whether the allocation of that many bytes succeeds; the new buffer holds
  \<open>junk\<close> where nothing is copied to it.
\<close>

definition grown_bytes :: "nat \<Rightarrow> 'a darray \<Rightarrow> nat" where
  "grown_bytes type_size arr =
     (if dynamic_capacity arr = 0 then type_size * darray_inline_capacity arr
      else let bytes = (dynamic_capacity arr div 2) * type_size;
               bytes = (if bytes = 0 then bytes + type_size else bytes)
           in bytes + dynamic_capacity arr * type_size)"

definition darray_alloc_grow ::
  "nat \<Rightarrow> (nat \<Rightarrow> bool) \<Rightarrow> 'a \<Rightarrow> 'a darray \<Rightarrow> slot option \<times> 'a darray" where
  "darray_alloc_grow type_size alloc junk arr =
     (let inline_cap = darray_inline_capacity arr in
      if size_including_inline arr \<ge> inline_cap then
        let dynamic_size = size_including_inline arr - inline_cap in
        if dynamic_size = dynamic_capacity arr then
          let bytes = grown_bytes type_size arr in
          if \<not> alloc bytes then (None, arr)
          else let cap = bytes div type_size;
                   buf = take dynamic_size (dynamic_storage arr) @ replicate (cap - dynamic_size) junk
               in (Some (Dynamic dynamic_size),
                   arr\<lparr>dynamic_capacity := cap, dynamic_storage := buf,
                       size_including_inline := size_including_inline arr + 1\<rparr>)
        else (Some (Dynamic dynamic_size),
              arr\<lparr>size_including_inline := size_including_inline arr + 1\<rparr>)
      else (Some (Inline (size_including_inline arr)),
            arr\<lparr>size_including_inline := size_including_inline arr + 1\<rparr>))"

text \<open>Reading and writing through a pointer.\<close>

definition darray_get :: "slot \<Rightarrow> 'a darray \<Rightarrow> 'a" where
  "darray_get sl arr = (case sl of Inline i \<Rightarrow> inline_storage arr ! i | Dynamic i \<Rightarrow> dynamic_storage arr ! i)"

definition darray_put :: "slot \<Rightarrow> 'a \<Rightarrow> 'a darray \<Rightarrow> 'a darray" where
  "darray_put sl x arr =
     (case sl of
        Inline i \<Rightarrow> arr\<lparr>inline_storage := (inline_storage arr)[i := x]\<rparr>
      | Dynamic i \<Rightarrow> arr\<lparr>dynamic_storage := (dynamic_storage arr)[i := x]\<rparr>)"

definition darray_calloc :: "'a \<Rightarrow> 'a darray \<Rightarrow> slot option \<times> 'a darray" where
  "darray_calloc zero arr =
     (case darray_alloc arr of
        (None, arr) \<Rightarrow> (None, arr)
      | (Some sl, arr) \<Rightarrow> (Some sl, darray_put sl zero arr))"

definition darray_pop :: "'a darray \<Rightarrow> 'a darray" where
  "darray_pop arr =
     (if size_including_inline arr = 0 then arr
      else arr\<lparr>size_including_inline := size_including_inline arr - 1\<rparr>)"

text \<open>On an empty array the index of \<open>last\<close> wraps around, far above the size.\<close>

definition darray_last :: "'a darray \<Rightarrow> slot option" where
  "darray_last arr =
     (if size_including_inline arr = 0 then None
      else darray_at (size_including_inline arr - 1) arr)"

definition darray_clear :: "'a darray \<Rightarrow> 'a darray" where
  "darray_clear arr =
     arr\<lparr>size_including_inline := 0, dynamic_capacity := 0, dynamic_storage := []\<rparr>"

section \<open>The list it stands for\<close>

definition darray_inv :: "'a darray \<Rightarrow> bool" where
  "darray_inv arr \<longleftrightarrow> length (dynamic_storage arr) = dynamic_capacity arr
     \<and> size_including_inline arr \<le> darray_capacity arr"

definition contents :: "'a darray \<Rightarrow> 'a list" where
  "contents arr = take (size_including_inline arr) (inline_storage arr @ dynamic_storage arr)"

lemma length_contents [simp]: "darray_inv arr \<Longrightarrow> length (contents arr) = darray_size arr"
  by (auto simp: contents_def darray_inv_def darray_capacity_def darray_inline_capacity_def darray_size_def)

lemma darray_at_None_iff: "darray_at idx arr = None \<longleftrightarrow> darray_size arr \<le> idx"
  by (simp add: darray_at_def darray_size_def)

lemma darray_get_at:
  assumes "darray_inv arr" and "darray_at idx arr = Some sl"
  shows "darray_get sl arr = contents arr ! idx"
  using assms
  by (auto simp: darray_at_def darray_get_def contents_def darray_inline_capacity_def nth_append
      split: if_splits)

lemma darray_put_at:
  assumes "darray_inv arr" and "darray_at idx arr = Some sl"
  shows "contents (darray_put sl x arr) = (contents arr)[idx := x]"
    and "darray_inv (darray_put sl x arr)"
    and "darray_size (darray_put sl x arr) = darray_size arr"
    and "darray_capacity (darray_put sl x arr) = darray_capacity arr"
    and "darray_inline_capacity (darray_put sl x arr) = darray_inline_capacity arr"
proof -
  have u1: "(take n (xs @ ys))[i := x] = take n (xs[i := x] @ ys)" if "i < length xs" for n i and xs ys :: "'a list"
    unfolding take_update_swap [symmetric] list_update_append using that by simp
  have u2: "(take n (xs @ ys))[i := x] = take n (xs @ ys[i - length xs := x])"
    if "length xs \<le> i" for n i and xs ys :: "'a list"
    unfolding take_update_swap [symmetric] list_update_append using that by simp
  show "contents (darray_put sl x arr) = (contents arr)[idx := x]"
  proof (cases "idx < length (inline_storage arr)")
    case True
    with assms(2) have "sl = Inline idx"
      by (simp add: darray_at_def darray_inline_capacity_def split: if_splits)
    with u1 [OF True] show ?thesis by (simp only: contents_def darray_put_def slot.case) simp
  next
    case False
    with assms(2) have "sl = Dynamic (idx - length (inline_storage arr))"
      by (simp add: darray_at_def darray_inline_capacity_def split: if_splits)
    with u2 [of "inline_storage arr" idx] False show ?thesis
      by (simp only: contents_def darray_put_def slot.case not_less) simp
  qed
qed (use assms in \<open>auto simp: darray_at_def darray_put_def darray_inline_capacity_def
      darray_inv_def darray_capacity_def darray_size_def split: if_splits\<close>)

lemma darray_at_put [simp]: "darray_at i (darray_put sl x arr) = darray_at i arr"
  by (auto simp: darray_at_def darray_put_def darray_inline_capacity_def split: slot.splits)

lemma take_Suc_update:
  assumes "n < length zs"
  shows "take (Suc n) (zs[n := x]) = take n zs @ [x]"
  using assms by (simp add: take_Suc_conv_app_nth)

lemma darray_alloc_None:
  assumes "darray_inv arr"
  shows "fst (darray_alloc arr) = None \<longleftrightarrow> darray_size arr = darray_capacity arr"
  using assms
  by (auto simp: darray_alloc_def darray_inv_def darray_size_def darray_capacity_def Let_def)

lemma darray_alloc_full: "fst (darray_alloc arr) = None \<Longrightarrow> snd (darray_alloc arr) = arr"
  by (auto simp: darray_alloc_def Let_def split: if_splits)

lemma darray_alloc_put:
  assumes "darray_inv arr" and "darray_alloc arr = (Some sl, arr')"
  shows "contents (darray_put sl x arr') = contents arr @ [x]
       \<and> darray_inv (darray_put sl x arr')
       \<and> darray_at (darray_size arr) (darray_put sl x arr') = Some sl
       \<and> darray_size (darray_put sl x arr') = Suc (darray_size arr)
       \<and> darray_capacity (darray_put sl x arr') = darray_capacity arr
       \<and> darray_inline_capacity (darray_put sl x arr') = darray_inline_capacity arr"
proof (cases "size_including_inline arr < darray_inline_capacity arr")
  case True
  with assms have "sl = Inline (size_including_inline arr)"
    "arr' = arr\<lparr>size_including_inline := size_including_inline arr + 1\<rparr>"
    by (auto simp: darray_alloc_def Let_def split: if_splits)
  with True assms(1) show ?thesis
    using take_Suc_update [of "size_including_inline arr" "inline_storage arr" x]
    by (simp add: darray_put_def contents_def darray_inv_def darray_capacity_def darray_size_def
        darray_inline_capacity_def darray_at_def)
next
  case False
  with assms have sl: "sl = Dynamic (size_including_inline arr - darray_inline_capacity arr)"
    "arr' = arr\<lparr>size_including_inline := size_including_inline arr + 1\<rparr>"
    "size_including_inline arr - darray_inline_capacity arr < dynamic_capacity arr"
    by (auto simp: darray_alloc_def Let_def darray_inv_def darray_capacity_def split: if_splits)
  let ?d = "size_including_inline arr - length (inline_storage arr)"
  have "Suc (size_including_inline arr) - length (inline_storage arr) = Suc ?d"
    using False by (simp add: darray_inline_capacity_def Suc_diff_le)
  moreover have "?d < length (dynamic_storage arr)"
    using sl(3) assms(1) by (simp add: darray_inv_def darray_inline_capacity_def)
  ultimately show ?thesis
    using False assms(1) sl take_Suc_update [of ?d "dynamic_storage arr" x]
    by (simp add: darray_put_def contents_def darray_inv_def darray_capacity_def darray_size_def
        darray_inline_capacity_def darray_at_def)
qed

lemma darray_pop_contents:
  assumes "darray_inv arr"
  shows "contents (darray_pop arr) = butlast (contents arr)" and "darray_inv (darray_pop arr)"
proof -
  show "darray_inv (darray_pop arr)"
    using assms by (auto simp: darray_pop_def darray_inv_def darray_capacity_def darray_inline_capacity_def)
  have "take (n - 1) zs = butlast (take n zs)" if "n \<le> length zs" for n and zs :: "'a list"
    using that by (simp add: butlast_take)
  from this [of "size_including_inline arr" "inline_storage arr @ dynamic_storage arr"]
  show "contents (darray_pop arr) = butlast (contents arr)"
    using assms
    by (simp add: darray_pop_def contents_def darray_inv_def darray_capacity_def darray_inline_capacity_def)
qed


lemma darray_alloc_grow_put:
  assumes "darray_inv arr" and "0 < type_size" and "0 < darray_inline_capacity arr"
    and "darray_alloc_grow type_size ok junk arr = (Some sl, arr')"
  shows "contents (darray_put sl x arr') = contents arr @ [x]
       \<and> darray_inv (darray_put sl x arr')
       \<and> darray_at (darray_size arr) (darray_put sl x arr') = Some sl
       \<and> darray_size (darray_put sl x arr') = Suc (darray_size arr)
       \<and> darray_inline_capacity (darray_put sl x arr') = darray_inline_capacity arr"
proof (cases "size_including_inline arr \<ge> darray_inline_capacity arr
      \<and> size_including_inline arr - darray_inline_capacity arr = dynamic_capacity arr")
  case False
  then have "darray_alloc_grow type_size ok junk arr = darray_alloc arr"
    by (auto simp: darray_alloc_grow_def darray_alloc_def Let_def)
  with assms darray_alloc_put [OF assms(1), of sl arr' x] show ?thesis by simp
next
  case True
  let ?cap = "grown_bytes type_size arr div type_size"
  have cap: "dynamic_capacity arr < ?cap"
    using assms(2,3)
    by (auto simp: grown_bytes_def Let_def div_add_self1 simp flip: distrib_right)
  let ?n = "dynamic_capacity arr"
  from True have size: "size_including_inline arr = length (inline_storage arr) + ?n"
    by (auto simp: darray_inline_capacity_def)
  have len: "length (dynamic_storage arr) = ?n" using assms(1) by (simp add: darray_inv_def)
  from assms(4) True have sl: "sl = Dynamic ?n"
    "arr' = arr\<lparr>dynamic_capacity := ?cap,
       dynamic_storage := dynamic_storage arr @ replicate (?cap - ?n) junk,
       size_including_inline := size_including_inline arr + 1\<rparr>"
    using len by (auto simp: darray_alloc_grow_def Let_def split: if_splits)
  obtain k where k: "?cap - ?n = Suc k" using cap by (metis Suc_diff_Suc)
  then have "Suc (?n + k) = ?cap" by simp
  then show ?thesis
    using cap len size k
    by (simp add: sl list_update_append darray_put_def contents_def darray_inv_def darray_capacity_def
        darray_inline_capacity_def darray_at_def darray_size_def)
qed

section \<open>What a client needs of an allocator\<close>

text \<open>
  Appending an element is an allocation and a store through the pointer it returns; a full
  array is left alone.
\<close>

definition append_with :: "('a darray \<Rightarrow> slot option \<times> 'a darray) \<Rightarrow> 'a \<Rightarrow> 'a darray \<Rightarrow> bool \<times> 'a darray" where
  "append_with alloc x arr =
     (case alloc arr of
        (None, arr) \<Rightarrow> (False, arr)
      | (Some sl, arr) \<Rightarrow> (True, darray_put sl x arr))"

fun append_all :: "('a darray \<Rightarrow> slot option \<times> 'a darray) \<Rightarrow> 'a list \<Rightarrow> 'a darray \<Rightarrow> 'a darray" where
  "append_all alloc [] arr = arr"
| "append_all alloc (x # xs) arr = append_all alloc xs (snd (append_with alloc x arr))"

locale array_allocator =
  fixes alloc :: "'a darray \<Rightarrow> slot option \<times> 'a darray"
    and wf :: "'a darray \<Rightarrow> bool"
  assumes alloc_appends: "wf arr \<Longrightarrow> alloc arr = (Some sl, arr') \<Longrightarrow>
      contents (darray_put sl x arr') = contents arr @ [x] \<and> wf (darray_put sl x arr')"
    and alloc_fails: "wf arr \<Longrightarrow> alloc arr = (None, arr') \<Longrightarrow> arr' = arr"
begin

lemma append_contents:
  assumes "wf arr" and "append_with alloc x arr = (ok, arr')"
  shows "wf arr' \<and> contents arr' = contents arr @ (if ok then [x] else [])"
proof (cases "alloc arr")
  case (Pair r arr'')
  then show ?thesis
    using assms alloc_appends [OF assms(1)] alloc_fails [OF assms(1)]
    by (cases r) (auto simp: append_with_def)
qed

lemma append_all_contents:
  assumes "wf arr"
  shows "\<exists>ys. subseq ys xs \<and> contents (append_all alloc xs arr) = contents arr @ ys
      \<and> wf (append_all alloc xs arr)"
  using assms
proof (induction xs arbitrary: arr)
  case Nil
  then show ?case by auto
next
  case (Cons x xs)
  obtain ok arr' where step: "append_with alloc x arr = (ok, arr')" by fastforce
  note arr' = append_contents [OF Cons.prems step]
  then obtain ys where ys: "subseq ys xs" "contents (append_all alloc xs arr') = contents arr' @ ys"
    "wf (append_all alloc xs arr')" using Cons.IH [of arr'] by auto
  have "subseq ((if ok then [x] else []) @ ys) (x # xs)" using ys(1) by auto
  then show ?case using ys arr' step by (auto intro!: exI [of _ "(if ok then [x] else []) @ ys"])
qed

end

interpretation fixed_array: array_allocator darray_alloc darray_inv
proof unfold_locales
  fix arr arr' :: "'a darray" and sl x
  show "darray_inv arr \<Longrightarrow> darray_alloc arr = (Some sl, arr') \<Longrightarrow>
      contents (darray_put sl x arr') = contents arr @ [x] \<and> darray_inv (darray_put sl x arr')"
    using darray_alloc_put [of arr sl arr' x] by simp
  show "darray_inv arr \<Longrightarrow> darray_alloc arr = (None, arr') \<Longrightarrow> arr' = arr"
    using darray_alloc_full [of arr] by simp
qed

interpretation growing_array: array_allocator "darray_alloc_grow (Suc size) ok junk"
  "\<lambda>arr. darray_inv arr \<and> 0 < darray_inline_capacity arr" for size ok junk
proof unfold_locales
  fix arr arr' :: "'a darray" and sl x
  show "darray_inv arr \<and> 0 < darray_inline_capacity arr \<Longrightarrow>
      darray_alloc_grow (Suc size) ok junk arr = (Some sl, arr') \<Longrightarrow>
      contents (darray_put sl x arr') = contents arr @ [x]
      \<and> darray_inv (darray_put sl x arr') \<and> 0 < darray_inline_capacity (darray_put sl x arr')"
    using darray_alloc_grow_put [of arr "Suc size" ok junk sl arr' x] by auto
  show "darray_inv arr \<and> 0 < darray_inline_capacity arr \<Longrightarrow>
      darray_alloc_grow (Suc size) ok junk arr = (None, arr') \<Longrightarrow> arr' = arr"
    by (auto simp: darray_alloc_grow_def Let_def split: if_splits)
qed


section \<open>Properties\<close>

lemma append_fixed:
  assumes "darray_inv arr"
  shows "darray_inv (snd (append_with darray_alloc x arr))
       \<and> darray_capacity (snd (append_with darray_alloc x arr)) = darray_capacity arr
       \<and> contents (snd (append_with darray_alloc x arr)) = take (darray_capacity arr) (contents arr @ [x])"
proof (cases "darray_alloc arr")
  case (Pair r arr')
  have size: "length (contents arr) = darray_size arr" "darray_size arr \<le> darray_capacity arr"
    using assms by (auto simp: darray_inv_def darray_size_def)
  show ?thesis
  proof (cases r)
    case None
    with Pair darray_alloc_None [OF assms] have "darray_size arr = darray_capacity arr" by simp
    with Pair None fixed_array.alloc_fails [OF assms] size assms show ?thesis
      by (simp add: append_with_def)
  next
    case (Some sl)
    with Pair darray_alloc_None [OF assms] size have "darray_size arr < darray_capacity arr" by simp
    with Pair Some darray_alloc_put [OF assms, of sl arr' x] size show ?thesis
      by (simp add: append_with_def)
  qed
qed

text \<open>C35: the array of the bare-bones build is a bounded list.  Appending the elements
  \<open>xs\<close> one by one (an allocation and a store each) leaves the old elements in place and
  adds the new ones in order until the capacity, inline and dynamic together, is reached;
  from then on it is refused, and afterwards the pointer of every index below the size reads
  the element of that index.\<close>

theorem append_all_bounded:
  assumes "darray_inv arr"
  shows "contents (append_all darray_alloc xs arr) = take (darray_capacity arr) (contents arr @ xs)
       \<and> (\<forall>idx. (case darray_at idx (append_all darray_alloc xs arr) of
              None \<Rightarrow> min (darray_capacity arr) (darray_size arr + length xs) \<le> idx
            | Some sl \<Rightarrow> darray_get sl (append_all darray_alloc xs arr)
                = (contents arr @ xs) ! idx))"
proof -
  have main: "darray_inv (append_all darray_alloc xs arr)
      \<and> contents (append_all darray_alloc xs arr) = take (darray_capacity arr) (contents arr @ xs)"
    using assms
  proof (induction xs arbitrary: arr)
    case Nil
    then show ?case using length_contents [of arr]
      by (simp add: darray_inv_def darray_size_def)
  next
    case (Cons x xs)
    note step = append_fixed [OF Cons.prems, of x]
    have len: "length (contents arr) \<le> darray_capacity arr"
      using Cons.prems by (simp add: darray_inv_def darray_size_def)
    have "take c (take c (ys @ [x]) @ xs) = take c (ys @ x # xs)" if "length ys \<le> c" for c and ys :: "'a list"
      using that by (cases "length ys = c") (auto simp: take_Cons')
    with step len Cons.IH [of "snd (append_with darray_alloc x arr)"] show ?case by simp
  qed
  let ?arr = "append_all darray_alloc xs arr"
  have "darray_size ?arr = min (darray_capacity arr) (darray_size arr + length xs)"
    using main assms length_contents [of ?arr] by simp
  moreover have "darray_get sl ?arr = (contents arr @ xs) ! idx" if "darray_at idx ?arr = Some sl" for idx sl
  proof -
    have "idx < length (contents ?arr)"
      using that main length_contents [of ?arr] darray_at_None_iff [of idx ?arr]
      by (metis not_less option.distinct(1))
    moreover have "take n ys ! i = ys ! i" if "i < length (take n ys)" for n i and ys :: "'a list"
      using that by simp
    ultimately show ?thesis using main darray_get_at [of ?arr idx sl] that by metis
  qed
  ultimately show ?thesis
    using main darray_at_None_iff [of _ ?arr] by (simp split: option.split)
qed

theorem append_all_bounded_witness:
  "contents (append_all darray_alloc [3, 4, 5 :: nat]
      \<lparr>inline_storage = [7, 0], dynamic_storage = [0], dynamic_capacity = 1, size_including_inline = 1\<rparr>)
   = [7, 3, 4]"
proof -
  let ?a = "\<lparr>inline_storage = [7, 0 :: nat], dynamic_storage = [0], dynamic_capacity = 1, size_including_inline = 1\<rparr>"
  have "darray_inv ?a" by (simp add: darray_inv_def darray_capacity_def darray_inline_capacity_def)
  from append_all_bounded [OF this, of "[3, 4, 5]"] show ?thesis
    by (simp add: contents_def darray_capacity_def darray_inline_capacity_def)
qed

end
