(* ===== verification/Tables.thy ===== *)
theory Tables
  imports Acpi_Base Dynamic_Array
begin

text \<open>
  The ACPI table store, \<^verbatim>\<open>src/kern/acpi/tables.c\<close>, as it is compiled into the kernel:
  the bare-bones build, where the table mutex is a dummy.  A function of the source is a
  function on \<open>tables_state\<close> that returns the status code first.  Logging is left out.

  Installing the fixed description table installs the table it points to, so the install
  functions are recursive in data of the firmware.  The recursion is bounded by a fuel
  argument; the result \<open>None\<close> is a call chain deeper than the fuel.  The argument \<open>rec\<close> of
  the functions below is the nested install.
\<close>

section \<open>State\<close>

datatype uacpi_table_origin = FIRMWARE_PHYSICAL | HOST_VIRTUAL | HOST_PHYSICAL

record uacpi_installed_table =
  phys_addr :: u64
  it_hdr :: acpi_sdt_hdr
  it_ptr :: u64
  reference_count :: u16
  it_flags :: u8
  it_origin :: uacpi_table_origin

definition installed_table_size :: nat where "installed_table_size = 64"
definition UACPI_STATIC_TABLE_ARRAY_LEN :: nat where "UACPI_STATIC_TABLE_ARRAY_LEN = 16"

definition UACPI_TABLE_LOADED :: u8 where "UACPI_TABLE_LOADED = push_bit 0 1"
definition UACPI_TABLE_CSUM_VERIFIED :: u8 where "UACPI_TABLE_CSUM_VERIFIED = push_bit 1 1"
definition UACPI_TABLE_INVALID :: u8 where "UACPI_TABLE_INVALID = push_bit 2 1"

definition UACPI_FLAG_BAD_CSUM_FATAL :: u64 where "UACPI_FLAG_BAD_CSUM_FATAL = push_bit 0 1"
definition UACPI_FLAG_BAD_TBL_SIGNATURE_FATAL :: u64 where "UACPI_FLAG_BAD_TBL_SIGNATURE_FATAL = push_bit 1 1"
definition UACPI_FLAG_BAD_XSDT :: u64 where "UACPI_FLAG_BAD_XSDT = push_bit 2 1"
definition UACPI_FLAG_PROACTIVE_TBL_CSUM :: u64 where "UACPI_FLAG_PROACTIVE_TBL_CSUM = push_bit 5 1"

text \<open>What the host hands out for a table, and what its installation handler decides.\<close>

record uacpi_table =
  t_ptr :: u64
  t_index :: nat

datatype uacpi_table_installation_disposition =
  ALLOW | DENY | VIRTUAL_OVERRIDE | PHYSICAL_OVERRIDE

type_synonym uacpi_table_installation_handler =
  "u64 \<Rightarrow> mem \<Rightarrow> uacpi_table_installation_disposition \<times> u64"

text \<open>
  The static variables of \<^verbatim>\<open>tables.c\<close> and the fields of \<^verbatim>\<open>g_uacpi_rt_ctx\<close> it uses;
  \<open>rt_fadt\<close> is the byte image of the context's copy of the fixed description table.
\<close>

record 'h tables_state =
  hst :: 'h
  tables :: "uacpi_installed_table darray"
  early_table_access :: bool
  installation_handler :: "uacpi_table_installation_handler option"
  rt_fadt :: "u8 list"
  rt_flags :: u64
  is_hardware_reduced :: bool
  is_rev1 :: bool

definition uacpi_check_flag :: "u64 \<Rightarrow> 'h tables_state \<Rightarrow> bool" where
  "uacpi_check_flag flag s \<longleftrightarrow> rt_flags s AND flag = flag"

definition uacpi_context_set_proactive_table_checksum :: "bool \<Rightarrow> 'h tables_state \<Rightarrow> 'h tables_state" where
  "uacpi_context_set_proactive_table_checksum setting s =
     (if setting then s\<lparr>rt_flags := rt_flags s OR UACPI_FLAG_PROACTIVE_TBL_CSUM\<rparr>
      else s\<lparr>rt_flags := rt_flags s AND NOT UACPI_FLAG_PROACTIVE_TBL_CSUM\<rparr>)"

definition uacpi_set_table_installation_handler ::
  "uacpi_table_installation_handler option \<Rightarrow> 'h tables_state \<Rightarrow> uacpi_status \<times> 'h tables_state" where
  "uacpi_set_table_installation_handler handler s =
     (if installation_handler s \<noteq> None \<and> handler \<noteq> None then (UACPI_STATUS_OK, s)
      else (UACPI_STATUS_OK, s\<lparr>installation_handler := handler\<rparr>))"

section \<open>Checks on a table\<close>

definition table_checksum :: "mem \<Rightarrow> u64 \<Rightarrow> u64 \<Rightarrow> u8" where
  "table_checksum m table len = fold (\<lambda>i csum. csum + m (table + of_nat i)) [0..<unat len] 0"

definition uacpi_verify_table_checksum ::
  "'h host_api \<Rightarrow> u64 \<Rightarrow> u64 \<Rightarrow> 'h tables_state \<Rightarrow> uacpi_status" where
  "uacpi_verify_table_checksum A table len s =
     (if table_checksum (host_mem A (hst s)) table len \<noteq> 0 \<and> uacpi_check_flag UACPI_FLAG_BAD_CSUM_FATAL s
      then UACPI_STATUS_BAD_CHECKSUM else UACPI_STATUS_OK)"

definition uacpi_signatures_match :: "u8 list \<Rightarrow> u8 list \<Rightarrow> bool" where
  "uacpi_signatures_match lhs rhs \<longleftrightarrow> take 4 lhs = take 4 rhs"

definition uacpi_check_table_signature :: "u8 list \<Rightarrow> u8 list \<Rightarrow> 'h tables_state \<Rightarrow> uacpi_status" where
  "uacpi_check_table_signature signature expect s =
     (if \<not> uacpi_signatures_match signature expect \<and> uacpi_check_flag UACPI_FLAG_BAD_TBL_SIGNATURE_FATAL s
      then UACPI_STATUS_INVALID_SIGNATURE else UACPI_STATUS_OK)"

section \<open>References to a table\<close>

definition is_physical :: "uacpi_table_origin \<Rightarrow> bool" where
  "is_physical orig \<longleftrightarrow> orig = HOST_PHYSICAL \<or> orig = FIRMWARE_PHYSICAL"

definition table_bytes :: "uacpi_installed_table \<Rightarrow> u64" where
  "table_bytes tbl = ucast (h_length (it_hdr tbl))"

definition get_tbl :: "slot \<Rightarrow> 'h tables_state \<Rightarrow> uacpi_installed_table" where
  "get_tbl sl s = darray_get sl (tables s)"

definition put_tbl :: "slot \<Rightarrow> uacpi_installed_table \<Rightarrow> 'h tables_state \<Rightarrow> 'h tables_state" where
  "put_tbl sl tbl s = s\<lparr>tables := darray_put sl tbl (tables s)\<rparr>"

definition count_reference :: "uacpi_installed_table \<Rightarrow> uacpi_installed_table" where
  "count_reference tbl =
     (if reference_count tbl \<noteq> 0xFFFF then tbl\<lparr>reference_count := reference_count tbl + 1\<rparr> else tbl)"

definition table_ref_unlocked ::
  "'h host_api \<Rightarrow> slot \<Rightarrow> 'h tables_state \<Rightarrow> uacpi_status \<times> 'h tables_state" where
  "table_ref_unlocked A sl s =
     (let tbl = get_tbl sl s in
      if reference_count tbl = 0 then
        if it_flags tbl AND UACPI_TABLE_INVALID \<noteq> 0 then (UACPI_STATUS_INVALID_ARGUMENT, s)
        else if \<not> is_physical (it_origin tbl) then (UACPI_STATUS_OK, put_tbl sl (count_reference tbl) s)
        else
          let (p, h) = host_map A (phys_addr tbl) (table_bytes tbl) (hst s);
              s = s\<lparr>hst := h\<rparr>;
              tbl = tbl\<lparr>it_ptr := p\<rparr>
          in if p = 0 then (UACPI_STATUS_MAPPING_FAILED, put_tbl sl tbl s)
             else if it_flags tbl AND UACPI_TABLE_CSUM_VERIFIED = 0 then
               let ret = uacpi_verify_table_checksum A p (table_bytes tbl) s in
               if ret \<noteq> UACPI_STATUS_OK then
                 let s = s\<lparr>hst := host_unmap A p (table_bytes tbl) (hst s)\<rparr>;
                     tbl = tbl\<lparr>it_flags := it_flags tbl OR UACPI_TABLE_INVALID, it_ptr := 0\<rparr>
                 in (ret, put_tbl sl tbl s)
               else
                 let tbl = tbl\<lparr>it_flags := it_flags tbl OR UACPI_TABLE_CSUM_VERIFIED\<rparr>
                 in (UACPI_STATUS_OK, put_tbl sl (count_reference tbl) s)
             else (UACPI_STATUS_OK, put_tbl sl (count_reference tbl) s)
      else (UACPI_STATUS_OK, put_tbl sl (count_reference tbl) s))"

definition table_unref_unlocked ::
  "'h host_api \<Rightarrow> slot \<Rightarrow> 'h tables_state \<Rightarrow> uacpi_status \<times> 'h tables_state" where
  "table_unref_unlocked A sl s =
     (let tbl = get_tbl sl s in
      if reference_count tbl = 0 then (UACPI_STATUS_INVALID_ARGUMENT, s)
      else if reference_count tbl = 0xFFFF then (UACPI_STATUS_OK, s)
      else if reference_count tbl = 1 \<and> is_physical (it_origin tbl) then
        let s = s\<lparr>hst := host_unmap A (it_ptr tbl) (table_bytes tbl) (hst s)\<rparr>;
            tbl = tbl\<lparr>it_ptr := 0\<rparr>
        in (UACPI_STATUS_OK, put_tbl sl (tbl\<lparr>reference_count := reference_count tbl - 1\<rparr>) s)
      else (UACPI_STATUS_OK, put_tbl sl (tbl\<lparr>reference_count := reference_count tbl - 1\<rparr>) s))"

section \<open>Installing a table\<close>

definition table_alloc :: "'h tables_state \<Rightarrow> (uacpi_status \<times> (slot \<times> nat) option) \<times> 'h tables_state" where
  "table_alloc s =
     (if early_table_access s \<and> darray_size (tables s) = darray_capacity (tables s)
      then ((UACPI_STATUS_OUT_OF_MEMORY, None), s)
      else case darray_alloc (tables s) of
        (None, arr) \<Rightarrow> ((UACPI_STATUS_OUT_OF_MEMORY, None), s\<lparr>tables := arr\<rparr>)
      | (Some sl, arr) \<Rightarrow> ((UACPI_STATUS_OK, Some (sl, darray_size arr - 1)), s\<lparr>tables := arr\<rparr>))"

definition get_external_table_header ::
  "'h host_api \<Rightarrow> u64 \<Rightarrow> 'h tables_state \<Rightarrow> (uacpi_status \<times> acpi_sdt_hdr option) \<times> 'h tables_state" where
  "get_external_table_header A phys s =
     (let (virt, h) = host_map A phys (of_nat sdt_hdr_size) (hst s) in
      if virt = 0 then ((UACPI_STATUS_MAPPING_FAILED, None), s\<lparr>hst := h\<rparr>)
      else let hdr = read_hdr (host_mem A h) virt
           in ((UACPI_STATUS_OK, Some hdr), s\<lparr>hst := host_unmap A virt (of_nat sdt_hdr_size) h\<rparr>))"

text \<open>
  The install functions take a pointer to the result that may be null: \<open>want\<close> says that it
  is not, and the result carries what was stored through it.
\<close>

type_synonym 'h install_result = "((uacpi_status \<times> uacpi_table option) \<times> 'h tables_state) option"

type_synonym 'h install =
  "u64 \<Rightarrow> uacpi_table_origin \<Rightarrow> u8 list option \<Rightarrow> bool \<Rightarrow> 'h tables_state \<Rightarrow> 'h install_result"

subsection \<open>The fixed description table\<close>

definition fadt_version_sizes :: "u32 list" where
  "fadt_version_sizes = [116, 132, 244, 244, 268, 276]"

definition fadt_length :: "u8 list \<Rightarrow> u32" where "fadt_length f = ucast (get_le 4 4 f)"
definition fadt_revision :: "u8 list \<Rightarrow> u8" where "fadt_revision f = ucast (get_le 8 1 f)"

definition fadt_ensure_correct_revision :: "u8 list \<Rightarrow> u8 list" where
  "fadt_ensure_correct_revision f =
     (let current_rev = unat (fadt_revision f) in
      case find (\<lambda>r. fadt_length f \<le> fadt_version_sizes ! r) [0..<length fadt_version_sizes] of
        None \<Rightarrow> put_le 8 1 (of_nat (length fadt_version_sizes)) f
      | Some r \<Rightarrow>
          let r = r + 1 in
          if current_rev \<noteq> r \<and> \<not> (r = 3 \<and> current_rev = 4)
          then put_le 8 1 (of_nat r) f else f)"

definition UACPI_ADDRESS_SPACE_SYSTEM_IO :: u8 where "UACPI_ADDRESS_SPACE_SYSTEM_IO = 1"

definition gas_init_system_io :: "u64 \<Rightarrow> u8 \<Rightarrow> acpi_gas" where
  "gas_init_system_io address byte_size =
     \<lparr>address_space_id = UACPI_ADDRESS_SPACE_SYSTEM_IO,
      register_bit_width = of_nat (min 255 (unat byte_size * 8)),
      register_bit_offset = 0, access_size = 0, gas_address = address\<rparr>"

text \<open>The table of register descriptions: offset, extended offset, offset of the length.\<close>

definition fadt_registers :: "(string \<times> string \<times> string) list" where
  "fadt_registers =
     [(''pm1a_evt_blk'', ''x_pm1a_evt_blk'', ''pm1_evt_len''),
      (''pm1b_evt_blk'', ''x_pm1b_evt_blk'', ''pm1_evt_len''),
      (''pm1a_cnt_blk'', ''x_pm1a_cnt_blk'', ''pm1_cnt_len''),
      (''pm1b_cnt_blk'', ''x_pm1b_cnt_blk'', ''pm1_cnt_len''),
      (''pm2_cnt_blk'', ''x_pm2_cnt_blk'', ''pm2_cnt_len''),
      (''pm_tmr_blk'', ''x_pm_tmr_blk'', ''pm_tmr_len''),
      (''gpe0_blk'', ''x_gpe0_blk'', ''gpe0_blk_len''),
      (''gpe1_blk'', ''x_gpe1_blk'', ''gpe1_blk_len'')]"

definition convert_register :: "string \<times> string \<times> string \<Rightarrow> u8 list \<Rightarrow> u8 list" where
  "convert_register desc f =
     (case desc of (off, xoff, len) \<Rightarrow>
        let legacy_addr = get_le (fadt_offset off) 4 f;
            len_value = ucast (get_le (fadt_offset len) 1 f);
            gas = get_gas (fadt_offset xoff) f
        in if gas_address gas \<noteq> 0 then f
           else put_gas (fadt_offset xoff) (gas_init_system_io legacy_addr len_value) f)"

definition convert_registers_to_gas :: "u8 list \<Rightarrow> u8 list" where
  "convert_registers_to_gas f = fold convert_register fadt_registers f"

text \<open>The part of \<open>initialize_fadt\<close> that clears fields reserved before revision 3.\<close>

definition clear_reserved_fields :: "u8 list \<Rightarrow> u8 list" where
  "clear_reserved_fields f =
     (if fadt_revision f \<le> 2 then
        put_le (fadt_offset ''iapc_boot_arch'') 2 0
          (put_le (fadt_offset ''cst_cnt'') 1 0
            (put_le (fadt_offset ''pstate_cnt'') 1 0
              (put_le (fadt_offset ''preferred_pm_profile'') 1 0 f)))
      else f)"

definition fadt_x_dsdt :: "u8 list \<Rightarrow> u64" where
  "fadt_x_dsdt f = get_le (fadt_offset ''x_dsdt'') 8 f"

definition merge_dsdt :: "u8 list \<Rightarrow> u8 list" where
  "merge_dsdt f =
     (if fadt_x_dsdt f = 0
      then put_le (fadt_offset ''x_dsdt'') 8 (get_le (fadt_offset ''dsdt'') 4 f) f else f)"

definition merge_facs :: "u8 list \<Rightarrow> u8 list" where
  "merge_facs f =
     (let firmware_ctrl = get_le (fadt_offset ''firmware_ctrl'') 4 f in
      if firmware_ctrl \<noteq> 0 then put_le (fadt_offset ''x_firmware_ctrl'') 8 firmware_ctrl f else f)"

text \<open>\<^verbatim>\<open>uacpi_memcpy(fadt, hdr, UACPI_MIN(sizeof( *fadt), hdr->length))\<close>\<close>

definition copy_fadt :: "mem \<Rightarrow> u64 \<Rightarrow> u8 list \<Rightarrow> u8 list" where
  "copy_fadt m virt f =
     (let n = min fadt_size (unat (h_length (read_hdr m virt))) in read_bytes m virt n @ drop n f)"

definition initialize_fadt ::
  "'h host_api \<Rightarrow> 'h install \<Rightarrow> u64 \<Rightarrow> 'h tables_state \<Rightarrow> (uacpi_status \<times> 'h tables_state) option" where
  "initialize_fadt A rec virt s =
     (let f = copy_fadt (host_mem A (hst s)) virt (rt_fadt s);
          f = fadt_ensure_correct_revision f;
          f = clear_reserved_fields f;
          f = merge_dsdt f;
          s = s\<lparr>rt_fadt := f\<rparr>;
          finish = (\<lambda>s.
            let f = merge_facs (rt_fadt s);
                f = (if \<not> is_hardware_reduced s then convert_registers_to_gas f else f)
            in Some (UACPI_STATUS_OK, s\<lparr>rt_fadt := f\<rparr>))
      in if fadt_x_dsdt f \<noteq> 0 then
           case rec (fadt_x_dsdt f) FIRMWARE_PHYSICAL (Some ACPI_DSDT_SIGNATURE) False s of
             None \<Rightarrow> None
           | Some ((ret, _), s) \<Rightarrow>
               if ret \<noteq> UACPI_STATUS_OK \<and> ret \<noteq> UACPI_STATUS_OVERRIDDEN then Some (ret, s)
               else finish s
         else finish s)"

subsection \<open>Verification and storage\<close>

text \<open>The header argument is a pointer: to a local copy, or into the memory of the host.\<close>

datatype hdr_ref = Copied acpi_sdt_hdr | At_address u64

definition hdr_of :: "'h host_api \<Rightarrow> hdr_ref \<Rightarrow> 'h tables_state \<Rightarrow> acpi_sdt_hdr" where
  "hdr_of A r s = (case r of Copied hdr \<Rightarrow> hdr | At_address a \<Rightarrow> read_hdr (host_mem A (hst s)) a)"

text \<open>The checks before a table is stored: the status and the flags it gets.\<close>

definition verify_table ::
  "'h host_api \<Rightarrow> 'h install \<Rightarrow> hdr_ref \<Rightarrow> u64 \<Rightarrow> u64 \<Rightarrow> bool \<Rightarrow> 'h tables_state
    \<Rightarrow> ((uacpi_status \<times> u8) \<times> 'h tables_state) option" where
  "verify_table A rec hdr phys virt_addr want s =
     (let is_fadt = uacpi_signatures_match (h_signature (hdr_of A hdr s)) ACPI_FADT_SIGNATURE in
      if uacpi_signatures_match (h_signature (hdr_of A hdr s)) ACPI_FACS_SIGNATURE
      then Some ((UACPI_STATUS_OK, UACPI_TABLE_CSUM_VERIFIED), s)
      else if uacpi_check_flag UACPI_FLAG_PROACTIVE_TBL_CSUM s \<or> is_fadt \<or> want then
        let (mapping, h) = (if virt_addr = 0
                            then host_map A phys (ucast (h_length (hdr_of A hdr s))) (hst s)
                            else (virt_addr, hst s));
            s = s\<lparr>hst := h\<rparr>
        in if mapping = 0 then Some ((UACPI_STATUS_MAPPING_FAILED, 0), s)
           else
             let ret = uacpi_verify_table_checksum A mapping (ucast (h_length (hdr_of A hdr s))) s;
                 unmap = (\<lambda>s. if virt_addr = 0
                   then s\<lparr>hst := host_unmap A mapping (ucast (h_length (hdr_of A hdr s))) (hst s)\<rparr>
                   else s)
             in if ret = UACPI_STATUS_OK then
                  case (if is_fadt then initialize_fadt A rec mapping s else Some (ret, s)) of
                    None \<Rightarrow> None
                  | Some (ret, s) \<Rightarrow> Some ((ret, UACPI_TABLE_CSUM_VERIFIED), unmap s)
                else Some ((ret, 0), unmap s)
      else Some ((UACPI_STATUS_OK, 0), s))"

definition store_table ::
  "'h host_api \<Rightarrow> hdr_ref \<Rightarrow> u64 \<Rightarrow> u64 \<Rightarrow> uacpi_table_origin \<Rightarrow> u8 \<Rightarrow> bool \<Rightarrow> 'h tables_state
    \<Rightarrow> (uacpi_status \<times> uacpi_table option) \<times> 'h tables_state" where
  "store_table A hdr phys virt_addr orig fl want s =
     (let s = (if uacpi_signatures_match (h_signature (hdr_of A hdr s)) ACPI_DSDT_SIGNATURE
               then s\<lparr>is_rev1 := h_revision (hdr_of A hdr s) < 2\<rparr> else s)
      in case table_alloc s of
           ((ret, None), s) \<Rightarrow> ((ret, None), s)
         | ((ret, Some (sl, idx)), s) \<Rightarrow>
             let table = \<lparr>phys_addr = phys, it_hdr = hdr_of A hdr s, it_ptr = virt_addr,
                          reference_count = 0, it_flags = fl, it_origin = orig\<rparr>
             in if \<not> want then ((UACPI_STATUS_OK, None), put_tbl sl table s)
                else ((UACPI_STATUS_OK, Some \<lparr>t_ptr = virt_addr, t_index = idx\<rparr>),
                      put_tbl sl (table\<lparr>reference_count := reference_count table + 1\<rparr>) s))"

definition verify_and_install_table ::
  "'h host_api \<Rightarrow> 'h install \<Rightarrow> hdr_ref \<Rightarrow> u64 \<Rightarrow> u64 \<Rightarrow> uacpi_table_origin \<Rightarrow> bool \<Rightarrow> 'h tables_state
    \<Rightarrow> 'h install_result" where
  "verify_and_install_table A rec hdr phys virt_addr orig want s =
     (case verify_table A rec hdr phys virt_addr want s of
        None \<Rightarrow> None
      | Some ((ret, fl), s) \<Rightarrow>
          if ret \<noteq> UACPI_STATUS_OK then Some ((ret, None), s)
          else Some (store_table A hdr phys virt_addr orig fl want s))"

definition table_install_with_origin_unlocked ::
  "'h host_api \<Rightarrow> 'h install \<Rightarrow> u64 \<Rightarrow> uacpi_table_origin \<Rightarrow> bool \<Rightarrow> 'h tables_state \<Rightarrow> 'h install_result" where
  "table_install_with_origin_unlocked A rec virt orig want s =
     (if h_length (hdr_of A (At_address virt) s) < of_nat sdt_hdr_size
      then Some ((UACPI_STATUS_INVALID_TABLE_LENGTH, None), s)
      else verify_and_install_table A rec (At_address virt) 0 virt orig want s)"

definition handle_table_override ::
  "'h host_api \<Rightarrow> 'h install \<Rightarrow> uacpi_table_installation_disposition \<Rightarrow> u64 \<Rightarrow> bool \<Rightarrow> 'h tables_state
    \<Rightarrow> 'h install_result" where
  "handle_table_override A rec disposition address want s =
     (case disposition of
        VIRTUAL_OVERRIDE \<Rightarrow> table_install_with_origin_unlocked A rec address HOST_VIRTUAL want s
      | PHYSICAL_OVERRIDE \<Rightarrow> rec address HOST_PHYSICAL None want s
      | _ \<Rightarrow> Some ((UACPI_STATUS_INTERNAL_ERROR, None), s))"

text \<open>
  The body of \<^verbatim>\<open>table_install_physical_with_origin_unlocked\<close>.  All paths that reach the
  label \<^verbatim>\<open>out\<close> with an error return success: the function ends in
  \<^verbatim>\<open>return UACPI_STATUS_OK\<close>, not in \<^verbatim>\<open>return ret\<close>.
\<close>

definition out_label ::
  "'h host_api \<Rightarrow> u64 \<Rightarrow> acpi_sdt_hdr \<Rightarrow> bool \<Rightarrow> (uacpi_status \<times> uacpi_table option) \<times> 'h tables_state
    \<Rightarrow> (uacpi_status \<times> uacpi_table option) \<times> 'h tables_state" where
  "out_label A virt hdr want r =
     (case r of ((ret, out), s) \<Rightarrow>
        if ret = UACPI_STATUS_OK \<and> want then ((ret, out), s)
        else ((UACPI_STATUS_OK, out),
              if virt \<noteq> 0 then s\<lparr>hst := host_unmap A virt (ucast (h_length hdr)) (hst s)\<rparr> else s))"

text \<open>The decision of the installation handler and the installation itself.\<close>

definition install_mapped ::
  "'h host_api \<Rightarrow> 'h install \<Rightarrow> acpi_sdt_hdr \<Rightarrow> u64 \<Rightarrow> u64 \<Rightarrow> uacpi_table_origin \<Rightarrow> bool \<Rightarrow> 'h tables_state
    \<Rightarrow> 'h install_result" where
  "install_mapped A rec hdr phys virt orig want s =
     (let (disposition, override) =
            (case installation_handler s of
               Some handler \<Rightarrow>
                 if orig = FIRMWARE_PHYSICAL then handler virt (host_mem A (hst s)) else (ALLOW, 0)
             | None \<Rightarrow> (ALLOW, 0))
      in if disposition = ALLOW then verify_and_install_table A rec (Copied hdr) phys virt orig want s
         else if disposition = DENY then Some ((UACPI_STATUS_DENIED, None), s)
         else case handle_table_override A rec disposition override want s of
                None \<Rightarrow> None
              | Some ((ret, out), s) \<Rightarrow>
                  Some ((if ret = UACPI_STATUS_OK then UACPI_STATUS_OVERRIDDEN else ret, out), s))"

definition install_physical_body ::
  "'h host_api \<Rightarrow> 'h install \<Rightarrow> u64 \<Rightarrow> uacpi_table_origin \<Rightarrow> u8 list option \<Rightarrow> bool \<Rightarrow> 'h tables_state
    \<Rightarrow> 'h install_result" where
  "install_physical_body A rec phys orig expected_signature want s =
     (case get_external_table_header A phys s of
        ((ret, None), s) \<Rightarrow> Some ((ret, None), s)
      | ((_, Some hdr), s) \<Rightarrow>
          let ret = (case expected_signature of None \<Rightarrow> UACPI_STATUS_OK
                     | Some e \<Rightarrow> uacpi_check_table_signature (h_signature hdr) e s)
          in if ret \<noteq> UACPI_STATUS_OK then Some ((ret, None), s)
             else
               let need_map = installation_handler s \<noteq> None \<or> want;
                   (virt, h) = (if need_map then host_map A phys (ucast (h_length hdr)) (hst s) else (0, hst s));
                   s = s\<lparr>hst := h\<rparr>
               in if need_map \<and> virt = 0 then Some ((UACPI_STATUS_MAPPING_FAILED, None), s)
                  else map_option (out_label A virt hdr want)
                         (install_mapped A rec hdr phys virt orig want s))"

primrec table_install_physical_with_origin_unlocked :: "nat \<Rightarrow> 'h host_api \<Rightarrow> 'h install" where
  "table_install_physical_with_origin_unlocked 0 A = (\<lambda>_ _ _ _ _. None)"
| "table_install_physical_with_origin_unlocked (Suc fuel) A =
     install_physical_body A (table_install_physical_with_origin_unlocked fuel A)"

subsection \<open>The entry points\<close>

definition uacpi_table_install_physical_with_origin ::
  "nat \<Rightarrow> 'h host_api \<Rightarrow> u64 \<Rightarrow> uacpi_table_origin \<Rightarrow> bool \<Rightarrow> 'h tables_state \<Rightarrow> 'h install_result" where
  "uacpi_table_install_physical_with_origin fuel A phys orig want s =
     table_install_physical_with_origin_unlocked fuel A phys orig None want s"

definition uacpi_table_install_with_origin ::
  "nat \<Rightarrow> 'h host_api \<Rightarrow> u64 \<Rightarrow> uacpi_table_origin \<Rightarrow> bool \<Rightarrow> 'h tables_state \<Rightarrow> 'h install_result" where
  "uacpi_table_install_with_origin fuel A virt orig want s =
     table_install_with_origin_unlocked A (table_install_physical_with_origin_unlocked fuel A) virt orig want s"

definition uacpi_table_install ::
  "nat \<Rightarrow> 'h host_api \<Rightarrow> u64 \<Rightarrow> bool \<Rightarrow> 'h tables_state \<Rightarrow> 'h install_result" where
  "uacpi_table_install fuel A virt want s =
     (if \<not> early_table_access s then Some ((UACPI_STATUS_INIT_LEVEL_MISMATCH, None), s)
      else uacpi_table_install_with_origin fuel A virt HOST_VIRTUAL want s)"

definition uacpi_table_install_physical ::
  "nat \<Rightarrow> 'h host_api \<Rightarrow> u64 \<Rightarrow> bool \<Rightarrow> 'h tables_state \<Rightarrow> 'h install_result" where
  "uacpi_table_install_physical fuel A addr want s =
     (if \<not> early_table_access s then Some ((UACPI_STATUS_INIT_LEVEL_MISMATCH, None), s)
      else uacpi_table_install_physical_with_origin fuel A addr HOST_PHYSICAL want s)"

end
