(* ===== verification/Table_Access.thy ===== *)
theory Table_Access
  imports Tables
begin

text \<open>
  Using the table store, the other half of \<^verbatim>\<open>src/kern/acpi/tables.c\<close>: iteration and
  search, the control requests behind \<^verbatim>\<open>uacpi_table_ref\<close> and \<^verbatim>\<open>uacpi_table_unref\<close>,
  and the life cycle, from the root pointer to the installed tables and back.
\<close>

section \<open>Iteration\<close>

datatype uacpi_iteration_decision = ITERATION_CONTINUE | ITERATION_BREAK

text \<open>
  A callback gets the user data, the entry and its index.  No callback of the library
  installs tables, so the bound of the loop is read once.
\<close>

type_synonym ('u, 'h) iteration_callback =
  "slot \<Rightarrow> nat \<Rightarrow> 'u \<times> 'h tables_state \<Rightarrow> uacpi_iteration_decision \<times> 'u \<times> 'h tables_state"

fun for_each_from :: "nat list \<Rightarrow> ('u, 'h) iteration_callback \<Rightarrow> 'u \<times> 'h tables_state \<Rightarrow> 'u \<times> 'h tables_state" where
  "for_each_from [] cb us = us"
| "for_each_from (idx # idxs) cb us =
     (case darray_at idx (tables (snd us)) of
        None \<Rightarrow> us
      | Some sl \<Rightarrow>
          if it_flags (get_tbl sl (snd us)) AND UACPI_TABLE_INVALID \<noteq> 0 then for_each_from idxs cb us
          else case cb sl idx us of
                 (ITERATION_BREAK, us) \<Rightarrow> us
               | (ITERATION_CONTINUE, us) \<Rightarrow> for_each_from idxs cb us)"

definition uacpi_for_each_table ::
  "nat \<Rightarrow> ('u, 'h) iteration_callback \<Rightarrow> 'u \<Rightarrow> 'h tables_state \<Rightarrow> (uacpi_status \<times> 'u) \<times> 'h tables_state" where
  "uacpi_for_each_table base_idx cb user s =
     (if \<not> early_table_access s then ((UACPI_STATUS_INIT_LEVEL_MISMATCH, user), s)
      else case for_each_from [base_idx..<darray_size (tables s)] cb (user, s) of
             (user, s) \<Rightarrow> ((UACPI_STATUS_OK, user), s))"

section \<open>Search\<close>

record uacpi_table_identifiers =
  id_signature :: "u8 list"
  id_oemid :: "u8 list"
  id_oem_table_id :: "u8 list"

datatype search_type =
    SEARCH_TYPE_BY_ID uacpi_table_identifiers
  | SEARCH_TYPE_MATCH "uacpi_installed_table \<Rightarrow> bool"

record table_search_ctx =
  ctx_search :: search_type
  ctx_out_table :: "uacpi_table option"
  ctx_status :: uacpi_status

definition id_matches :: "uacpi_table_identifiers \<Rightarrow> acpi_sdt_hdr \<Rightarrow> bool" where
  "id_matches ident hdr \<longleftrightarrow>
     uacpi_signatures_match (id_signature ident) (h_signature hdr)
     \<and> (id_oemid ident ! 0 = 0 \<or> id_oemid ident = h_oemid hdr)
     \<and> (id_oem_table_id ident ! 0 = 0 \<or> id_oem_table_id ident = h_oem_table_id hdr)"

fun search_matches :: "search_type \<Rightarrow> uacpi_installed_table \<Rightarrow> bool" where
  "search_matches (SEARCH_TYPE_BY_ID ident) tbl = id_matches ident (it_hdr tbl)"
| "search_matches (SEARCH_TYPE_MATCH match_cb) tbl = match_cb tbl"

definition do_search_tables :: "'h host_api \<Rightarrow> (table_search_ctx, 'h) iteration_callback" where
  "do_search_tables A sl idx us =
     (case us of (ctx, s) \<Rightarrow>
        if \<not> search_matches (ctx_search ctx) (get_tbl sl s) then (ITERATION_CONTINUE, ctx, s)
        else case table_ref_unlocked A sl s of (ret, s) \<Rightarrow>
          if ret = UACPI_STATUS_OK then
            (ITERATION_BREAK,
             ctx\<lparr>ctx_out_table := Some \<lparr>t_ptr = it_ptr (get_tbl sl s), t_index = idx\<rparr>, ctx_status := ret\<rparr>, s)
          else if ret = UACPI_STATUS_BAD_CHECKSUM then (ITERATION_CONTINUE, ctx, s)
          else (ITERATION_BREAK, ctx\<lparr>ctx_status := ret\<rparr>, s))"

definition find_table ::
  "'h host_api \<Rightarrow> nat \<Rightarrow> uacpi_table_identifiers \<Rightarrow> 'h tables_state
    \<Rightarrow> (uacpi_status \<times> uacpi_table option) \<times> 'h tables_state" where
  "find_table A base_idx ident s =
     (let ctx = \<lparr>ctx_search = SEARCH_TYPE_BY_ID ident, ctx_out_table = None,
                 ctx_status = UACPI_STATUS_NOT_FOUND\<rparr>
      in case uacpi_for_each_table base_idx (do_search_tables A) ctx s of
           ((ret, ctx), s) \<Rightarrow>
             if ret \<noteq> UACPI_STATUS_OK then ((ret, ctx_out_table ctx), s)
             else ((ctx_status ctx, ctx_out_table ctx), s))"

definition no_ids :: "u8 list \<Rightarrow> uacpi_table_identifiers" where
  "no_ids signature =
     \<lparr>id_signature = signature, id_oemid = replicate 6 0, id_oem_table_id = replicate 8 0\<rparr>"

definition uacpi_table_find_by_signature ::
  "'h host_api \<Rightarrow> u8 list \<Rightarrow> 'h tables_state \<Rightarrow> (uacpi_status \<times> uacpi_table option) \<times> 'h tables_state" where
  "uacpi_table_find_by_signature A signature_string s =
     (if \<not> early_table_access s then ((UACPI_STATUS_INIT_LEVEL_MISMATCH, None), s)
      else find_table A 0 (no_ids (take 4 signature_string)) s)"

definition uacpi_table_find ::
  "'h host_api \<Rightarrow> uacpi_table_identifiers \<Rightarrow> 'h tables_state
    \<Rightarrow> (uacpi_status \<times> uacpi_table option) \<times> 'h tables_state" where
  "uacpi_table_find A ident s =
     (if \<not> early_table_access s then ((UACPI_STATUS_INIT_LEVEL_MISMATCH, None), s)
      else find_table A 0 ident s)"

section \<open>Control requests\<close>

definition TABLE_CTL_SET_FLAGS :: u8 where "TABLE_CTL_SET_FLAGS = push_bit 0 1"
definition TABLE_CTL_CLEAR_FLAGS :: u8 where "TABLE_CTL_CLEAR_FLAGS = push_bit 1 1"
definition TABLE_CTL_VALIDATE_SET_FLAGS :: u8 where "TABLE_CTL_VALIDATE_SET_FLAGS = push_bit 2 1"
definition TABLE_CTL_VALIDATE_CLEAR_FLAGS :: u8 where "TABLE_CTL_VALIDATE_CLEAR_FLAGS = push_bit 3 1"
definition TABLE_CTL_GET :: u8 where "TABLE_CTL_GET = push_bit 4 1"
definition TABLE_CTL_PUT :: u8 where "TABLE_CTL_PUT = push_bit 5 1"

record table_ctl_request =
  req_type :: u8
  expect_set :: u8
  expect_clear :: u8
  req_set :: u8
  req_clear :: u8
  out_tbl :: u64

definition ctl_flags :: "table_ctl_request \<Rightarrow> slot \<Rightarrow> 'h tables_state \<Rightarrow> 'h tables_state" where
  "ctl_flags req sl s =
     (let tbl = get_tbl sl s;
          tbl = (if req_type req AND TABLE_CTL_SET_FLAGS \<noteq> 0
                 then tbl\<lparr>it_flags := it_flags tbl OR req_set req\<rparr> else tbl);
          tbl = (if req_type req AND TABLE_CTL_CLEAR_FLAGS \<noteq> 0
                 then tbl\<lparr>it_flags := it_flags tbl AND NOT (req_clear req)\<rparr> else tbl)
      in put_tbl sl tbl s)"

definition table_ctl ::
  "'h host_api \<Rightarrow> nat \<Rightarrow> table_ctl_request \<Rightarrow> 'h tables_state
    \<Rightarrow> (uacpi_status \<times> table_ctl_request) \<times> 'h tables_state" where
  "table_ctl A idx req s =
     (if \<not> early_table_access s then ((UACPI_STATUS_INIT_LEVEL_MISMATCH, req), s)
      else case darray_at idx (tables s) of
        None \<Rightarrow> ((UACPI_STATUS_INVALID_ARGUMENT, req), s)
      | Some sl \<Rightarrow>
          let fl = it_flags (get_tbl sl s) in
          if fl AND UACPI_TABLE_INVALID \<noteq> 0 then ((UACPI_STATUS_INVALID_ARGUMENT, req), s)
          else if req_type req AND TABLE_CTL_VALIDATE_SET_FLAGS \<noteq> 0
                  \<and> fl AND expect_set req \<noteq> expect_set req
          then ((UACPI_STATUS_INVALID_ARGUMENT, req), s)
          else if req_type req AND TABLE_CTL_VALIDATE_CLEAR_FLAGS \<noteq> 0
                  \<and> fl AND expect_clear req \<noteq> 0
          then ((UACPI_STATUS_ALREADY_EXISTS, req), s)
          else
            let (ret, s) = (if req_type req AND TABLE_CTL_GET \<noteq> 0
                            then table_ref_unlocked A sl s else (UACPI_STATUS_OK, s))
            in if ret \<noteq> UACPI_STATUS_OK then ((ret, req), s)
               else
                 let req = (if req_type req AND TABLE_CTL_GET \<noteq> 0
                            then req\<lparr>out_tbl := it_ptr (get_tbl sl s)\<rparr> else req);
                     (ret, s) = (if req_type req AND TABLE_CTL_PUT \<noteq> 0
                                 then table_unref_unlocked A sl s else (UACPI_STATUS_OK, s))
                 in if ret \<noteq> UACPI_STATUS_OK then ((ret, req), s)
                    else ((UACPI_STATUS_OK, req), ctl_flags req sl s))"

definition ctl_request :: "u8 \<Rightarrow> table_ctl_request" where
  "ctl_request ty = \<lparr>req_type = ty, expect_set = 0, expect_clear = 0, req_set = 0, req_clear = 0, out_tbl = 0\<rparr>"

definition uacpi_table_ref :: "'h host_api \<Rightarrow> uacpi_table \<Rightarrow> 'h tables_state \<Rightarrow> uacpi_status \<times> 'h tables_state" where
  "uacpi_table_ref A tbl s =
     (case table_ctl A (t_index tbl) (ctl_request TABLE_CTL_GET) s of ((ret, _), s) \<Rightarrow> (ret, s))"

definition uacpi_table_unref :: "'h host_api \<Rightarrow> uacpi_table \<Rightarrow> 'h tables_state \<Rightarrow> uacpi_status \<times> 'h tables_state" where
  "uacpi_table_unref A tbl s =
     (case table_ctl A (t_index tbl) (ctl_request TABLE_CTL_PUT) s of ((ret, _), s) \<Rightarrow> (ret, s))"

definition uacpi_table_find_next_with_same_signature ::
  "'h host_api \<Rightarrow> uacpi_table \<Rightarrow> 'h tables_state \<Rightarrow> (uacpi_status \<times> uacpi_table option) \<times> 'h tables_state" where
  "uacpi_table_find_next_with_same_signature A in_out_table s =
     (if \<not> early_table_access s then ((UACPI_STATUS_INIT_LEVEL_MISMATCH, Some in_out_table), s)
      else if t_ptr in_out_table = 0 then ((UACPI_STATUS_INVALID_ARGUMENT, Some in_out_table), s)
      else
        let signature = h_signature (read_hdr (host_mem A (hst s)) (t_ptr in_out_table));
            (_, s) = uacpi_table_unref A in_out_table s
        in case find_table A (t_index in_out_table + 1) (no_ids signature) s of
             ((ret, None), s) \<Rightarrow> ((ret, Some in_out_table), s)
           | ((ret, Some out), s) \<Rightarrow> ((ret, Some out), s))"

text \<open>The pointer it hands out is the address of the context's copy, \<open>rt_fadt\<close>.\<close>

definition uacpi_table_fadt :: "'h tables_state \<Rightarrow> uacpi_status \<times> u8 list option" where
  "uacpi_table_fadt s =
     (if \<not> early_table_access s then (UACPI_STATUS_INIT_LEVEL_MISMATCH, None)
      else (UACPI_STATUS_OK, Some (rt_fadt s)))"

section \<open>Life cycle\<close>

text \<open>An entry of zeroed memory; its fields are written before they are read again.\<close>

definition zero_table :: uacpi_installed_table where
  "zero_table =
     \<lparr>phys_addr = 0, it_hdr = read_hdr (\<lambda>_. 0) 0, it_ptr = 0, reference_count = 0, it_flags = 0,
      it_origin = FIRMWARE_PHYSICAL\<rparr>"

definition empty_tables :: "uacpi_installed_table darray" where
  "empty_tables =
     \<lparr>inline_storage = replicate UACPI_STATIC_TABLE_ARRAY_LEN zero_table, dynamic_storage = [],
      dynamic_capacity = 0, size_including_inline = 0\<rparr>"

definition release_mapping :: "'h host_api \<Rightarrow> uacpi_installed_table \<Rightarrow> 'h \<Rightarrow> 'h" where
  "release_mapping A tbl h =
     (if is_physical (it_origin tbl) \<and> reference_count tbl \<noteq> 0
      then host_unmap A (it_ptr tbl) (table_bytes tbl) h else h)"

definition uacpi_deinitialize_tables :: "'h host_api \<Rightarrow> 'h tables_state \<Rightarrow> 'h tables_state" where
  "uacpi_deinitialize_tables A s =
     (let h = fold (\<lambda>i h. case darray_at i (tables s) of
                      None \<Rightarrow> h
                    | Some sl \<Rightarrow> release_mapping A (get_tbl sl s) h)
                [0..<darray_size (tables s)] (hst s);
          s = s\<lparr>hst := h\<rparr>;
          s = (if early_table_access s
               then s\<lparr>tables := empty_tables, early_table_access := False\<rparr>
               else s\<lparr>tables := darray_clear (tables s)\<rparr>)
      in s\<lparr>installation_handler := None\<rparr>)"

text \<open>The loop over the pointers of the root table; a null pointer is skipped.\<close>

fun install_entries ::
  "nat \<Rightarrow> 'h host_api \<Rightarrow> u64 \<Rightarrow> nat \<Rightarrow> nat list \<Rightarrow> 'h tables_state \<Rightarrow> (uacpi_status \<times> 'h tables_state) option" where
  "install_entries fuel A rxsdt entry_size [] s = Some (UACPI_STATUS_OK, s)"
| "install_entries fuel A rxsdt entry_size (k # ks) s =
     (let entry_addr = le_word (read_bytes (host_mem A (hst s))
                         (rxsdt + of_nat (sdt_hdr_size + k * entry_size)) entry_size)
      in if entry_addr = 0 then install_entries fuel A rxsdt entry_size ks s
         else case uacpi_table_install_physical_with_origin fuel A entry_addr FIRMWARE_PHYSICAL False s of
                None \<Rightarrow> None
              | Some ((ret, _), s) \<Rightarrow>
                  if ret \<noteq> UACPI_STATUS_OK \<and> ret \<noteq> UACPI_STATUS_OVERRIDDEN then Some (ret, s)
                  else install_entries fuel A rxsdt entry_size ks s)"

definition initialize_from_rxsdt ::
  "nat \<Rightarrow> 'h host_api \<Rightarrow> u64 \<Rightarrow> nat \<Rightarrow> 'h tables_state \<Rightarrow> (uacpi_status \<times> 'h tables_state) option" where
  "initialize_from_rxsdt fuel A rxsdt_addr entry_size s =
     (let (rxsdt, h) = host_map A rxsdt_addr (of_nat sdt_hdr_size) (hst s);
          s = s\<lparr>hst := h\<rparr>
      in if rxsdt = 0 then Some (UACPI_STATUS_MAPPING_FAILED, s)
         else
           let hdr = read_hdr (host_mem A (hst s)) rxsdt;
               ret = uacpi_check_table_signature (h_signature hdr)
                       (if entry_size = 8 then ACPI_XSDT_SIGNATURE else ACPI_RSDT_SIGNATURE) s;
               map_len = unat (h_length hdr);
               s = s\<lparr>hst := host_unmap A rxsdt (of_nat sdt_hdr_size) (hst s)\<rparr>
           in if ret \<noteq> UACPI_STATUS_OK then Some (ret, s)
              else if map_len < sdt_hdr_size + entry_size then Some (UACPI_STATUS_INVALID_TABLE_LENGTH, s)
              else
                let entries = (map_len - sdt_hdr_size) div entry_size;
                    (rxsdt, h) = host_map A rxsdt_addr (of_nat map_len) (hst s);
                    s = s\<lparr>hst := h\<rparr>
                in if rxsdt = 0 then Some (UACPI_STATUS_MAPPING_FAILED, s)
                   else
                     let ret = uacpi_verify_table_checksum A rxsdt (of_nat map_len) s
                     in case (if ret \<noteq> UACPI_STATUS_OK then Some (ret, s)
                              else install_entries fuel A rxsdt entry_size [0..<entries] s) of
                          None \<Rightarrow> None
                        | Some (ret, s) \<Rightarrow>
                            Some (ret, s\<lparr>hst := host_unmap A rxsdt (of_nat map_len) (hst s)\<rparr>))"

definition initialize_from_rsdp ::
  "nat \<Rightarrow> 'h host_api \<Rightarrow> 'h tables_state \<Rightarrow> (uacpi_status \<times> 'h tables_state) option" where
  "initialize_from_rsdp fuel A s =
     (let s = s\<lparr>is_rev1 := True\<rparr>;
          ((ret, rsdp_phys), h) = host_get_rsdp A (hst s);
          s = s\<lparr>hst := h\<rparr>
      in if ret \<noteq> UACPI_STATUS_OK then Some (ret, s)
         else
           let (rsdp, h) = host_map A rsdp_phys (of_nat rsdp_size) (hst s);
               s = s\<lparr>hst := h\<rparr>
           in if rsdp = 0 then Some (UACPI_STATUS_MAPPING_FAILED, s)
              else
                let r = read_rsdp (host_mem A (hst s)) rsdp;
                    (rxsdt, rxsdt_entry_size) =
                      (if rsdp_revision r > 1 \<and> xsdt_addr r \<noteq> 0 \<and> \<not> uacpi_check_flag UACPI_FLAG_BAD_XSDT s
                       then (xsdt_addr r, 8) else (ucast (rsdt_addr r), 4));
                    s = s\<lparr>hst := host_unmap A rsdp (of_nat rsdp_size) (hst s)\<rparr>
                in if rxsdt = 0 then Some (UACPI_STATUS_INVALID_ARGUMENT, s)
                   else initialize_from_rxsdt fuel A rxsdt rxsdt_entry_size s)"

text \<open>\<open>temporary_buffer\<close> is the caller's buffer, seen as the table entries it has room for.\<close>

definition uacpi_setup_early_table_access ::
  "nat \<Rightarrow> 'h host_api \<Rightarrow> uacpi_installed_table list \<Rightarrow> nat \<Rightarrow> 'h tables_state
    \<Rightarrow> (uacpi_status \<times> 'h tables_state) option" where
  "uacpi_setup_early_table_access fuel A temporary_buffer buffer_size s =
     (if early_table_access s then Some (UACPI_STATUS_INIT_LEVEL_MISMATCH, s)
      else if buffer_size < installed_table_size then Some (UACPI_STATUS_INVALID_ARGUMENT, s)
      else
        let s = s\<lparr>tables := (tables s)\<lparr>dynamic_storage := temporary_buffer,
                               dynamic_capacity := buffer_size div installed_table_size\<rparr>,
                  early_table_access := True\<rparr>
        in case initialize_from_rsdp fuel A s of
             None \<Rightarrow> None
           | Some (ret, s) \<Rightarrow>
               Some (ret, if ret \<noteq> UACPI_STATUS_OK then uacpi_deinitialize_tables A s else s))"

end
