(* ===== verification/Refcount.thy ===== *)
theory Refcount
  imports Prelude
begin

text \<open>
  Reference counts.  The interface is what the two counters of the ACPI library have in
  common, the one of \<^verbatim>\<open>src/kern/acpi/shareable.c\<close>, modelled here, and the one of an
  installed table: both saturate, and a saturated count stays as it is.
\<close>

section \<open>The interface\<close>

datatype ref_op = Get | Put

fun balance :: "ref_op list \<Rightarrow> int" where
  "balance [] = 0"
| "balance (Get # ops) = 1 + balance ops"
| "balance (Put # ops) = balance ops - 1"

fun run_refs :: "('e \<Rightarrow> 'e) \<Rightarrow> ('e \<Rightarrow> 'e) \<Rightarrow> ref_op list \<Rightarrow> 'e \<Rightarrow> 'e" where
  "run_refs get put [] e = e"
| "run_refs get put (Get # ops) e = run_refs get put ops (get e)"
| "run_refs get put (Put # ops) e = run_refs get put ops (put e)"

text \<open>A count that starts at \<open>c\<close> stays strictly between 0 and \<open>limit\<close> throughout.\<close>

fun within :: "int \<Rightarrow> int \<Rightarrow> ref_op list \<Rightarrow> bool" where
  "within limit c [] = (0 < c \<and> c < limit)"
| "within limit c (Get # ops) = (0 < c \<and> c < limit \<and> within limit (c + 1) ops)"
| "within limit c (Put # ops) = (0 < c \<and> c < limit \<and> within limit (c - 1) ops)"

lemma within_start: "within limit c ops \<Longrightarrow> 0 < c \<and> c < limit"
  by (cases ops; cases "hd ops") auto

locale saturating_refcount =
  fixes inv :: "'e \<Rightarrow> bool" and cnt :: "'e \<Rightarrow> nat" and get put :: "'e \<Rightarrow> 'e" and limit :: nat
  assumes get_up: "inv e \<Longrightarrow> 0 < cnt e \<Longrightarrow> cnt e < limit \<Longrightarrow> cnt (get e) = Suc (cnt e) \<and> inv (get e)"
    and put_down: "inv e \<Longrightarrow> 1 < cnt e \<Longrightarrow> cnt e < limit \<Longrightarrow> cnt (put e) = cnt e - 1 \<and> inv (put e)"
    and get_top: "inv e \<Longrightarrow> cnt e = limit \<Longrightarrow> cnt (get e) = limit \<and> inv (get e)"
    and put_top: "inv e \<Longrightarrow> cnt e = limit \<Longrightarrow> cnt (put e) = limit \<and> inv (put e)"
begin

lemma run_balance:
  assumes "inv e" and "within (int limit) (int (cnt e)) ops"
  shows "int (cnt (run_refs get put ops e)) = int (cnt e) + balance ops
       \<and> inv (run_refs get put ops e)"
  using assms
proof (induction ops arbitrary: e)
  case Nil
  then show ?case by simp
next
  case (Cons r ops)
  show ?case
  proof (cases r)
    case Get
    with Cons.prems get_up [of e] have "cnt (get e) = Suc (cnt e)" "inv (get e)" by auto
    with Cons Get show ?thesis by (simp add: add.commute)
  next
    case Put
    with Cons.prems have w: "within (int limit) (int (cnt e) - 1) ops" by simp
    from within_start [OF this] Put Cons.prems put_down [of e]
    have "cnt (put e) = cnt e - 1" "inv (put e)" "1 < cnt e" by auto
    with Cons Put w show ?thesis by simp
  qed
qed

lemma saturated_stays:
  assumes "inv e" and "cnt e = limit"
  shows "cnt (run_refs get put ops e) = limit \<and> inv (run_refs get put ops e)"
  using assms
proof (induction ops arbitrary: e)
  case Nil
  then show ?case by simp
next
  case (Cons r ops)
  then show ?case using get_top [of e] put_top [of e] by (cases r) auto
qed

end

section \<open>Shareable objects\<close>

record uacpi_shareable =
  share_count :: u32

definition BUGGED_REFCOUNT :: u32 where "BUGGED_REFCOUNT = 0xFFFFFFFF"

definition uacpi_shareable_init :: "uacpi_shareable \<Rightarrow> uacpi_shareable" where
  "uacpi_shareable_init h = h\<lparr>share_count := 1\<rparr>"

definition uacpi_make_shareable_bugged :: "uacpi_shareable \<Rightarrow> uacpi_shareable" where
  "uacpi_make_shareable_bugged h = h\<lparr>share_count := BUGGED_REFCOUNT\<rparr>"

definition uacpi_bugged_shareable :: "uacpi_shareable \<Rightarrow> bool \<times> uacpi_shareable" where
  "uacpi_bugged_shareable h =
     (let h = (if share_count h = 0 then uacpi_make_shareable_bugged h else h)
      in (share_count h = BUGGED_REFCOUNT, h))"

text \<open>The atomic increment and decrement return the new value, the functions the old one.\<close>

definition uacpi_shareable_ref :: "uacpi_shareable \<Rightarrow> u32 \<times> uacpi_shareable" where
  "uacpi_shareable_ref h =
     (case uacpi_bugged_shareable h of
        (bugged, h) \<Rightarrow> if bugged then (BUGGED_REFCOUNT, h)
          else let new = share_count h + 1 in (new - 1, h\<lparr>share_count := new\<rparr>))"

definition uacpi_shareable_unref :: "uacpi_shareable \<Rightarrow> u32 \<times> uacpi_shareable" where
  "uacpi_shareable_unref h =
     (case uacpi_bugged_shareable h of
        (bugged, h) \<Rightarrow> if bugged then (BUGGED_REFCOUNT, h)
          else let new = share_count h - 1 in (new + 1, h\<lparr>share_count := new\<rparr>))"

text \<open>A null handle is \<open>None\<close>; the first component says whether \<open>do_free\<close> was called.\<close>

definition uacpi_shareable_unref_and_delete_if_last ::
  "uacpi_shareable option \<Rightarrow> bool \<times> uacpi_shareable option" where
  "uacpi_shareable_unref_and_delete_if_last handle =
     (case handle of
        None \<Rightarrow> (False, None)
      | Some h \<Rightarrow>
          (case uacpi_bugged_shareable h of
             (bugged, h) \<Rightarrow> if bugged then (False, Some h)
               else (case uacpi_shareable_unref h of (old, h) \<Rightarrow> (old = 1, Some h))))"

definition uacpi_shareable_refcount :: "uacpi_shareable \<Rightarrow> u32" where
  "uacpi_shareable_refcount h = share_count h"

section \<open>The interface on shareable objects\<close>

lemma unat_u32_less: "unat (n :: u32) < 2 ^ 32"
  using unsigned_less [where 'a = nat, of n] by simp

lemma unat_u32_inc: "n \<noteq> 0xFFFFFFFF \<Longrightarrow> unat (n + 1 :: u32) = Suc (unat n)"
proof -
  assume "n \<noteq> 0xFFFFFFFF"
  then have "n + 1 \<noteq> 0" using eq_neg_iff_add_eq_0 [of n 1] by auto
  then show ?thesis by (simp add: unat_eq_zero unatSuc add.commute)
qed

lemma unat_u32_dec: "n \<noteq> 0 \<Longrightarrow> unat (n - 1 :: u32) = unat n - 1"
  by (simp add: unat_minus_one)

lemma share_eq_iff: "share_count h = n \<longleftrightarrow> unat (share_count h) = unat n"
  by (simp add: word_unat_eq_iff)

interpretation shareable: saturating_refcount "\<lambda>_. True" "\<lambda>h. unat (share_count h)"
  "\<lambda>h. snd (uacpi_shareable_ref h)" "\<lambda>h. snd (uacpi_shareable_unref h)" "unat BUGGED_REFCOUNT"
proof unfold_locales
  fix h
  show "0 < unat (share_count h) \<Longrightarrow> unat (share_count h) < unat BUGGED_REFCOUNT \<Longrightarrow>
      unat (share_count (snd (uacpi_shareable_ref h))) = Suc (unat (share_count h)) \<and> True"
    using unat_u32_inc [of "share_count h"]
    by (cases "share_count h = 0"; cases "share_count h = 0xFFFFFFFF") (auto simp: uacpi_shareable_ref_def uacpi_bugged_shareable_def BUGGED_REFCOUNT_def Let_def)
  show "1 < unat (share_count h) \<Longrightarrow> unat (share_count h) < unat BUGGED_REFCOUNT \<Longrightarrow>
      unat (share_count (snd (uacpi_shareable_unref h))) = unat (share_count h) - 1 \<and> True"
    using unat_u32_dec [of "share_count h"]
    by (cases "share_count h = 0"; cases "share_count h = 0xFFFFFFFF") (auto simp: uacpi_shareable_unref_def uacpi_bugged_shareable_def BUGGED_REFCOUNT_def Let_def)
qed (auto simp: uacpi_shareable_ref_def uacpi_shareable_unref_def uacpi_bugged_shareable_def
      uacpi_make_shareable_bugged_def BUGGED_REFCOUNT_def Let_def word_unat_eq_iff)


section \<open>Properties\<close>

text \<open>C36: life of a shareable object.  After the initialisation and any sequence of
  \<open>uacpi_shareable_ref\<close> and \<open>uacpi_shareable_unref\<close> that keeps the count strictly
  between 0 and the saturation value, the count is 1 plus the number of references taken
  minus the number dropped, \<open>uacpi_shareable_unref_and_delete_if_last\<close> calls the
  destructor exactly when that is 1, and another call on the dead object never calls it
  again.\<close>

theorem shareable_lifetime:
  assumes "within (2 ^ 32 - 1) 1 ops"
    and "h = run_refs (\<lambda>h. snd (uacpi_shareable_ref h)) (\<lambda>h. snd (uacpi_shareable_unref h)) ops
          (uacpi_shareable_init h0)"
  shows "int (unat (uacpi_shareable_refcount h)) = 1 + balance ops
     \<and> fst (uacpi_shareable_unref_and_delete_if_last (Some h)) = (balance ops = 0)
     \<and> (balance ops = 0 \<longrightarrow>
          \<not> fst (uacpi_shareable_unref_and_delete_if_last
                (snd (uacpi_shareable_unref_and_delete_if_last (Some h)))))"
proof -
  have start: "unat (share_count (uacpi_shareable_init h0)) = 1" by (simp add: uacpi_shareable_init_def)
  have lim: "int (unat BUGGED_REFCOUNT) = 2 ^ 32 - 1" by (simp add: BUGGED_REFCOUNT_def)
  have cnt: "int (unat (share_count h)) = 1 + balance ops"
    using shareable.run_balance [of "uacpi_shareable_init h0" ops] assms(1)
    unfolding assms(2) lim start by simp
  have "0 < 1 + balance ops \<and> 1 + balance ops < 2 ^ 32 - 1"
    using assms(1)
  proof -
    have "within l c ops \<Longrightarrow> 0 < c + balance ops \<and> c + balance ops < l" for l c
    proof (induction ops arbitrary: c)
      case (Cons r ops)
      show ?case
      proof (cases r)
        case Get
        with Cons.prems Cons.IH [of "c + 1"] have "0 < (c + 1) + balance ops \<and> (c + 1) + balance ops < l"
          by (simp only: within.simps)
        with Get show ?thesis by simp
      next
        case Put
        with Cons.prems Cons.IH [of "c - 1"] have "0 < (c - 1) + balance ops \<and> (c - 1) + balance ops < l"
          by (simp only: within.simps)
        with Put show ?thesis by simp
      qed
    qed simp
    with assms(1) show ?thesis by blast
  qed
  with cnt have "share_count h \<noteq> 0" "share_count h \<noteq> BUGGED_REFCOUNT"
    using lim by auto
  then have "uacpi_shareable_unref_and_delete_if_last (Some h)
      = (share_count h = 1, Some (h\<lparr>share_count := share_count h - 1\<rparr>))"
    by (simp add: uacpi_shareable_unref_and_delete_if_last_def uacpi_bugged_shareable_def
        uacpi_shareable_unref_def)
  moreover have "(share_count h = 1) = (balance ops = 0)"
  proof -
    have "share_count h = 1 \<longleftrightarrow> int (unat (share_count h)) = 1"
      using share_eq_iff [of h 1] by (metis of_nat_1 of_nat_eq_iff unat_1)
    then show ?thesis using cnt by simp
  qed
  ultimately show ?thesis
    using cnt by (auto simp: uacpi_shareable_refcount_def uacpi_shareable_unref_and_delete_if_last_def
        uacpi_bugged_shareable_def uacpi_make_shareable_bugged_def BUGGED_REFCOUNT_def)
qed

theorem shareable_lifetime_witness:
  "fst (uacpi_shareable_unref_and_delete_if_last (Some
      (run_refs (\<lambda>h. snd (uacpi_shareable_ref h)) (\<lambda>h. snd (uacpi_shareable_unref h)) [Get, Get, Put, Put]
        (uacpi_shareable_init \<lparr>share_count = 77\<rparr>))))"
  using shareable_lifetime [of "[Get, Get, Put, Put]" _ "\<lparr>share_count = 77\<rparr>", OF _ refl] by simp

end
