(* ===== verification/Table_Properties.thy ===== *)
theory Table_Properties
  imports Table_Access Refcount
begin

text \<open>
  What the table store guarantees: the invariant of its entries under every operation, the
  result of a search, the checks, the normalisation of the fixed description table, and
  when an installation returns.
\<close>

section \<open>Frames\<close>

lemma hst_put_tbl [simp]: "hst (put_tbl sl t s) = hst s"
  and early_put_tbl [simp]: "early_table_access (put_tbl sl t s) = early_table_access s"
  and handler_put_tbl [simp]: "installation_handler (put_tbl sl t s) = installation_handler s"
  and flags_put_tbl [simp]: "rt_flags (put_tbl sl t s) = rt_flags s"
  and tables_put_tbl [simp]: "tables (put_tbl sl t s) = darray_put sl t (tables s)"
  by (simp_all add: put_tbl_def)

lemma get_tbl_hst [simp]: "get_tbl sl (s\<lparr>hst := h\<rparr>) = get_tbl sl s"
  by (simp add: get_tbl_def)

lemma get_put_tbl:
  assumes "darray_inv (tables s)" and "darray_at idx (tables s) = Some sl"
  shows "get_tbl sl (put_tbl sl t s) = t"
proof -
  have "idx < length (contents (tables s))"
    using assms by (metis darray_at_None_iff length_contents not_less option.distinct(1))
  then show ?thesis
    using assms darray_get_at [of "darray_put sl t (tables s)" idx sl]
      darray_put_at [OF assms, of t]
    by (simp add: get_tbl_def)
qed

section \<open>The invariant of the store\<close>

text \<open>
  A referenced entry has a mapping, and so has an entry the host gave a virtual address for.
\<close>

definition table_inv :: "uacpi_installed_table \<Rightarrow> bool" where
  "table_inv tbl \<longleftrightarrow> (reference_count tbl \<noteq> 0 \<or> \<not> is_physical (it_origin tbl) \<longrightarrow> it_ptr tbl \<noteq> 0)"

definition tables_wf :: "'h tables_state \<Rightarrow> bool" where
  "tables_wf s \<longleftrightarrow> darray_inv (tables s) \<and> list_all table_inv (contents (tables s))"

definition same_shape :: "'h tables_state \<Rightarrow> 'h tables_state \<Rightarrow> bool" where
  "same_shape s s' \<longleftrightarrow> darray_size (tables s') = darray_size (tables s)
     \<and> darray_capacity (tables s') = darray_capacity (tables s)
     \<and> early_table_access s' = early_table_access s \<and> rt_flags s' = rt_flags s
     \<and> installation_handler s' = installation_handler s \<and> rt_fadt s' = rt_fadt s
     \<and> map it_hdr (contents (tables s')) = map it_hdr (contents (tables s))
     \<and> map it_origin (contents (tables s')) = map it_origin (contents (tables s))
     \<and> (\<forall>i. darray_at i (tables s') = darray_at i (tables s))"

lemma same_shape_refl [simp]: "same_shape s s"
  by (simp add: same_shape_def)

lemma same_shape_trans: "same_shape s t \<Longrightarrow> same_shape t u \<Longrightarrow> same_shape s u"
  by (simp add: same_shape_def)

lemma same_shape_hst [simp]: "same_shape s (t\<lparr>hst := h\<rparr>) \<longleftrightarrow> same_shape s t"
  by (simp add: same_shape_def)

lemma entry_at:
  assumes "tables_wf s" and "darray_at idx (tables s) = Some sl"
  shows "idx < darray_size (tables s)" and "get_tbl sl s = contents (tables s) ! idx"
    and "table_inv (get_tbl sl s)"
proof -
  show lt: "idx < darray_size (tables s)"
    using assms(2) by (metis darray_at_None_iff not_less option.distinct(1))
  show eq: "get_tbl sl s = contents (tables s) ! idx"
    using assms(1) darray_get_at [OF _ assms(2)] by (simp add: get_tbl_def tables_wf_def)
  show "table_inv (get_tbl sl s)"
    using assms lt eq by (auto simp: tables_wf_def list_all_length)
qed

lemma map_update_same: "f t = f (xs ! i) \<Longrightarrow> map f (xs[i := t]) = map f xs"
  by (metis list_update_id map_update)

lemma put_tbl_keeps:
  assumes "tables_wf s" and "darray_at idx (tables s) = Some sl" and "table_inv t"
    and "it_hdr t = it_hdr (get_tbl sl s)" and "it_origin t = it_origin (get_tbl sl s)"
  shows "tables_wf (put_tbl sl t s) \<and> same_shape s (put_tbl sl t s)
       \<and> contents (tables (put_tbl sl t s)) = (contents (tables s))[idx := t]"
proof -
  note e = entry_at [OF assms(1,2)]
  have inv: "darray_inv (tables s)" using assms(1) by (simp add: tables_wf_def)
  note p = darray_put_at [OF inv assms(2), of t]
  show ?thesis
    using assms p e
    by (auto simp: tables_wf_def same_shape_def list_all_length nth_list_update put_tbl_def map_update_same)
qed

lemma wf_hst [simp]: "tables_wf (s\<lparr>hst := h\<rparr>) = tables_wf s"
  by (simp add: tables_wf_def)

lemma count_reference_fields [simp]:
  "it_hdr (count_reference t) = it_hdr t" "it_origin (count_reference t) = it_origin t"
  "it_ptr (count_reference t) = it_ptr t" "it_flags (count_reference t) = it_flags t"
  by (simp_all add: count_reference_def)

lemma count_reference_nonzero: "reference_count (count_reference t) \<noteq> 0"
proof (cases "reference_count t = 0xFFFF")
  case False
  then have "reference_count t + 1 \<noteq> 0"
    using eq_neg_iff_add_eq_0 [of "reference_count t" 1] by auto
  with False show ?thesis by (simp add: count_reference_def)
qed (simp add: count_reference_def)


definition stored :: "slot \<Rightarrow> nat \<Rightarrow> 'h tables_state \<Rightarrow> 'h tables_state \<Rightarrow> bool" where
  "stored sl idx s s' \<longleftrightarrow> tables_wf s' \<and> same_shape s s'
     \<and> contents (tables s') = (contents (tables s))[idx := get_tbl sl s']"

lemma stored_self:
  assumes "tables_wf s" and "darray_at idx (tables s) = Some sl"
  shows "stored sl idx s s"
  using entry_at [OF assms] assms by (simp add: stored_def)

lemma stored_put:
  assumes "tables_wf s" and "darray_at idx (tables s) = Some sl" and "table_inv t"
    and "it_hdr t = it_hdr (get_tbl sl s)" and "it_origin t = it_origin (get_tbl sl s)"
  shows "stored sl idx s (put_tbl sl t s)" and "get_tbl sl (put_tbl sl t s) = t"
proof -
  show g: "get_tbl sl (put_tbl sl t s) = t"
    using get_put_tbl [OF _ assms(2)] assms(1) by (simp add: tables_wf_def)
  show "stored sl idx s (put_tbl sl t s)"
    using put_tbl_keeps [OF assms] by (simp only: stored_def g simp_thms)
qed

lemma put_tbl_hst: "put_tbl sl t (s\<lparr>hst := h\<rparr>) = (put_tbl sl t s)\<lparr>hst := h\<rparr>"
  by (simp add: put_tbl_def)

lemma stored_hst [simp]: "stored sl idx s (s'\<lparr>hst := h\<rparr>) \<longleftrightarrow> stored sl idx s s'"
  by (simp add: stored_def)

lemma INVALID_nonzero [simp]: "UACPI_TABLE_INVALID \<noteq> 0"
  by (simp add: UACPI_TABLE_INVALID_def)

lemma INVALID_bit: "(fl OR UACPI_TABLE_INVALID) AND UACPI_TABLE_INVALID \<noteq> 0"
  by (simp add: UACPI_TABLE_INVALID_def bit.conj_disj_distrib2)

lemma CSUM_keeps_INVALID:
  "(fl OR UACPI_TABLE_CSUM_VERIFIED) AND UACPI_TABLE_INVALID = fl AND UACPI_TABLE_INVALID"
  by (simp add: UACPI_TABLE_INVALID_def UACPI_TABLE_CSUM_VERIFIED_def bit.conj_disj_distrib2)

text \<open>One lemma per outcome of taking a reference.\<close>

lemma table_ref_effect:
  assumes wf: "tables_wf s" and sl: "darray_at idx (tables s) = Some sl"
    and ref: "table_ref_unlocked A sl s = (ret, s')"
  shows "stored sl idx s s'"
    and "ret = UACPI_STATUS_OK \<Longrightarrow> reference_count (get_tbl sl s') \<noteq> 0 \<and> it_ptr (get_tbl sl s') \<noteq> 0
           \<and> it_flags (get_tbl sl s') AND UACPI_TABLE_INVALID = it_flags (get_tbl sl s) AND UACPI_TABLE_INVALID"
    and "ret = UACPI_STATUS_BAD_CHECKSUM \<Longrightarrow> it_flags (get_tbl sl s') AND UACPI_TABLE_INVALID \<noteq> 0"
proof -
  let ?t = "get_tbl sl s"
  note inv = entry_at(3) [OF wf sl]
  note put = stored_put [OF wf sl]
  consider
      (referenced) "reference_count ?t \<noteq> 0"
    | (invalid) "reference_count ?t = 0" "it_flags ?t AND UACPI_TABLE_INVALID \<noteq> 0"
    | (virtual) "reference_count ?t = 0" "it_flags ?t AND UACPI_TABLE_INVALID = 0" "\<not> is_physical (it_origin ?t)"
    | (physical) "reference_count ?t = 0" "it_flags ?t AND UACPI_TABLE_INVALID = 0" "is_physical (it_origin ?t)"
    by blast
  then have "stored sl idx s s'
      \<and> (ret = UACPI_STATUS_OK \<longrightarrow> reference_count (get_tbl sl s') \<noteq> 0 \<and> it_ptr (get_tbl sl s') \<noteq> 0
           \<and> it_flags (get_tbl sl s') AND UACPI_TABLE_INVALID = it_flags ?t AND UACPI_TABLE_INVALID)
      \<and> (ret = UACPI_STATUS_BAD_CHECKSUM \<longrightarrow> it_flags (get_tbl sl s') AND UACPI_TABLE_INVALID \<noteq> 0)"
  proof cases
    case referenced
    then have "s' = put_tbl sl (count_reference ?t) s" "ret = UACPI_STATUS_OK" "table_inv (count_reference ?t)"
      using ref inv by (auto simp: table_ref_unlocked_def Let_def table_inv_def)
    with put [of "count_reference ?t"] referenced inv show ?thesis
      by (simp add: count_reference_nonzero table_inv_def)
  next
    case invalid
    then show ?thesis
      using ref stored_self [OF wf sl] by (auto simp: table_ref_unlocked_def Let_def)
  next
    case virtual
    then have "s' = put_tbl sl (count_reference ?t) s" "ret = UACPI_STATUS_OK" "table_inv (count_reference ?t)"
      using ref inv by (auto simp: table_ref_unlocked_def Let_def table_inv_def)
    with put [of "count_reference ?t"] virtual inv show ?thesis
      by (simp add: count_reference_nonzero table_inv_def)
  next
    case physical
    obtain p h where map: "host_map A (phys_addr ?t) (table_bytes ?t) (hst s) = (p, h)" by fastforce
    let ?m = "?t\<lparr>it_ptr := p\<rparr>"
    let ?bad = "?m\<lparr>it_flags := it_flags ?t OR UACPI_TABLE_INVALID, it_ptr := 0\<rparr>"
    let ?good = "?m\<lparr>it_flags := it_flags ?t OR UACPI_TABLE_CSUM_VERIFIED\<rparr>"
    have c: "table_inv (count_reference ?m)" "table_inv (count_reference ?good)" if "p \<noteq> 0"
      using that by (simp_all add: table_inv_def)
    have z: "table_inv ?m" if "p = 0" using physical by (simp add: table_inv_def)
    have b: "table_inv ?bad" using physical by (simp add: table_inv_def)
    note puts = put [of ?m] put [of ?bad, OF b] put [of "count_reference ?m"] put [of "count_reference ?good"]
    show ?thesis
      using ref physical map puts c z
      by (auto simp: table_ref_unlocked_def Let_def put_tbl_hst table_bytes_def INVALID_bit
          CSUM_keeps_INVALID count_reference_nonzero uacpi_verify_table_checksum_def split: if_splits)
  qed
  then show "stored sl idx s s'"
    and "ret = UACPI_STATUS_OK \<Longrightarrow> reference_count (get_tbl sl s') \<noteq> 0 \<and> it_ptr (get_tbl sl s') \<noteq> 0
           \<and> it_flags (get_tbl sl s') AND UACPI_TABLE_INVALID = it_flags ?t AND UACPI_TABLE_INVALID"
    and "ret = UACPI_STATUS_BAD_CHECKSUM \<Longrightarrow> it_flags (get_tbl sl s') AND UACPI_TABLE_INVALID \<noteq> 0"
    by blast+
qed

lemma table_unref_effect:
  assumes wf: "tables_wf s" and sl: "darray_at idx (tables s) = Some sl"
    and unref: "table_unref_unlocked A sl s = (ret, s')"
  shows "stored sl idx s s'"
proof -
  let ?t = "get_tbl sl s"
  note inv = entry_at(3) [OF wf sl]
  note put = stored_put(1) [OF wf sl]
  let ?d = "?t\<lparr>reference_count := reference_count ?t - 1\<rparr>"
  let ?z = "?t\<lparr>it_ptr := 0, reference_count := reference_count ?t - 1\<rparr>"
  have d: "table_inv ?d" if "reference_count ?t \<noteq> 0"
    using inv that by (auto simp: table_inv_def)
  have z: "table_inv ?z" if "reference_count ?t = 1" "is_physical (it_origin ?t)"
    using that by (simp add: table_inv_def)
  show ?thesis
    using unref put [of ?d] put [of ?z] d z stored_self [OF wf sl]
    by (auto simp: table_unref_unlocked_def Let_def put_tbl_hst split: if_splits)
qed


lemma unat_u16_inc: "n \<noteq> 0xFFFF \<Longrightarrow> unat (n + 1 :: u16) = Suc (unat n)"
proof -
  assume "n \<noteq> 0xFFFF"
  then have "n + 1 \<noteq> 0" using eq_neg_iff_add_eq_0 [of n 1] by auto
  then show ?thesis by (simp add: unatSuc add.commute)
qed

lemma stored_at: "stored sl idx s s' \<Longrightarrow> darray_at idx (tables s) = Some sl \<Longrightarrow>
    tables_wf s' \<and> darray_at idx (tables s') = Some sl"
  by (simp add: stored_def same_shape_def)

text \<open>The count of an installed table saturates at \<open>0xFFFF\<close>.\<close>

interpretation table_refs: saturating_refcount
  "\<lambda>s. tables_wf s \<and> darray_at idx (tables s) = Some sl"
  "\<lambda>s. unat (reference_count (get_tbl sl s))"
  "\<lambda>s. snd (table_ref_unlocked A sl s)" "\<lambda>s. snd (table_unref_unlocked A sl s)" "0xFFFF"
  for A :: "'h host_api" and idx sl
proof unfold_locales
  fix s :: "'h tables_state"
  let ?t = "get_tbl sl s"
  assume s: "tables_wf s \<and> darray_at idx (tables s) = Some sl"
  then have wf: "tables_wf s" and sl: "darray_at idx (tables s) = Some sl" by auto
  note g = get_put_tbl [OF _ sl]
  have inv: "darray_inv (tables s)" using wf by (simp add: tables_wf_def)
  obtain ret s' where ref: "table_ref_unlocked A sl s = (ret, s')" by fastforce
  obtain ret2 s2 where unref: "table_unref_unlocked A sl s = (ret2, s2)" by fastforce
  note keep = stored_at [OF table_ref_effect(1) [OF wf sl ref] sl]
    stored_at [OF table_unref_effect [OF wf sl unref] sl]
  have eq16: "reference_count ?t = n \<longleftrightarrow> unat (reference_count ?t) = unat n" for n
    by (simp add: word_unat_eq_iff)
  show "unat (reference_count (get_tbl sl (snd (table_ref_unlocked A sl s)))) = Suc (unat (reference_count ?t))
      \<and> tables_wf (snd (table_ref_unlocked A sl s))
      \<and> darray_at idx (tables (snd (table_ref_unlocked A sl s))) = Some sl"
    if "0 < unat (reference_count ?t)" "unat (reference_count ?t) < 0xFFFF"
  proof -
    have "reference_count ?t \<noteq> 0" "reference_count ?t \<noteq> 0xFFFF" using that by (auto simp: eq16)
    then have "s' = put_tbl sl (?t\<lparr>reference_count := reference_count ?t + 1\<rparr>) s"
      using ref by (auto simp: table_ref_unlocked_def count_reference_def Let_def)
    then show ?thesis
      using keep ref g [OF inv] unat_u16_inc \<open>reference_count ?t \<noteq> 0xFFFF\<close> by simp
  qed
  show "unat (reference_count (get_tbl sl (snd (table_unref_unlocked A sl s)))) = unat (reference_count ?t) - 1
      \<and> tables_wf (snd (table_unref_unlocked A sl s))
      \<and> darray_at idx (tables (snd (table_unref_unlocked A sl s))) = Some sl"
    if "1 < unat (reference_count ?t)" "unat (reference_count ?t) < 0xFFFF"
  proof -
    have c: "reference_count ?t \<noteq> 0" "reference_count ?t \<noteq> 0xFFFF" "reference_count ?t \<noteq> 1"
      using that by (auto simp: eq16)
    then have "s2 = put_tbl sl (?t\<lparr>reference_count := reference_count ?t - 1\<rparr>) s"
      using unref by (auto simp: table_unref_unlocked_def Let_def)
    then show ?thesis
      using keep unref g [OF inv] c(1) by (simp add: unat_minus_one)
  qed
  show "unat (reference_count (get_tbl sl (snd (table_ref_unlocked A sl s)))) = 0xFFFF
      \<and> tables_wf (snd (table_ref_unlocked A sl s))
      \<and> darray_at idx (tables (snd (table_ref_unlocked A sl s))) = Some sl"
    if "unat (reference_count ?t) = 0xFFFF"
  proof -
    have c: "reference_count ?t = 0xFFFF" using that by (simp add: eq16)
    then have "s' = put_tbl sl ?t s" using ref by (auto simp: table_ref_unlocked_def count_reference_def Let_def)
    then show ?thesis using keep ref g [OF inv] that by simp
  qed
  show "unat (reference_count (get_tbl sl (snd (table_unref_unlocked A sl s)))) = 0xFFFF
      \<and> tables_wf (snd (table_unref_unlocked A sl s))
      \<and> darray_at idx (tables (snd (table_unref_unlocked A sl s))) = Some sl"
    if "unat (reference_count ?t) = 0xFFFF"
  proof -
    have "reference_count ?t = 0xFFFF" using that by (simp add: eq16)
    then have "s2 = s" using unref by (auto simp: table_unref_unlocked_def Let_def)
    then show ?thesis using keep unref that by simp
  qed
qed

lemma table_ref_status:
  "fst (table_ref_unlocked A sl s) \<noteq> UACPI_STATUS_NOT_FOUND"
  by (auto simp: table_ref_unlocked_def Let_def uacpi_verify_table_checksum_def split: prod.split)

section \<open>Searching\<close>

definition entry :: "'h tables_state \<Rightarrow> nat \<Rightarrow> uacpi_installed_table" where
  "entry s i = contents (tables s) ! i"

definition invalid_entry :: "'h tables_state \<Rightarrow> nat \<Rightarrow> bool" where
  "invalid_entry s i \<longleftrightarrow> it_flags (entry s i) AND UACPI_TABLE_INVALID \<noteq> 0"

lemma same_shape_hdr:
  assumes "same_shape s s'" and "tables_wf s" and "tables_wf s'" and "i < darray_size (tables s)"
  shows "it_hdr (entry s' i) = it_hdr (entry s i)"
proof -
  have "map it_hdr (contents (tables s')) = map it_hdr (contents (tables s))"
    "i < length (contents (tables s))" "i < length (contents (tables s'))"
    using assms by (simp_all add: same_shape_def tables_wf_def)
  then show ?thesis unfolding entry_def by (metis nth_map)
qed

lemma at_index:
  assumes "i < darray_size (tables s)"
  obtains sl where "darray_at i (tables s) = Some sl"
  using assms darray_at_None_iff [of i "tables s"] by (cases "darray_at i (tables s)") auto

lemma stored_entry:
  assumes "stored sl idx s s'" and "tables_wf s" and "idx < darray_size (tables s)"
  shows "entry s' idx = get_tbl sl s'" and "i \<noteq> idx \<Longrightarrow> entry s' i = entry s i"
  using assms by (simp_all add: stored_def entry_def tables_wf_def)

definition searched ::
  "uacpi_table_identifiers \<Rightarrow> nat list \<Rightarrow> table_search_ctx \<Rightarrow> 'h tables_state \<Rightarrow> 'h tables_state \<Rightarrow> bool" where
  "searched ident idxs ctx' s s' \<longleftrightarrow>
     tables_wf s' \<and> same_shape s s'
     \<and> (\<forall>j. j \<notin> set idxs \<longrightarrow> entry s' j = entry s j)
     \<and> (ctx_status ctx' = UACPI_STATUS_OK \<longrightarrow>
          (\<exists>pre i post t. idxs = pre @ i # post \<and> ctx_out_table ctx' = Some t \<and> t_index t = i
             \<and> id_matches ident (it_hdr (entry s i)) \<and> \<not> invalid_entry s i
             \<and> t_ptr t = it_ptr (entry s' i) \<and> t_ptr t \<noteq> 0 \<and> reference_count (entry s' i) \<noteq> 0
             \<and> (\<forall>j \<in> set pre. id_matches ident (it_hdr (entry s j)) \<longrightarrow> invalid_entry s' j)))
     \<and> (ctx_status ctx' = UACPI_STATUS_NOT_FOUND \<longrightarrow>
          ctx_out_table ctx' = None
          \<and> (\<forall>j \<in> set idxs. id_matches ident (it_hdr (entry s j)) \<longrightarrow> invalid_entry s' j))"

lemma searched_skip:
  assumes rest: "searched ident idxs ctx' t s'" and st: "tables_wf t" "same_shape s t" "tables_wf s"
    and frame: "\<And>j. j \<noteq> idx \<Longrightarrow> entry t j = entry s j"
    and i: "idx \<notin> set idxs" "\<forall>j \<in> set (idx # idxs). j < darray_size (tables s)"
    and inv: "id_matches ident (it_hdr (entry s idx)) \<Longrightarrow> invalid_entry t idx"
  shows "searched ident (idx # idxs) ctx' s s'"
proof -
  have hdr: "it_hdr (entry t j) = it_hdr (entry s j)" if "j \<in> set (idx # idxs)" for j
    using same_shape_hdr [OF st(2,3,1)] i(2) that by auto
  have same: "entry t j = entry s j" if "j \<in> set idxs" for j
    using frame [of j] i(1) that by (cases "j = idx") simp_all
  have keep: "entry s' idx = entry t idx" using rest i(1) by (simp add: searched_def)
  then have inv': "id_matches ident (it_hdr (entry s idx)) \<Longrightarrow> invalid_entry s' idx"
    using inv by (simp add: invalid_entry_def)
  have "\<exists>pre i post tb. idx # idxs = pre @ i # post \<and> ctx_out_table ctx' = Some tb \<and> t_index tb = i
             \<and> id_matches ident (it_hdr (entry s i)) \<and> \<not> invalid_entry s i
             \<and> t_ptr tb = it_ptr (entry s' i) \<and> t_ptr tb \<noteq> 0 \<and> reference_count (entry s' i) \<noteq> 0
             \<and> (\<forall>j \<in> set pre. id_matches ident (it_hdr (entry s j)) \<longrightarrow> invalid_entry s' j)"
    if "ctx_status ctx' = UACPI_STATUS_OK"
  proof -
    from rest that obtain pre i post tb where
      r: "idxs = pre @ i # post" "ctx_out_table ctx' = Some tb" "t_index tb = i"
         "id_matches ident (it_hdr (entry t i))" "\<not> invalid_entry t i"
         "t_ptr tb = it_ptr (entry s' i)" "t_ptr tb \<noteq> 0" "reference_count (entry s' i) \<noteq> 0"
         "\<forall>j \<in> set pre. id_matches ident (it_hdr (entry t j)) \<longrightarrow> invalid_entry s' j"
      unfolding searched_def by blast
    have e: "entry t i = entry s i" "\<forall>j \<in> set pre. entry t j = entry s j"
      using same r(1) by auto
    have "idx # idxs = (idx # pre) @ i # post" using r(1) by simp
    moreover have "\<forall>j \<in> set (idx # pre). id_matches ident (it_hdr (entry s j)) \<longrightarrow> invalid_entry s' j"
      using r(9) e(2) inv' by simp
    moreover have "\<not> invalid_entry s i" using r(5) e(1) by (simp add: invalid_entry_def)
    ultimately show ?thesis using r(2-4,6-8) e(1) by metis
  qed
  moreover have "ctx_out_table ctx' = None
      \<and> (\<forall>j \<in> set (idx # idxs). id_matches ident (it_hdr (entry s j)) \<longrightarrow> invalid_entry s' j)"
    if "ctx_status ctx' = UACPI_STATUS_NOT_FOUND"
    using rest that inv' same by (auto simp: searched_def)
  moreover have "tables_wf s'" "same_shape s s'" "\<forall>j. j \<notin> set (idx # idxs) \<longrightarrow> entry s' j = entry s j"
    using rest st(2) frame same_shape_trans by (auto simp: searched_def)
  ultimately show ?thesis by (simp add: searched_def)
qed

lemma do_search_other:
  "ctx_search ctx = SEARCH_TYPE_BY_ID ident \<Longrightarrow> \<not> id_matches ident (it_hdr (get_tbl sl s)) \<Longrightarrow>
   do_search_tables A sl idx (ctx, s) = (ITERATION_CONTINUE, ctx, s)"
  by (simp add: do_search_tables_def)

lemma do_search_hit:
  assumes "ctx_search ctx = SEARCH_TYPE_BY_ID ident" and "id_matches ident (it_hdr (get_tbl sl s))"
    and "table_ref_unlocked A sl s = (ret, t)"
  shows "do_search_tables A sl idx (ctx, s) =
    (if ret = UACPI_STATUS_OK then
       (ITERATION_BREAK, ctx\<lparr>ctx_out_table := Some \<lparr>t_ptr = it_ptr (get_tbl sl t), t_index = idx\<rparr>,
          ctx_status := ret\<rparr>, t)
     else if ret = UACPI_STATUS_BAD_CHECKSUM then (ITERATION_CONTINUE, ctx, t)
     else (ITERATION_BREAK, ctx\<lparr>ctx_status := ret\<rparr>, t))"
  using assms by (simp add: do_search_tables_def)

lemma search_effect:
  assumes "tables_wf s" and "\<forall>i \<in> set idxs. i < darray_size (tables s)" and "distinct idxs"
    and "for_each_from idxs (do_search_tables A) (ctx, s) = (ctx', s')"
    and "ctx_search ctx = SEARCH_TYPE_BY_ID ident" and "ctx_out_table ctx = None"
    and "ctx_status ctx = UACPI_STATUS_NOT_FOUND"
  shows "searched ident idxs ctx' s s'"
  using assms
proof (induction idxs arbitrary: s)
  case Nil
  then show ?case by (simp add: searched_def)
next
  case (Cons idx idxs)
  have lt: "idx < darray_size (tables s)" using Cons.prems by simp
  then obtain sl where sl: "darray_at idx (tables s) = Some sl" using at_index by blast
  have g: "get_tbl sl s = entry s idx" using entry_at(2) [OF Cons.prems(1) sl] by (simp add: entry_def)
  have step: "searched ident (idx # idxs) ctx' s s'"
    if run: "for_each_from idxs (do_search_tables A) (ctx, t) = (ctx', s')"
      and t: "tables_wf t" "same_shape s t" "\<And>j. j \<noteq> idx \<Longrightarrow> entry t j = entry s j"
      and inv: "id_matches ident (it_hdr (entry s idx)) \<Longrightarrow> invalid_entry t idx" for t
  proof -
    have "\<forall>i \<in> set idxs. i < darray_size (tables t)" using Cons.prems(2) t(2) by (simp add: same_shape_def)
    then have "searched ident idxs ctx' t s'" using Cons run t(1) by auto
    then show ?thesis by (rule searched_skip) (use t inv Cons.prems in auto)
  qed
  consider (skip) "invalid_entry s idx" | (other) "\<not> invalid_entry s idx" "\<not> id_matches ident (it_hdr (entry s idx))"
    | (hit) "\<not> invalid_entry s idx" "id_matches ident (it_hdr (entry s idx))" by blast
  then show ?case
  proof cases
    case skip
    then have "for_each_from idxs (do_search_tables A) (ctx, s) = (ctx', s')"
      using Cons.prems(4) sl g by (simp add: invalid_entry_def)
    then show ?thesis by (rule step) (use Cons.prems(1) skip in auto)
  next
    case other
    then have "for_each_from idxs (do_search_tables A) (ctx, s) = (ctx', s')"
      using Cons.prems(4,5) sl g by (simp add: invalid_entry_def do_search_other)
    then show ?thesis by (rule step) (use Cons.prems(1) other in auto)
  next
    case hit
    obtain ret t where ref: "table_ref_unlocked A sl s = (ret, t)" by fastforce
    note e = table_ref_effect [OF Cons.prems(1) sl ref]
    note se = stored_entry [OF e(1) Cons.prems(1) lt]
    have t: "tables_wf t" "same_shape s t" using e(1) by (simp_all add: stored_def)
    consider (ok) "ret = UACPI_STATUS_OK" | (bad) "ret = UACPI_STATUS_BAD_CHECKSUM"
      | (fail) "ret \<noteq> UACPI_STATUS_OK" "ret \<noteq> UACPI_STATUS_BAD_CHECKSUM" by blast
    then show ?thesis
    proof cases
      case ok
      let ?out = "\<lparr>t_ptr = it_ptr (get_tbl sl t), t_index = idx\<rparr>"
      have r: "ctx' = ctx\<lparr>ctx_out_table := Some ?out, ctx_status := UACPI_STATUS_OK\<rparr>" "s' = t"
        using Cons.prems(4,5) sl g hit ref ok by (auto simp: invalid_entry_def do_search_hit)
      have "idx # idxs = [] @ idx # idxs" by simp
      moreover have "t_ptr ?out = it_ptr (entry t idx)" "t_ptr ?out \<noteq> 0" "reference_count (entry t idx) \<noteq> 0"
        using e(2) [OF ok] se(1) by simp_all
      ultimately have "\<exists>pre i post tb. idx # idxs = pre @ i # post \<and> Some ?out = Some tb \<and> t_index tb = i
             \<and> id_matches ident (it_hdr (entry s i)) \<and> \<not> invalid_entry s i
             \<and> t_ptr tb = it_ptr (entry t i) \<and> t_ptr tb \<noteq> 0 \<and> reference_count (entry t i) \<noteq> 0
             \<and> (\<forall>j \<in> set pre. id_matches ident (it_hdr (entry s j)) \<longrightarrow> invalid_entry t j)"
        using hit by (intro exI [of _ "[]"] exI [of _ idx] exI [of _ idxs] exI [of _ ?out]) simp
      then show ?thesis using t se(2) by (simp add: searched_def r)
    next
      case bad
      then have "for_each_from idxs (do_search_tables A) (ctx, t) = (ctx', s')"
        using Cons.prems(4,5) sl g hit ref by (simp add: invalid_entry_def do_search_hit)
      moreover have "invalid_entry t idx" using e(3) [OF bad] se(1) by (simp add: invalid_entry_def)
      ultimately show ?thesis using step t se(2) by blast
    next
      case fail
      then have r: "ctx' = ctx\<lparr>ctx_status := ret\<rparr>" "s' = t"
        using Cons.prems(4,5) sl g hit ref by (auto simp: invalid_entry_def do_search_hit)
      have "ret \<noteq> UACPI_STATUS_NOT_FOUND" using table_ref_status [of A sl s] ref by simp
      then show ?thesis using fail t se(2) by (simp add: searched_def r)
    qed
  qed
qed


lemma id_matches_no_ids [simp]:
  "id_matches (no_ids signature) hdr \<longleftrightarrow> uacpi_signatures_match signature (h_signature hdr)"
  by (simp add: id_matches_def no_ids_def)

lemma find_table_searched:
  assumes "tables_wf s" and "early_table_access s" and "find_table A base ident s = ((ret, out), s')"
  shows "\<exists>ctx'. searched ident [base..<darray_size (tables s)] ctx' s s'
      \<and> ret = ctx_status ctx' \<and> out = ctx_out_table ctx'"
proof -
  let ?ctx = "\<lparr>ctx_search = SEARCH_TYPE_BY_ID ident, ctx_out_table = None, ctx_status = UACPI_STATUS_NOT_FOUND\<rparr>"
  obtain ctx' t where run: "for_each_from [base..<darray_size (tables s)] (do_search_tables A) (?ctx, s) = (ctx', t)"
    by fastforce
  then have "s' = t" "ret = ctx_status ctx'" "out = ctx_out_table ctx'"
    using assms(2,3) by (auto simp: find_table_def uacpi_for_each_table_def)
  moreover have "searched ident [base..<darray_size (tables s)] ctx' s t"
    by (rule search_effect [OF assms(1) _ _ run]) simp_all
  ultimately show ?thesis by blast
qed

section \<open>Concrete tables for the examples\<close>

text \<open>
  A host whose memory is mapped as it is, and a store with a few entries of a given
  signature, as a firmware would have them installed.
\<close>

definition direct_host :: "mem host_api" where
  "direct_host = \<lparr>host_map = (\<lambda>a n m. (a, m)), host_unmap = (\<lambda>a n m. m), host_mem = (\<lambda>m. m),
     host_get_rsdp = (\<lambda>m. ((UACPI_STATUS_OK, 0x1000), m))\<rparr>"

definition example_entry :: "string \<Rightarrow> u64 \<Rightarrow> u8 \<Rightarrow> uacpi_installed_table" where
  "example_entry signature a fl =
     \<lparr>phys_addr = a, it_hdr = (read_hdr (\<lambda>_. 0) 0)\<lparr>h_signature := sig signature, h_length := 36\<rparr>,
      it_ptr = 0, reference_count = 0, it_flags = fl, it_origin = FIRMWARE_PHYSICAL\<rparr>"

definition example_store :: "uacpi_installed_table list \<Rightarrow> mem tables_state" where
  "example_store es =
     \<lparr>hst = (\<lambda>_. 0), tables = \<lparr>inline_storage = es, dynamic_storage = [], dynamic_capacity = 0,
        size_including_inline = length es\<rparr>,
      early_table_access = True, installation_handler = None, rt_fadt = replicate fadt_size 0,
      rt_flags = 0, is_hardware_reduced = False, is_rev1 = True\<rparr>"

lemma example_wf: "list_all table_inv es \<Longrightarrow> tables_wf (example_store es)"
  by (simp add: tables_wf_def example_store_def darray_inv_def darray_capacity_def
      darray_inline_capacity_def contents_def)

section \<open>Properties\<close>

text \<open>C5: what \<open>uacpi_table_find_by_signature\<close> promises, whatever the host does.  When it
  returns success, the table it hands out is an installed one with the requested signature
  that was not marked invalid, it is mapped and counted as referenced, and every earlier
  entry with that signature has been found (or was) invalid; when it returns
  \<open>UACPI_STATUS_NOT_FOUND\<close>, nothing is handed out and every entry with that signature is
  invalid.  Headers, number and order of the entries never change.\<close>

theorem find_by_signature_result:
  assumes "tables_wf s" and "early_table_access s"
    and "uacpi_table_find_by_signature A signature s = ((ret, out), s')"
  shows "tables_wf s' \<and> same_shape s s'
     \<and> (ret = UACPI_STATUS_OK \<longrightarrow>
          (\<exists>t. out = Some t \<and> t_index t < darray_size (tables s)
             \<and> uacpi_signatures_match signature (h_signature (it_hdr (entry s (t_index t))))
             \<and> \<not> invalid_entry s (t_index t)
             \<and> t_ptr t = it_ptr (entry s' (t_index t)) \<and> t_ptr t \<noteq> 0
             \<and> reference_count (entry s' (t_index t)) \<noteq> 0
             \<and> (\<forall>j < t_index t. uacpi_signatures_match signature (h_signature (it_hdr (entry s j)))
                    \<longrightarrow> invalid_entry s' j)))
     \<and> (ret = UACPI_STATUS_NOT_FOUND \<longrightarrow> out = None
          \<and> (\<forall>j < darray_size (tables s).
                uacpi_signatures_match signature (h_signature (it_hdr (entry s j))) \<longrightarrow> invalid_entry s' j))"
proof -
  let ?n = "darray_size (tables s)"
  have four: "uacpi_signatures_match (take 4 signature) x \<longleftrightarrow> uacpi_signatures_match signature x" for x
    by (simp add: uacpi_signatures_match_def)
  from assms(2,3) have "find_table A 0 (no_ids (take 4 signature)) s = ((ret, out), s')"
    by (simp add: uacpi_table_find_by_signature_def)
  from find_table_searched [OF assms(1,2) this] obtain ctx' where
    c: "searched (no_ids (take 4 signature)) [0..<?n] ctx' s s'" "ret = ctx_status ctx'" "out = ctx_out_table ctx'"
    by blast
  have "\<exists>t. out = Some t \<and> t_index t < ?n
             \<and> uacpi_signatures_match signature (h_signature (it_hdr (entry s (t_index t))))
             \<and> \<not> invalid_entry s (t_index t)
             \<and> t_ptr t = it_ptr (entry s' (t_index t)) \<and> t_ptr t \<noteq> 0
             \<and> reference_count (entry s' (t_index t)) \<noteq> 0
             \<and> (\<forall>j < t_index t. uacpi_signatures_match signature (h_signature (it_hdr (entry s j)))
                    \<longrightarrow> invalid_entry s' j)" if "ret = UACPI_STATUS_OK"
  proof -
    from c that obtain pre i post t where
      r: "[0..<?n] = pre @ i # post" "out = Some t" "t_index t = i"
         "uacpi_signatures_match signature (h_signature (it_hdr (entry s i)))" "\<not> invalid_entry s i"
         "t_ptr t = it_ptr (entry s' i)" "t_ptr t \<noteq> 0" "reference_count (entry s' i) \<noteq> 0"
         "\<forall>j \<in> set pre. uacpi_signatures_match signature (h_signature (it_hdr (entry s j))) \<longrightarrow> invalid_entry s' j"
      unfolding searched_def id_matches_no_ids four by blast
    have "length [0..<?n] = length (pre @ i # post)" using r(1) by (rule arg_cong)
    then have len: "length pre < ?n" by simp
    have "i = [0..<?n] ! length pre" using r(1) by (metis nth_append_length)
    then have i: "i = length pre" using len by simp
    have "pre = take i [0..<?n]" using r(1) i by (metis append_eq_conv_conj)
    then have "pre = [0..<i]" using len i by (simp add: take_upt)
    then have "\<forall>j < i. uacpi_signatures_match signature (h_signature (it_hdr (entry s j))) \<longrightarrow> invalid_entry s' j"
      using r(9) by simp
    moreover have "i < ?n" using i len by simp
    ultimately show ?thesis
      using r(2,4-8) unfolding r(3) [symmetric] by blast
  qed
  with c four show ?thesis by (auto simp: searched_def)
qed

theorem find_by_signature_result_witness:
  "fst (uacpi_table_find_by_signature direct_host (sig ''HPET'')
      (example_store [example_entry ''FACP'' 0x3000 0, example_entry ''HPET'' 0x4000 0]))
   = (UACPI_STATUS_OK, Some \<lparr>t_ptr = 0x4000, t_index = 1\<rparr>)
   \<and> reference_count (entry (snd (uacpi_table_find_by_signature direct_host (sig ''HPET'')
      (example_store [example_entry ''FACP'' 0x3000 0, example_entry ''HPET'' 0x4000 0]))) 1) \<noteq> 0"
proof -
  let ?s = "example_store [example_entry ''FACP'' 0x3000 0, example_entry ''HPET'' 0x4000 0]"
  have wf: "tables_wf ?s"
    by (rule example_wf) (simp add: table_inv_def example_entry_def is_physical_def)
  have early: "early_table_access ?s" by (simp add: example_store_def)
  obtain ret out s' where run: "uacpi_table_find_by_signature direct_host (sig ''HPET'') ?s = ((ret, out), s')"
    by (metis prod.exhaust)
  moreover from run have "ret = UACPI_STATUS_OK" "out = Some \<lparr>t_ptr = 0x4000, t_index = 1\<rparr>"
    by (simp_all add: uacpi_table_find_by_signature_def find_table_def uacpi_for_each_table_def
        example_store_def example_entry_def direct_host_def darray_size_def darray_at_def
        darray_inline_capacity_def do_search_tables_def id_matches_no_ids uacpi_signatures_match_def
        sig_def get_tbl_def darray_get_def table_ref_unlocked_def is_physical_def table_bytes_def
        uacpi_verify_table_checksum_def uacpi_check_flag_def UACPI_FLAG_BAD_CSUM_FATAL_def
        put_tbl_def darray_put_def count_reference_def upt_rec)
  ultimately show ?thesis using find_by_signature_result [OF wf early run] by simp
qed


text \<open>C6: the references of a table.  From a referenced entry, any sequence of
  \<open>table_ref_unlocked\<close> and \<open>table_unref_unlocked\<close> that keeps the count strictly between
  0 and 0xFFFF adds up exactly and never loses the mapping; once the count has reached
  0xFFFF it stays there whatever follows, so a table with too many references is mapped for
  good.\<close>

theorem table_references_add_up:
  assumes "tables_wf s" and "darray_at idx (tables s) = Some sl"
    and "within 0xFFFF (int (unat (reference_count (get_tbl sl s)))) ops
         \<or> reference_count (get_tbl sl s) = 0xFFFF"
    and "s' = run_refs (\<lambda>s. snd (table_ref_unlocked A sl s)) (\<lambda>s. snd (table_unref_unlocked A sl s)) ops s"
  shows "unat (reference_count (get_tbl sl s')) =
           (if reference_count (get_tbl sl s) = 0xFFFF then 0xFFFF
            else nat (int (unat (reference_count (get_tbl sl s))) + balance ops))
       \<and> (reference_count (get_tbl sl s') \<noteq> 0 \<longrightarrow> it_ptr (get_tbl sl s') \<noteq> 0)"
proof -
  have inv: "tables_wf s \<and> darray_at idx (tables s) = Some sl" using assms(1,2) by simp
  have main: "unat (reference_count (get_tbl sl s')) =
           (if reference_count (get_tbl sl s) = 0xFFFF then 0xFFFF
            else nat (int (unat (reference_count (get_tbl sl s))) + balance ops))
       \<and> tables_wf s' \<and> darray_at idx (tables s') = Some sl"
  proof (cases "reference_count (get_tbl sl s) = 0xFFFF")
    case True
    then show ?thesis
      using table_refs.saturated_stays [OF inv, where A = A and ops = ops] inv
      unfolding assms(4) by simp
  next
    case False
    with assms(3) have "within (int 0xFFFF) (int (unat (reference_count (get_tbl sl s)))) ops" by simp
    from table_refs.run_balance [OF inv this, where A = A] False show ?thesis
      unfolding assms(4) by (metis nat_int)
  qed
  then show ?thesis using entry_at(3) [of s' idx sl] by (auto simp: table_inv_def)
qed

theorem table_references_add_up_witness:
  "unat (reference_count (get_tbl (Inline 0) (run_refs
      (\<lambda>s. snd (table_ref_unlocked direct_host (Inline 0) s))
      (\<lambda>s. snd (table_unref_unlocked direct_host (Inline 0) s)) [Get, Get, Put]
      (example_store [(example_entry ''SSDT'' 0x3000 0)\<lparr>reference_count := 2, it_ptr := 0x3000\<rparr>])))) = 3"
proof -
  let ?s = "example_store [(example_entry ''SSDT'' 0x3000 0)\<lparr>reference_count := 2, it_ptr := 0x3000\<rparr>]"
  have "tables_wf ?s"
    by (rule example_wf) (simp add: table_inv_def example_entry_def)
  moreover have "darray_at 0 (tables ?s) = Some (Inline 0)" "reference_count (get_tbl (Inline 0) ?s) = 2"
    by (simp_all add: example_store_def darray_at_def darray_inline_capacity_def get_tbl_def darray_get_def)
  ultimately show ?thesis
    using table_references_add_up [of ?s 0 "Inline 0" "[Get, Get, Put]" _ direct_host, OF _ _ _ refl] by simp
qed

text \<open>The checks of a table.  The checksum of a table is accepted exactly when the bytes
  add up to zero modulo 256, or when the flag that makes a bad checksum fatal is clear; the
  signature likewise.\<close>

lemma table_checks_decide:
  "(uacpi_verify_table_checksum A a n s = UACPI_STATUS_OK)
     = (if bit (rt_flags s) 0
        then (\<Sum>b\<leftarrow>read_bytes (host_mem A (hst s)) a (unat n). unat b) mod 256 = 0 else True)
   \<and> (uacpi_check_table_signature sg e s = UACPI_STATUS_OK)
     = (if bit (rt_flags s) 1 then take 4 sg = take 4 e else True)"
proof -
  have sum: "fold (\<lambda>i c. c + m (a + of_nat i)) [0..<k] c0
      = c0 + of_nat (\<Sum>b\<leftarrow>read_bytes m a k. unat b)" for k and c0 :: u8 and m
    by (induction k) (simp_all add: read_bytes_def add.assoc)
  have zero: "(of_nat k :: u8) = 0 \<longleftrightarrow> k mod 256 = 0" for k
    using unat_of_nat [where 'a = 8, of k] by (simp add: word_unat_eq_iff)
  have csum: "table_checksum m a n = 0 \<longleftrightarrow> (\<Sum>b\<leftarrow>read_bytes m a (unat n). unat b) mod 256 = 0" for m
    unfolding table_checksum_def sum using zero by simp
  have flag0: "uacpi_check_flag UACPI_FLAG_BAD_CSUM_FATAL s \<longleftrightarrow> bit (rt_flags s) 0"
    by (auto simp: uacpi_check_flag_def UACPI_FLAG_BAD_CSUM_FATAL_def and_one_eq bit_0 odd_iff_mod_2_eq_one)
  have flag1: "uacpi_check_flag UACPI_FLAG_BAD_TBL_SIGNATURE_FATAL s \<longleftrightarrow> bit (rt_flags s) 1"
  proof -
    have "rt_flags s AND push_bit 1 1 = (if bit (rt_flags s) 1 then push_bit 1 1 else 0)"
      by (rule bit_word_eqI) (auto simp: bit_simps)
    then show ?thesis by (simp add: uacpi_check_flag_def UACPI_FLAG_BAD_TBL_SIGNATURE_FATAL_def)
  qed
  show ?thesis
    unfolding uacpi_verify_table_checksum_def uacpi_check_table_signature_def csum flag0 flag1
      uacpi_signatures_match_def by simp
qed

end
