(* ===== verification/Table_Install.thy ===== *)
theory Table_Install
  imports Table_Properties
begin

text \<open>
  Installation of tables: what it keeps of the store, when it returns, how it treats the
  decisions of the host, and what becomes of the fixed description table.
\<close>

section \<open>Installing only adds entries\<close>

definition handler_ok :: "'h tables_state \<Rightarrow> bool" where
  "handler_ok s \<longleftrightarrow> (\<forall>handler v m a. installation_handler s = Some handler \<longrightarrow>
     handler v m = (VIRTUAL_OVERRIDE, a) \<longrightarrow> a \<noteq> 0)"

definition extends :: "'h tables_state \<Rightarrow> 'h tables_state \<Rightarrow> bool" where
  "extends s s' \<longleftrightarrow> tables_wf s'
     \<and> darray_capacity (tables s') = darray_capacity (tables s)
     \<and> early_table_access s' = early_table_access s \<and> rt_flags s' = rt_flags s
     \<and> installation_handler s' = installation_handler s
     \<and> (\<exists>new. contents (tables s') = contents (tables s) @ new)"

lemma extends_refl: "tables_wf s \<Longrightarrow> extends s s"
  by (simp add: extends_def)

lemma extends_trans: "extends s t \<Longrightarrow> extends t u \<Longrightarrow> extends s u"
  by (auto simp: extends_def)

lemma extends_frame [simp]:
  "extends s (t\<lparr>hst := h\<rparr>) \<longleftrightarrow> extends s t" "extends s (t\<lparr>rt_fadt := f\<rparr>) \<longleftrightarrow> extends s t"
  "extends s (t\<lparr>is_rev1 := b\<rparr>) \<longleftrightarrow> extends s t"
  "extends (s\<lparr>hst := h\<rparr>) t \<longleftrightarrow> extends s t" "extends (s\<lparr>rt_fadt := f\<rparr>) t \<longleftrightarrow> extends s t"
  "extends (s\<lparr>is_rev1 := b\<rparr>) t \<longleftrightarrow> extends s t"
  "tables_wf (s\<lparr>rt_fadt := f\<rparr>) \<longleftrightarrow> tables_wf s" "tables_wf (s\<lparr>is_rev1 := b\<rparr>) \<longleftrightarrow> tables_wf s"
  "handler_ok (s\<lparr>hst := h\<rparr>) \<longleftrightarrow> handler_ok s" "handler_ok (s\<lparr>rt_fadt := f\<rparr>) \<longleftrightarrow> handler_ok s"
  by (simp_all add: extends_def tables_wf_def handler_ok_def)

lemma extends_wf: "extends s s' \<Longrightarrow> tables_wf s'"
  by (simp add: extends_def)


definition good_install :: "'h install \<Rightarrow> bool" where
  "good_install f \<longleftrightarrow> (\<forall>phys orig e want s r s'. tables_wf s \<longrightarrow> handler_ok s \<longrightarrow> is_physical orig \<longrightarrow>
     f phys orig e want s = Some (r, s') \<longrightarrow> extends s s')"

lemma good_installD:
  "good_install f \<Longrightarrow> f phys orig e want s = Some (r, s') \<Longrightarrow> tables_wf s \<Longrightarrow> handler_ok s \<Longrightarrow>
   is_physical orig \<Longrightarrow> extends s s'"
  unfolding good_install_def by blast

lemma physical_origins [simp]: "is_physical FIRMWARE_PHYSICAL" "is_physical HOST_PHYSICAL"
  "\<not> is_physical HOST_VIRTUAL"
  by (simp_all add: is_physical_def)

lemma initialize_fadt_extends:
  assumes "good_install rec" and "tables_wf s" and "handler_ok s"
    and "initialize_fadt A rec virt s = Some (ret, s')"
  shows "extends s s'"
proof -
  let ?f = "merge_dsdt (clear_reserved_fields (fadt_ensure_correct_revision
      (copy_fadt (host_mem A (hst s)) virt (rt_fadt s))))"
  let ?s = "s\<lparr>rt_fadt := ?f\<rparr>"
  show ?thesis
  proof (cases "fadt_x_dsdt ?f = 0")
    case True
    then show ?thesis
      using assms(2,4) extends_refl [of s] by (auto simp: initialize_fadt_def Let_def)
  next
    case False
    then obtain r t where r: "rec (fadt_x_dsdt ?f) FIRMWARE_PHYSICAL (Some ACPI_DSDT_SIGNATURE) False ?s = Some (r, t)"
      using assms(4) by (auto simp: initialize_fadt_def Let_def split: option.splits)
    then have "extends ?s t"
      using assms(1-3) good_installD by fastforce
    moreover have "s' = t \<or> (\<exists>f. s' = t\<lparr>rt_fadt := f\<rparr>)"
      using assms(4) False r by (auto simp: initialize_fadt_def Let_def split: if_splits prod.splits)
    ultimately show ?thesis by auto
  qed
qed

lemma verify_table_extends:
  assumes "good_install rec" and "tables_wf s" and "handler_ok s"
    and "verify_table A rec hdr phys virt want s = Some (r, s')"
  shows "extends s s'"
proof -
  obtain mapping h where m: "(if virt = 0
      then host_map A phys (ucast (h_length (hdr_of A hdr s))) (hst s) else (virt, hst s)) = (mapping, h)"
    by fastforce
  have fadt: "extends s t" if "initialize_fadt A rec mapping (s\<lparr>hst := h\<rparr>) = Some (q, t)" for q t
    using initialize_fadt_extends [OF assms(1) _ _ that] assms(2,3) by simp
  show ?thesis
    using assms(4) m fadt extends_refl [OF assms(2)]
    by (auto simp: verify_table_def Let_def split: if_splits option.splits)
qed

lemma store_table_extends:
  assumes "tables_wf s" and "is_physical orig \<and> (want \<longrightarrow> virt \<noteq> 0) \<or> virt \<noteq> 0"
    and "store_table A hdr phys virt orig fl want s = (r, s')"
  shows "extends s s'"
proof -
  have inv: "darray_inv (tables s)" using assms(1) by (simp add: tables_wf_def)
  obtain ro arr where al: "darray_alloc (tables s) = (ro, arr)" by fastforce
  let ?rev = "\<lambda>s. if uacpi_signatures_match (h_signature (hdr_of A hdr s)) ACPI_DSDT_SIGNATURE
      then s\<lparr>is_rev1 := h_revision (hdr_of A hdr s) < 2\<rparr> else s"
  have rev: "tables (?rev s) = tables s" "early_table_access (?rev s) = early_table_access s" by simp_all
  have ext: "extends s t" if "extends (?rev s) t" for t using that by (auto split: if_splits)
  have wf: "tables_wf (?rev s)" using assms(1) by simp
  show ?thesis
  proof (cases ro)
    case None
    then have "arr = tables s" using al fixed_array.alloc_fails [OF inv] by simp
    moreover have "t\<lparr>tables := tables t\<rparr> = t" for t :: "'a tables_state" by simp
    ultimately have "s' = ?rev s"
      using assms(3) al None rev by (auto simp: store_table_def table_alloc_def Let_def split: if_splits)
    with ext extends_refl [OF wf] show ?thesis by blast
  next
    case (Some sl)
    have put: "extends (?rev s) (put_tbl sl t ((?rev s)\<lparr>tables := arr\<rparr>))" if "table_inv t" for t
    proof -
      from darray_alloc_put [OF inv, of sl arr t] al Some
      have "contents (darray_put sl t arr) = contents (tables s) @ [t]" "darray_inv (darray_put sl t arr)"
        "darray_capacity (darray_put sl t arr) = darray_capacity (tables s)" by auto
      with assms(1) that show ?thesis by (auto simp: extends_def put_tbl_def tables_wf_def)
    qed
    consider "s' = ?rev s" | t where "table_inv t" "s' = put_tbl sl t ((?rev s)\<lparr>tables := arr\<rparr>)"
    proof -
      let ?t = "\<lparr>phys_addr = phys, it_hdr = hdr_of A hdr ((?rev s)\<lparr>tables := arr\<rparr>), it_ptr = virt,
          reference_count = 0, it_flags = fl, it_origin = orig\<rparr>"
      have t: "table_inv (if want then ?t\<lparr>reference_count := 1\<rparr> else ?t)"
        using assms(2) by (auto simp: table_inv_def)
      have "s' = ?rev s \<or> s' = put_tbl sl (if want then ?t\<lparr>reference_count := 1\<rparr> else ?t) ((?rev s)\<lparr>tables := arr\<rparr>)"
        using assms(3) al Some rev
        by (cases "early_table_access s \<and> darray_size (tables s) = darray_capacity (tables s)"; cases want)
          (auto simp: store_table_def table_alloc_def Let_def hdr_of_def split: hdr_ref.splits)
      with that t show thesis by blast
    qed
    then show ?thesis using ext put extends_refl [OF wf] by cases auto
  qed
qed


lemma verify_and_install_extends:
  assumes "good_install rec" and "tables_wf s" and "handler_ok s"
    and "is_physical orig \<and> (want \<longrightarrow> virt \<noteq> 0) \<or> virt \<noteq> 0"
    and "verify_and_install_table A rec hdr phys virt orig want s = Some (r, s')"
  shows "extends s s'"
proof -
  obtain ret fl t where v: "verify_table A rec hdr phys virt want s = Some ((ret, fl), t)"
    using assms(5) by (auto simp: verify_and_install_table_def split: option.splits)
  note e = verify_table_extends [OF assms(1-3) v]
  show ?thesis
  proof (cases "ret = UACPI_STATUS_OK")
    case True
    with assms(5) v have "store_table A hdr phys virt orig fl want t = (r, s')"
      by (simp add: verify_and_install_table_def)
    from store_table_extends [OF extends_wf [OF e] assms(4) this] e show ?thesis
      by (rule extends_trans [rotated])
  next
    case False
    with assms(5) v e show ?thesis by (simp add: verify_and_install_table_def)
  qed
qed

lemma install_virtual_extends:
  assumes "good_install rec" and "tables_wf s" and "handler_ok s" and "virt \<noteq> 0"
    and "table_install_with_origin_unlocked A rec virt orig want s = Some (r, s')"
  shows "extends s s'"
proof (cases "h_length (hdr_of A (At_address virt) s) < of_nat sdt_hdr_size")
  case True
  with assms extends_refl [OF assms(2)] show ?thesis by (auto simp: table_install_with_origin_unlocked_def)
next
  case False
  with assms(5) have "verify_and_install_table A rec (At_address virt) 0 virt orig want s = Some (r, s')"
    by (simp add: table_install_with_origin_unlocked_def)
  from verify_and_install_extends [OF assms(1-3) _ this] assms(4) show ?thesis by simp
qed

lemma override_extends:
  assumes "good_install rec" and "tables_wf s" and "handler_ok s"
    and "disposition = VIRTUAL_OVERRIDE \<Longrightarrow> a \<noteq> 0"
    and "handle_table_override A rec disposition a want s = Some (r, s')"
  shows "extends s s'"
proof (cases disposition)
  case VIRTUAL_OVERRIDE
  with assms(4,5) install_virtual_extends [OF assms(1-3)] show ?thesis
    by (simp add: handle_table_override_def)
next
  case PHYSICAL_OVERRIDE
  with assms(5) have "rec a HOST_PHYSICAL None want s = Some (r, s')" by (simp add: handle_table_override_def)
  from good_installD [OF assms(1) this assms(2,3)] show ?thesis by simp
qed (use assms(5) extends_refl [OF assms(2)] in \<open>auto simp: handle_table_override_def\<close>)

lemma install_mapped_extends:
  assumes good: "good_install rec" and wf: "tables_wf s" and ok: "handler_ok s" and phys: "is_physical orig"
    and virt: "want \<longrightarrow> virt \<noteq> 0"
    and run: "install_mapped A rec hdr p virt orig want s = Some (r, s')"
  shows "extends s s'"
proof -
  obtain d a where da: "(case installation_handler s of
       Some handler \<Rightarrow> if orig = FIRMWARE_PHYSICAL then handler virt (host_mem A (hst s)) else (ALLOW, 0)
     | None \<Rightarrow> (ALLOW, 0)) = (d, a)" by fastforce
  have a: "d = VIRTUAL_OVERRIDE \<Longrightarrow> a \<noteq> 0"
    using da ok by (auto simp: handler_ok_def split: option.splits if_splits)
  consider "d = ALLOW" | "d = DENY" | "d \<noteq> ALLOW" "d \<noteq> DENY" by blast
  then show ?thesis
  proof cases
    case 1
    with run da have "verify_and_install_table A rec (Copied hdr) p virt orig want s = Some (r, s')"
      by (simp add: install_mapped_def Let_def)
    from verify_and_install_extends [OF good wf ok _ this] phys virt show ?thesis by blast
  next
    case 2
    with run da extends_refl [OF wf] show ?thesis by (auto simp: install_mapped_def Let_def)
  next
    case 3
    with run da obtain q where "handle_table_override A rec d a want s = Some (q, s')"
      by (auto simp: install_mapped_def Let_def split: option.splits)
    from override_extends [OF good wf ok a this] show ?thesis .
  qed
qed

lemma out_label_extends:
  assumes "extends s t" and "out_label A virt hdr want (r, t) = (r', s')"
  shows "extends s s'"
  using assms by (cases r) (auto simp: out_label_def split: if_splits)

text \<open>The header is read through a mapping of its own, which only the host sees.\<close>

lemma header_state:
  assumes "get_external_table_header A p s = (q, t)"
  shows "\<exists>h. t = s\<lparr>hst := h\<rparr>"
proof (cases "host_map A p (of_nat sdt_hdr_size) (hst s)")
  case (Pair virt h)
  with assms show ?thesis
    by (cases "virt = 0") (auto simp: get_external_table_header_def Let_def)
qed

lemma install_body_cases:
  assumes "install_physical_body A rec p orig e want s = Some (r, s')"
  obtains h where "s' = s\<lparr>hst := h\<rparr>"
  | hdr virt h w v where "install_mapped A rec hdr p virt orig want (s\<lparr>hst := h\<rparr>) = Some (w, v)"
      "out_label A virt hdr want (w, v) = (r, s')" "want \<longrightarrow> virt \<noteq> 0"
proof -
  obtain ret ho t where hd: "get_external_table_header A p s = ((ret, ho), t)" by (metis prod.exhaust)
  obtain h0 where t: "t = s\<lparr>hst := h0\<rparr>" using header_state [OF hd] by blast
  show thesis
  proof (cases ho)
    case None
    with assms hd have "s' = t" by (simp add: install_physical_body_def)
    with that(1) t show thesis by blast
  next
    case (Some hdr)
    let ?ret = "case e of None \<Rightarrow> UACPI_STATUS_OK | Some e \<Rightarrow> uacpi_check_table_signature (h_signature hdr) e t"
    let ?need = "installation_handler t \<noteq> None \<or> want"
    obtain virt h where m: "(if ?need then host_map A p (ucast (h_length hdr)) (hst t) else (0, hst t)) = (virt, h)"
      by fastforce
    consider "?ret \<noteq> UACPI_STATUS_OK" | "?ret = UACPI_STATUS_OK" "?need \<and> virt = 0"
      | "?ret = UACPI_STATUS_OK" "\<not> (?need \<and> virt = 0)" by blast
    then show thesis
    proof cases
      case 1
      with assms hd Some have "s' = t" by (simp add: install_physical_body_def Let_def)
      with that(1) t show thesis by blast
    next
      case 2
      with assms hd Some m have "s' = t\<lparr>hst := h\<rparr>" by (simp add: install_physical_body_def Let_def)
      with that(1) t show thesis by simp
    next
      case 3
      with assms hd Some m
      have "map_option (out_label A virt hdr want) (install_mapped A rec hdr p virt orig want (t\<lparr>hst := h\<rparr>)) = Some (r, s')"
        by (simp add: install_physical_body_def Let_def split: if_splits)
      then obtain w v where "install_mapped A rec hdr p virt orig want (t\<lparr>hst := h\<rparr>) = Some (w, v)"
        "out_label A virt hdr want (w, v) = (r, s')" by auto
      moreover have "t\<lparr>hst := h\<rparr> = s\<lparr>hst := h\<rparr>" using t by simp
      moreover have "want \<longrightarrow> virt \<noteq> 0" using 3 by auto
      ultimately show thesis using that(2) by metis
    qed
  qed
qed

lemma install_body_extends:
  assumes good: "good_install rec" and wf: "tables_wf s" and ok: "handler_ok s" and phys: "is_physical orig"
    and run: "install_physical_body A rec p orig e want s = Some (r, s')"
  shows "extends s s'"
  using run
proof (cases rule: install_body_cases)
  case (1 h)
  with extends_refl [OF wf] show ?thesis by simp
next
  case (2 hdr virt h w v)
  from install_mapped_extends [OF good _ _ phys 2(3,1)] wf ok have "extends s v" by simp
  from out_label_extends [OF this 2(2)] show ?thesis .
qed

lemma install_extends: "good_install (table_install_physical_with_origin_unlocked fuel A)"
proof (induction fuel)
  case 0
  then show ?case by (simp add: good_install_def)
next
  case (Suc fuel)
  then show ?case using install_body_extends [OF Suc] unfolding good_install_def by simp
qed

section \<open>The fixed description table\<close>

text \<open>Where the fields are.\<close>

lemma fadt_offsets [simp]:
  "fadt_offset ''pm1a_evt_blk'' = 56"
  "fadt_offset ''pm1b_evt_blk'' = 60"
  "fadt_offset ''pm1a_cnt_blk'' = 64"
  "fadt_offset ''pm1b_cnt_blk'' = 68"
  "fadt_offset ''pm2_cnt_blk'' = 72"
  "fadt_offset ''pm_tmr_blk'' = 76"
  "fadt_offset ''gpe0_blk'' = 80"
  "fadt_offset ''gpe1_blk'' = 84"
  "fadt_offset ''pm1_evt_len'' = 88"
  "fadt_offset ''pm1_cnt_len'' = 89"
  "fadt_offset ''pm2_cnt_len'' = 90"
  "fadt_offset ''pm_tmr_len'' = 91"
  "fadt_offset ''gpe0_blk_len'' = 92"
  "fadt_offset ''gpe1_blk_len'' = 93"
  "fadt_offset ''x_pm1a_evt_blk'' = 148"
  "fadt_offset ''x_pm1b_evt_blk'' = 160"
  "fadt_offset ''x_pm1a_cnt_blk'' = 172"
  "fadt_offset ''x_pm1b_cnt_blk'' = 184"
  "fadt_offset ''x_pm2_cnt_blk'' = 196"
  "fadt_offset ''x_pm_tmr_blk'' = 208"
  "fadt_offset ''x_gpe0_blk'' = 220"
  "fadt_offset ''x_gpe1_blk'' = 232"
  "fadt_offset ''preferred_pm_profile'' = 45"
  "fadt_offset ''pstate_cnt'' = 55"
  "fadt_offset ''cst_cnt'' = 95"
  "fadt_offset ''iapc_boot_arch'' = 109"
  "fadt_offset ''x_dsdt'' = 140"
  "fadt_offset ''dsdt'' = 40"
  "fadt_offset ''firmware_ctrl'' = 36"
  "fadt_offset ''x_firmware_ctrl'' = 132"
  by code_simp+

lemma get_put_other:
  assumes "i + k \<le> off \<or> off + n \<le> i" and "off + n \<le> length bs"
  shows "get_le i k (put_le off n v bs) = get_le i k bs"
  using assms get_put_before [of i k off bs n v] get_put_after [of off n i bs k v] by linarith

lemma length_put_gas [simp]: "off + 12 \<le> length bs \<Longrightarrow> length (put_gas off g bs) = length bs"
  by (simp add: put_gas_def)

lemma get_put_gas_other:
  assumes "i + k \<le> off \<or> off + 12 \<le> i" and "off + 12 \<le> length bs"
  shows "get_le i k (put_gas off g bs) = get_le i k bs"
  using assms by (elim disjE) (simp_all add: put_gas_def get_put_other)

lemma ucast_ucast_8: "ucast ((ucast (b :: u8) :: u64) AND mask 8) = b"
  by (rule bit_word_eqI) (simp add: bit_simps)

lemma get_put_gas:
  assumes "off + 12 \<le> length bs"
  shows "get_gas off (put_gas off g bs) = g"
proof -
  have m: "(w :: u64) AND mask 64 = w" for w
    by (rule bit_word_eqI) (simp add: bit_simps)
  have "get_le (off + 4) 8 (put_gas off g bs) = gas_address g"
    using assms by (simp add: put_gas_def get_put_same m)
  moreover have "get_le (off + 3) 1 (put_gas off g bs) = ucast (access_size g) AND mask 8"
    using assms by (simp add: put_gas_def get_put_same get_put_other)
  moreover have "get_le (off + 2) 1 (put_gas off g bs) = ucast (register_bit_offset g) AND mask 8"
    using assms by (simp add: put_gas_def get_put_same get_put_other)
  moreover have "get_le (off + 1) 1 (put_gas off g bs) = ucast (register_bit_width g) AND mask 8"
    using assms by (simp add: put_gas_def get_put_same get_put_other)
  moreover have "get_le off 1 (put_gas off g bs) = ucast (address_space_id g) AND mask 8"
    using assms by (simp add: put_gas_def get_put_same get_put_other)
  ultimately show ?thesis by (simp add: get_gas_def ucast_ucast_8)
qed

lemma get_gas_cong:
  assumes "\<And>i k. off \<le> i \<Longrightarrow> i + k \<le> off + 12 \<Longrightarrow> get_le i k f = get_le i k g"
  shows "get_gas off f = get_gas off g"
  using assms [of off 1] assms [of "off + 1" 1] assms [of "off + 2" 1] assms [of "off + 3" 1]
    assms [of "off + 4" 8]
  by (simp add: get_gas_def)

text \<open>One register: the extended block it ends up with.\<close>

definition register_gas :: "string \<times> string \<times> string \<Rightarrow> u8 list \<Rightarrow> acpi_gas" where
  "register_gas desc f =
     (case desc of (off, xoff, len) \<Rightarrow>
        if gas_address (get_gas (fadt_offset xoff) f) \<noteq> 0 then get_gas (fadt_offset xoff) f
        else gas_init_system_io (get_le (fadt_offset off) 4 f) (ucast (get_le (fadt_offset len) 1 f)))"

definition xregister :: "string \<times> string \<times> string \<Rightarrow> nat" where
  "xregister desc = fadt_offset (fst (snd desc))"

lemma convert_register_own:
  assumes "xregister desc + 12 \<le> length f"
  shows "get_gas (xregister desc) (convert_register desc f) = register_gas desc f"
  using assms by (cases desc) (simp add: convert_register_def register_gas_def xregister_def Let_def get_put_gas)

lemma convert_register_frame:
  assumes "xregister desc + 12 \<le> length f"
  shows "length (convert_register desc f) = length f"
    and "i + k \<le> xregister desc \<or> xregister desc + 12 \<le> i \<Longrightarrow>
         get_le i k (convert_register desc f) = get_le i k f"
  using assms by (cases desc; simp add: convert_register_def xregister_def Let_def get_put_gas_other)+

lemma convert_fold_frame:
  assumes "\<forall>d \<in> set ds. xregister d + 12 \<le> length f \<and> (i + k \<le> xregister d \<or> xregister d + 12 \<le> i)"
  shows "length (fold convert_register ds f) = length f
       \<and> get_le i k (fold convert_register ds f) = get_le i k f"
  using assms
proof (induction ds arbitrary: f)
  case Nil
  then show ?case by simp
next
  case (Cons d ds)
  note frame = convert_register_frame [of d f]
  from Cons.prems frame(1) have "\<forall>d' \<in> set ds. xregister d' + 12 \<le> length (convert_register d f)
      \<and> (i + k \<le> xregister d' \<or> xregister d' + 12 \<le> i)" by simp
  from Cons.IH [OF this] Cons.prems frame show ?case by simp
qed

definition fields_apart :: "nat \<Rightarrow> nat \<Rightarrow> (string \<times> string \<times> string) list \<Rightarrow> bool" where
  "fields_apart i k ds \<longleftrightarrow> list_all (\<lambda>d. i + k \<le> xregister d \<or> xregister d + 12 \<le> i) ds"

text \<open>The legacy fields lie before all extended blocks, and the blocks do not overlap.\<close>

lemma fadt_registers_apart:
  assumes "fadt_registers = ds @ (off, xoff, len) # es"
  shows "fields_apart (fadt_offset off) 4 fadt_registers \<and> fields_apart (fadt_offset len) 1 fadt_registers
       \<and> fields_apart (fadt_offset xoff) 12 (ds @ es)
       \<and> list_all (\<lambda>d. xregister d + 12 \<le> 276) fadt_registers"
proof -
  from assms show ?thesis
    unfolding fadt_registers_def
    by (auto simp: Cons_eq_append_conv fields_apart_def xregister_def)
qed

lemma get_gas_apart:
  assumes "fields_apart (xregister d) 12 ds" and "\<forall>d \<in> set ds. xregister d + 12 \<le> length f"
  shows "get_gas (xregister d) (fold convert_register ds f) = get_gas (xregister d) f"
proof (rule get_gas_cong)
  fix i k assume "xregister d \<le> i" "i + k \<le> xregister d + 12"
  then have "\<forall>d' \<in> set ds. xregister d' + 12 \<le> length f \<and> (i + k \<le> xregister d' \<or> xregister d' + 12 \<le> i)"
    using assms by (fastforce simp: fields_apart_def list_all_iff)
  from convert_fold_frame [OF this] show "get_le i k (fold convert_register ds f) = get_le i k f" by simp
qed

lemma convert_registers_gas:
  assumes "length f = fadt_size" and "desc \<in> set fadt_registers"
  shows "get_gas (xregister desc) (convert_registers_to_gas f) = register_gas desc f"
proof -
  obtain off xoff len where desc: "desc = (off, xoff, len)" by (cases desc)
  obtain ds es where split: "fadt_registers = ds @ (off, xoff, len) # es"
    using assms(2) desc by (metis in_set_conv_decomp)
  note ap = fadt_registers_apart [OF split]
  have len: "length f = 276" using assms(1) fadt_size_276 by simp
  have room: "\<forall>d \<in> set fadt_registers. xregister d + 12 \<le> length f"
    using ap len by (simp add: list_all_iff)
  have sub: "set ds \<subseteq> set fadt_registers" "set es \<subseteq> set fadt_registers" unfolding split by auto
  let ?f = "fold convert_register ds f"
  have apd: "fields_apart (fadt_offset off) 4 ds" "fields_apart (fadt_offset len) 1 ds"
    "fields_apart (fadt_offset xoff) 12 ds" "fields_apart (fadt_offset xoff) 12 es"
    using ap sub unfolding fields_apart_def list_all_iff by auto
  have keep: "get_le i k ?f = get_le i k f \<and> length ?f = length f" if "fields_apart i k ds" for i k
    using convert_fold_frame [of ds f i k] that room sub by (fastforce simp: fields_apart_def list_all_iff)
  have x: "xregister desc = fadt_offset xoff" by (simp add: xregister_def desc)
  have own: "get_gas (fadt_offset xoff) ?f = get_gas (fadt_offset xoff) f"
    using get_gas_apart [of desc ds f] apd(3) room sub by (auto simp: x)
  have "get_gas (xregister desc) (convert_registers_to_gas f)
      = get_gas (xregister desc) (fold convert_register es (convert_register desc ?f))"
    by (simp add: convert_registers_to_gas_def split desc)
  also have "\<dots> = get_gas (xregister desc) (convert_register desc ?f)"
  proof (rule get_gas_apart)
    show "fields_apart (xregister desc) 12 es" using apd(4) by (simp add: x)
    have "xregister desc + 12 \<le> length ?f" using room assms(2) keep [OF apd(1)] by auto
    from convert_register_frame(1) [OF this] show "\<forall>d \<in> set es. xregister d + 12 \<le> length (convert_register desc ?f)"
      using room sub keep [OF apd(1)] by auto
  qed
  also have "\<dots> = register_gas desc ?f"
    using room assms(2) keep [OF apd(1)] by (intro convert_register_own) auto
  also have "\<dots> = register_gas desc f"
    using own keep [OF apd(1)] keep [OF apd(2)] by (simp add: register_gas_def desc)
  finally show ?thesis .
qed

section \<open>When an installation returns\<close>

lemma signature_fatal:
  assumes "uacpi_check_flag UACPI_FLAG_BAD_TBL_SIGNATURE_FATAL s"
    and "uacpi_check_table_signature sg ACPI_DSDT_SIGNATURE s = UACPI_STATUS_OK"
  shows "\<not> uacpi_signatures_match sg ACPI_FADT_SIGNATURE"
  using assms
  by (auto simp: uacpi_check_table_signature_def uacpi_signatures_match_def ACPI_DSDT_SIGNATURE_def
      ACPI_FADT_SIGNATURE_def sig_def split: if_splits)

lemma check_flag_frame [simp]:
  "uacpi_check_flag fl (s\<lparr>hst := h\<rparr>) = uacpi_check_flag fl s"
  "uacpi_check_flag fl (s\<lparr>rt_fadt := f\<rparr>) = uacpi_check_flag fl s"
  by (simp_all add: uacpi_check_flag_def)

lemma check_signature_frame [simp]:
  "uacpi_check_table_signature sg e (s\<lparr>hst := h\<rparr>) = uacpi_check_table_signature sg e s"
  by (simp add: uacpi_check_table_signature_def)

text \<open>A table that is not the fixed one installs without a nested install.\<close>

lemma verify_other_returns:
  assumes "\<not> uacpi_signatures_match (h_signature (hdr_of A hdr s)) ACPI_FADT_SIGNATURE"
  shows "verify_table A rec hdr phys virt want s \<noteq> None"
  using assms by (auto simp: verify_table_def Let_def split: prod.splits)

lemma install_mapped_no_handler:
  "installation_handler s = None \<Longrightarrow>
   install_mapped A rec hdr p virt orig want s = verify_and_install_table A rec (Copied hdr) p virt orig want s"
  by (simp add: install_mapped_def)

lemma body_returns:
  assumes nh: "installation_handler s = None"
    and inst: "\<And>hdr virt h. (case e of None \<Rightarrow> UACPI_STATUS_OK
          | Some e \<Rightarrow> uacpi_check_table_signature (h_signature hdr) e s) = UACPI_STATUS_OK \<Longrightarrow>
        verify_table A rec (Copied hdr) p virt want (s\<lparr>hst := h\<rparr>) \<noteq> None"
  shows "install_physical_body A rec p orig e want s \<noteq> None"
proof -
  obtain ret ho t where hd: "get_external_table_header A p s = ((ret, ho), t)" by (metis prod.exhaust)
  obtain h0 where t: "t = s\<lparr>hst := h0\<rparr>" using header_state [OF hd] by blast
  show ?thesis
  proof (cases ho)
    case None
    with hd show ?thesis by (simp add: install_physical_body_def)
  next
    case (Some hdr)
    have ok: "verify_and_install_table A rec (Copied hdr) p virt orig want (s\<lparr>hst := h\<rparr>) \<noteq> None"
      if c: "(case e of None \<Rightarrow> UACPI_STATUS_OK
          | Some e \<Rightarrow> uacpi_check_table_signature (h_signature hdr) e s) = UACPI_STATUS_OK" for virt h
    proof -
      obtain ret fl u where "verify_table A rec (Copied hdr) p virt want (s\<lparr>hst := h\<rparr>) = Some ((ret, fl), u)"
        using inst [OF c, of virt h] by (metis not_None_eq prod.exhaust)
      then have "verify_and_install_table A rec (Copied hdr) p virt orig want (s\<lparr>hst := h\<rparr>)
          = Some (if ret \<noteq> UACPI_STATUS_OK then ((ret, None), u)
                  else store_table A (Copied hdr) p virt orig fl want u)"
        by (simp add: verify_and_install_table_def)
      then show ?thesis by (simp only: option.distinct not_False_eq_True)
    qed
    show ?thesis
    proof
      assume "install_physical_body A rec p orig e want s = None"
      with hd Some nh t ok show False
        by (auto simp: install_physical_body_def Let_def install_mapped_no_handler
            simp del: not_None_eq split: prod.splits option.splits if_splits)
    qed
  qed
qed

lemma dsdt_install_returns:
  assumes "installation_handler s = None" and "uacpi_check_flag UACPI_FLAG_BAD_TBL_SIGNATURE_FATAL s"
  shows "install_physical_body A rec p orig (Some ACPI_DSDT_SIGNATURE) want s \<noteq> None"
  using assms signature_fatal [OF assms(2)]
  by (intro body_returns verify_other_returns) (auto simp: hdr_of_def)

lemma initialize_fadt_returns:
  assumes "installation_handler s = None" and "uacpi_check_flag UACPI_FLAG_BAD_TBL_SIGNATURE_FATAL s"
  shows "initialize_fadt A (install_physical_body A rec) virt s \<noteq> None"
proof -
  let ?f = "merge_dsdt (clear_reserved_fields (fadt_ensure_correct_revision
      (copy_fadt (host_mem A (hst s)) virt (rt_fadt s))))"
  have "install_physical_body A rec (fadt_x_dsdt ?f) FIRMWARE_PHYSICAL (Some ACPI_DSDT_SIGNATURE) False
      (s\<lparr>rt_fadt := ?f\<rparr>) \<noteq> None"
    using assms by (intro dsdt_install_returns) simp_all
  then show ?thesis
    by (auto simp: initialize_fadt_def Let_def split: option.splits prod.splits)
qed

lemma verify_returns:
  assumes "\<And>m h. initialize_fadt A rec m (s\<lparr>hst := h\<rparr>) \<noteq> None"
  shows "verify_table A rec hdr phys virt want s \<noteq> None"
proof -
  obtain mapping h where m: "(if virt = 0
      then host_map A phys (ucast (h_length (hdr_of A hdr s))) (hst s) else (virt, hst s)) = (mapping, h)"
    by fastforce
  obtain q where "initialize_fadt A rec mapping (s\<lparr>hst := h\<rparr>) = Some q"
    using assms by (metis not_None_eq)
  with m show ?thesis
    by (simp add: verify_table_def Let_def case_prod_beta)
qed

lemma install_two_levels:
  assumes "installation_handler s = None" and "uacpi_check_flag UACPI_FLAG_BAD_TBL_SIGNATURE_FATAL s"
  shows "table_install_physical_with_origin_unlocked (Suc (Suc fuel)) A p orig e want s \<noteq> None"
proof -
  have "verify_table A (install_physical_body A rec) (Copied hdr) p virt want (s\<lparr>hst := h\<rparr>) \<noteq> None"
    for rec hdr virt h
    by (rule verify_returns, rule initialize_fadt_returns) (use assms in simp_all)
  from body_returns [OF assms(1) this] show ?thesis by simp
qed

section \<open>A fixed table that points to itself\<close>

lemma fadt_x_dsdt_after:
  assumes "148 \<le> length f" and "get_le 140 8 f \<noteq> 0"
  shows "fadt_x_dsdt (merge_dsdt (clear_reserved_fields (fadt_ensure_correct_revision f))) = get_le 140 8 f"
proof -
  have len: "length (fadt_ensure_correct_revision f) = length f"
    using assms(1) by (auto simp: fadt_ensure_correct_revision_def Let_def split: option.splits)
  have rev: "get_le 140 8 (fadt_ensure_correct_revision f) = get_le 140 8 f"
    using assms(1) by (auto simp: fadt_ensure_correct_revision_def Let_def get_put_other split: option.splits)
  have "get_le 140 8 (clear_reserved_fields g) = get_le 140 8 g" if "148 \<le> length g" for g
    using that by (simp add: clear_reserved_fields_def get_put_other)
  with len rev assms show ?thesis by (simp add: merge_dsdt_def fadt_x_dsdt_def)
qed

lemma copy_fadt_x_dsdt:
  assumes "148 \<le> unat (h_length (read_hdr m a))" and "length f = fadt_size"
  shows "148 \<le> length (copy_fadt m a f) \<and> get_le 140 8 (copy_fadt m a f) = le_word (read_bytes m (a + 140) 8)"
proof -
  let ?n = "min fadt_size (unat (h_length (read_hdr m a)))"
  have n: "148 \<le> ?n" using assms(1) fadt_size_276 by simp
  have "take 8 (drop 140 (read_bytes m a ?n @ r)) = read_bytes m (a + 140) 8" for r
    using n by (auto simp: list_eq_iff_nth_eq nth_append add.assoc)
  with n assms(2) show ?thesis by (simp add: copy_fadt_def Let_def get_le_def)
qed

lemma direct_host_simps [simp]:
  "host_map direct_host a n m = (a, m)" "host_unmap direct_host a n m = m" "host_mem direct_host m = m"
  by (simp_all add: direct_host_def)

definition self_pointing_fadt :: "mem \<Rightarrow> u64 \<Rightarrow> bool" where
  "self_pointing_fadt m a \<longleftrightarrow> a \<noteq> 0 \<and> read_bytes m a 4 = ACPI_FADT_SIGNATURE
     \<and> 148 \<le> unat (h_length (read_hdr m a)) \<and> le_word (read_bytes m (a + 140) 8) = a"

lemma self_pointing_diverges:
  assumes "self_pointing_fadt m a"
  shows "hst s = m \<Longrightarrow> rt_flags s = 0 \<Longrightarrow> installation_handler s = None \<Longrightarrow> length (rt_fadt s) = fadt_size \<Longrightarrow>
    table_install_physical_with_origin_unlocked fuel direct_host a orig e want s = None"
proof (induction fuel arbitrary: s orig e want)
  case 0
  then show ?case by simp
next
  case (Suc fuel)
  let ?rec = "table_install_physical_with_origin_unlocked fuel direct_host"
  note a = assms [unfolded self_pointing_fadt_def]
  let ?f = "merge_dsdt (clear_reserved_fields (fadt_ensure_correct_revision (copy_fadt m a (rt_fadt s))))"
  have flags: "\<not> uacpi_check_flag UACPI_FLAG_BAD_CSUM_FATAL s" "\<not> uacpi_check_flag UACPI_FLAG_BAD_TBL_SIGNATURE_FATAL s"
    using Suc.prems(2) by (simp_all add: uacpi_check_flag_def UACPI_FLAG_BAD_CSUM_FATAL_def
        UACPI_FLAG_BAD_TBL_SIGNATURE_FATAL_def)
  note cp = copy_fadt_x_dsdt [of m a "rt_fadt s"]
  have xd: "fadt_x_dsdt ?f = a" using cp a Suc.prems(4) fadt_x_dsdt_after [of "copy_fadt m a (rt_fadt s)"] by simp
  have len: "length ?f = fadt_size"
  proof -
    have c: "length (copy_fadt m a (rt_fadt s)) = fadt_size"
      using Suc.prems(4) by (simp add: copy_fadt_def Let_def)
    then show ?thesis
      by (auto simp: merge_dsdt_def clear_reserved_fields_def fadt_ensure_correct_revision_def Let_def
          fadt_size_276 split: option.splits)
  qed
  have "?rec a FIRMWARE_PHYSICAL (Some ACPI_DSDT_SIGNATURE) False (s\<lparr>rt_fadt := ?f\<rparr>) = None"
    using Suc.prems len by (intro Suc.IH) simp_all
  then have init: "initialize_fadt direct_host ?rec a s = None"
    using Suc.prems(1) xd a by (simp add: initialize_fadt_def Let_def)
  let ?hdr = "read_hdr m a"
  have hsig: "h_signature ?hdr = ACPI_FADT_SIGNATURE" using a by (simp add: read_hdr_def)
  have facs: "\<not> uacpi_signatures_match ACPI_FADT_SIGNATURE ACPI_FACS_SIGNATURE"
    "uacpi_signatures_match ACPI_FADT_SIGNATURE ACPI_FADT_SIGNATURE"
    by (simp_all add: uacpi_signatures_match_def ACPI_FADT_SIGNATURE_def ACPI_FACS_SIGNATURE_def sig_def)
  have hst: "s\<lparr>hst := m\<rparr> = s" using Suc.prems(1) by (cases s) simp
  have verify: "verify_table direct_host ?rec (Copied ?hdr) a virt want s = None" if "virt = 0 \<or> virt = a" for virt
    using that a init facs hsig hst flags Suc.prems(1)
    by (auto simp: verify_table_def Let_def hdr_of_def uacpi_verify_table_checksum_def)
  have "get_external_table_header direct_host a s = ((UACPI_STATUS_OK, Some ?hdr), s)"
    using a Suc.prems(1) hst by (simp add: get_external_table_header_def)
  moreover have "uacpi_check_table_signature sg x s = UACPI_STATUS_OK" for sg x
    using flags by (simp add: uacpi_check_table_signature_def)
  moreover have "install_mapped direct_host ?rec ?hdr a virt orig want s = None" if "virt = 0 \<or> virt = a" for virt
    using verify [OF that] Suc.prems(3) by (simp add: install_mapped_no_handler verify_and_install_table_def)
  ultimately show ?case
    using Suc.prems(1,3) a by (cases e; cases want) (simp_all add: install_physical_body_def hst)
qed

section \<open>The life cycle\<close>





section \<open>A store for the examples\<close>

definition empty_store :: "mem \<Rightarrow> u64 \<Rightarrow> mem tables_state" where
  "empty_store m fl =
     \<lparr>hst = m, tables = empty_tables, early_table_access = False, installation_handler = None,
      rt_fadt = replicate fadt_size 0, rt_flags = fl, is_hardware_reduced = False, is_rev1 = True\<rparr>"

lemma empty_store_wf [simp]: "tables_wf (empty_store m fl)" "handler_ok (empty_store m fl)"
  by (simp_all add: empty_store_def tables_wf_def empty_tables_def darray_inv_def contents_def handler_ok_def)

lemma empty_store_simps [simp]:
  "hst (empty_store m fl) = m" "rt_flags (empty_store m fl) = fl" "rt_fadt (empty_store m fl) = replicate fadt_size 0"
  "installation_handler (empty_store m fl) = None" "\<not> early_table_access (empty_store m fl)"
  by (simp_all add: empty_store_def)

section \<open>Properties\<close>

text \<open>C3: installing a table never disturbs the ones that are there.  Whatever the host,
  the firmware data and the installation handler do (as long as the handler gives no null
  virtual override), when a physical install returns, the entries from before are at their
  indices unchanged, any new ones come after them, every entry still satisfies the
  invariant, and the capacity, flags and handler are the same.\<close>

theorem install_only_adds:
  assumes "tables_wf s" and "handler_ok s" and "is_physical orig"
    and "table_install_physical_with_origin_unlocked fuel A phys orig e want s = Some (r, s')"
  shows "tables_wf s' \<and> (\<exists>new. contents (tables s') = contents (tables s) @ new)
       \<and> darray_capacity (tables s') = darray_capacity (tables s)
       \<and> early_table_access s' = early_table_access s \<and> rt_flags s' = rt_flags s
       \<and> installation_handler s' = installation_handler s"
  using good_installD [OF install_extends assms(4) assms(1-3)] by (simp add: extends_def)

theorem install_only_adds_witness:
  "\<exists>r s'. table_install_physical_with_origin_unlocked (Suc (Suc 0)) direct_host 0x3000 HOST_PHYSICAL None True
      (empty_store (\<lambda>_. 7) 2) = Some (r, s') \<and> tables_wf s'"
proof -
  have "uacpi_check_flag UACPI_FLAG_BAD_TBL_SIGNATURE_FATAL (empty_store (\<lambda>_. 7) 2)"
    by (simp add: uacpi_check_flag_def UACPI_FLAG_BAD_TBL_SIGNATURE_FATAL_def)
  then obtain r s' where run: "table_install_physical_with_origin_unlocked (Suc (Suc 0)) direct_host 0x3000 HOST_PHYSICAL
      None True (empty_store (\<lambda>_. 7) 2) = Some (r, s')"
    using install_two_levels [of "empty_store (\<lambda>_. 7) 2" 0 direct_host "0x3000" HOST_PHYSICAL None True]
    by auto
  with install_only_adds [OF _ _ _ run] show ?thesis by auto
qed



text \<open>C7: the missing status.  When the installation handler denies a firmware table that
  could be read and mapped, the install function still reports success, although nothing
  was installed and nothing was stored through the result pointer; the fault is the last
  line of the function, which returns \<open>UACPI_STATUS_OK\<close> instead of the status.\<close>

theorem denied_install_reports_success:
  assumes "installation_handler s = Some handler" and "\<And>v m. fst (handler v m) = DENY"
    and "\<And>a n h. fst (host_map A a n h) \<noteq> 0"
  shows "\<exists>s'. table_install_physical_with_origin_unlocked (Suc fuel) A phys FIRMWARE_PHYSICAL None want s
      = Some ((UACPI_STATUS_OK, None), s') \<and> tables s' = tables s"
proof -
  obtain p h where m: "host_map A phys (of_nat sdt_hdr_size) (hst s) = (p, h)" by fastforce
  with assms(3) [of phys "of_nat sdt_hdr_size" "hst s"] have p: "p \<noteq> 0" by simp
  let ?t = "s\<lparr>hst := host_unmap A p (of_nat sdt_hdr_size) h\<rparr>"
  let ?hdr = "read_hdr (host_mem A h) p"
  obtain v g where v: "host_map A phys (ucast (h_length ?hdr)) (hst ?t) = (v, g)" by fastforce
  with assms(3) [of phys "ucast (h_length ?hdr)" "hst ?t"] have v0: "v \<noteq> 0" by simp
  have "get_external_table_header A phys s = ((UACPI_STATUS_OK, Some ?hdr), ?t)"
    using m p by (simp add: get_external_table_header_def)
  moreover obtain a where "handler v (host_mem A g) = (DENY, a)" using assms(2) by (metis prod.collapse)
  ultimately show ?thesis
    using assms(1) v v0 by (simp add: install_physical_body_def install_mapped_def out_label_def)
qed

theorem denied_install_reports_success_witness:
  "\<exists>s'. table_install_physical_with_origin_unlocked (Suc 0) (direct_host\<lparr>host_map := \<lambda>a n m. (0x5000, m)\<rparr>) 0x3000
      FIRMWARE_PHYSICAL None True ((empty_store (\<lambda>_. 7) 0)\<lparr>installation_handler := Some (\<lambda>v m. (DENY, 0))\<rparr>)
    = Some ((UACPI_STATUS_OK, None), s') \<and> tables s' = empty_tables"
  using denied_install_reports_success
    [of "(empty_store (\<lambda>_. 7) 0)\<lparr>installation_handler := Some (\<lambda>v m. (DENY, 0))\<rparr>" "\<lambda>v m. (DENY, 0)"
        "direct_host\<lparr>host_map := \<lambda>a n m. (0x5000, m)\<rparr>" 0 "0x3000" True]
  by (simp add: empty_store_def)

text \<open>C8: the recursion through the fixed description table can be endless.  If memory is
  mapped as it is, the signature check is not fatal and there is no handler, then a fixed
  description table whose DSDT pointer leads back to itself makes its installation call
  itself without end: no depth of recursion is enough.\<close>

theorem self_pointing_fadt_never_returns:
  assumes "self_pointing_fadt (hst s) a" and "rt_flags s = 0" and "installation_handler s = None"
    and "length (rt_fadt s) = fadt_size"
  shows "table_install_physical_with_origin_unlocked fuel direct_host a FIRMWARE_PHYSICAL None want s = None"
  using assms by (intro self_pointing_diverges) simp_all

theorem self_pointing_fadt_never_returns_witness:
  "\<forall>fuel. table_install_physical_with_origin_unlocked fuel direct_host 0x2000 FIRMWARE_PHYSICAL None False
      (empty_store ((\<lambda>_. 0)(0x2000 := 0x46, 0x2001 := 0x41, 0x2002 := 0x43, 0x2003 := 0x50, 0x2004 := 0xF4,
        0x208D := 0x20)) 0) = None"
proof
  fix fuel
  let ?m = "(\<lambda>_. 0)(0x2000 := 0x46, 0x2001 := 0x41, 0x2002 := 0x43, 0x2003 := 0x50, 0x2004 := 0xF4,
        0x208D := 0x20) :: mem"
  have "read_bytes ?m 0x2000 4 = ACPI_FADT_SIGNATURE"
    by (simp add: read_bytes_def upt_rec ACPI_FADT_SIGNATURE_def sig_def)
  moreover have "le_word (read_bytes ?m (0x2000 + 140) 8) = 0x2000"
    by (simp add: read_bytes_def upt_rec)
  moreover have "h_length (read_hdr ?m 0x2000) = 0xF4"
    by (simp add: read_hdr_def read_bytes_def upt_rec)
  ultimately have "self_pointing_fadt (hst (empty_store ?m 0)) 0x2000"
    unfolding self_pointing_fadt_def by simp
  from self_pointing_fadt_never_returns [OF this]
  show "table_install_physical_with_origin_unlocked fuel direct_host 0x2000 FIRMWARE_PHYSICAL None False
      (empty_store ?m 0) = None" by simp
qed

text \<open>C9: with the flag that makes a wrong signature fatal, and without a handler, the
  recursion is at most two deep: every physical install returns.\<close>

theorem fatal_signatures_terminate:
  assumes "installation_handler s = None" and "uacpi_check_flag UACPI_FLAG_BAD_TBL_SIGNATURE_FATAL s"
    and "2 \<le> fuel"
  shows "\<exists>r. table_install_physical_with_origin_unlocked fuel A phys orig e want s = Some r"
proof -
  obtain k where "fuel = Suc (Suc k)" using assms(3) by (metis add_2_eq_Suc le_Suc_ex)
  then show ?thesis using install_two_levels [OF assms(1,2), of k A phys orig e want] by auto
qed

theorem fatal_signatures_terminate_witness:
  "\<exists>r. table_install_physical_with_origin_unlocked 2 direct_host 0x2000 FIRMWARE_PHYSICAL None False
      (empty_store (\<lambda>_. 7) 2) = Some r"
  by (rule fatal_signatures_terminate)
    (simp_all add: uacpi_check_flag_def UACPI_FLAG_BAD_TBL_SIGNATURE_FATAL_def)

text \<open>C10: \<open>fadt_ensure_correct_revision\<close> sets the revision to the one whose size the
  length of the table fits, except that revision 4, which has the size of revision 3, is
  kept; lengths beyond the last known size count as revision 6.  No other field changes.\<close>

theorem fadt_revision_normalised:
  assumes "length f = fadt_size"
  shows "unat (fadt_revision (fadt_ensure_correct_revision f)) =
     (let n = unat (fadt_length f) in
      if n \<le> 116 then 1 else if n \<le> 132 then 2
      else if n \<le> 244 then (if unat (fadt_revision f) = 4 then 4 else 3)
      else if n \<le> 268 then 5 else 6)
     \<and> (\<forall>i k. i + k \<le> 8 \<or> 9 \<le> i \<longrightarrow> get_le i k (fadt_ensure_correct_revision f) = get_le i k f)"
proof -
  have len: "9 \<le> length f" using assms fadt_size_276 by simp
  have small: "unat (ucast ((of_nat k :: u64) AND mask 8) :: u8) = k" if "k < 256" for k
  proof -
    have "(ucast ((of_nat k :: u64) AND mask 8) :: u8) = of_nat k"
      by (rule bit_word_eqI) (simp add: bit_simps)
    then show ?thesis using that by (simp add: unat_of_nat)
  qed
  have put: "unat (fadt_revision (put_le 8 1 (of_nat k) f)) = k" if "k < 256" for k
    using len that get_put_same [of 8 1 f "of_nat k"] small [of k] by (simp add: fadt_revision_def)
  have le: "fadt_length f \<le> 116 \<longleftrightarrow> unat (fadt_length f) \<le> 116"
    "fadt_length f \<le> 132 \<longleftrightarrow> unat (fadt_length f) \<le> 132" "fadt_length f \<le> 244 \<longleftrightarrow> unat (fadt_length f) \<le> 244"
    "fadt_length f \<le> 268 \<longleftrightarrow> unat (fadt_length f) \<le> 268" "fadt_length f \<le> 276 \<longleftrightarrow> unat (fadt_length f) \<le> 276"
    by (simp_all add: word_le_nat_alt)
  let ?n = "unat (fadt_length f)" and ?r = "unat (fadt_revision f)"
  have find: "find (\<lambda>r. fadt_length f \<le> fadt_version_sizes ! r) [0..<6] =
      (if ?n \<le> 116 then Some 0 else if ?n \<le> 132 then Some 1 else if ?n \<le> 244 then Some 2
       else if ?n \<le> 268 then Some 4 else if ?n \<le> 276 then Some 5 else None)"
    by (simp add: fadt_version_sizes_def upt_rec le)
  have six: "length fadt_version_sizes = 6" by (simp add: fadt_version_sizes_def)
  have "fadt_ensure_correct_revision f = f \<or> (\<exists>v. fadt_ensure_correct_revision f = put_le 8 1 v f)"
    by (auto simp: fadt_ensure_correct_revision_def Let_def split: option.splits)
  then have frame: "\<forall>i k. i + k \<le> 8 \<or> 9 \<le> i \<longrightarrow> get_le i k (fadt_ensure_correct_revision f) = get_le i k f"
    using len by (auto simp: get_put_other)
  have "unat (fadt_revision (fadt_ensure_correct_revision f)) =
      (if ?n \<le> 116 then 1 else if ?n \<le> 132 then 2 else if ?n \<le> 244 then (if ?r = 4 then 4 else 3)
       else if ?n \<le> 268 then 5 else 6)"
    unfolding fadt_ensure_correct_revision_def Let_def find six
    using put [of 1] put [of 2] put [of 3] put [of 5] put [of 6] by auto
  with frame show ?thesis by (simp add: Let_def)
qed

theorem fadt_revision_normalised_witness:
  "unat (fadt_revision (fadt_ensure_correct_revision (replicate fadt_size 0))) = 1"
proof -
  have "fadt_length (replicate fadt_size 0) = 0"
    by (simp add: fadt_length_def)
  then show ?thesis using fadt_revision_normalised [of "replicate fadt_size 0"] by simp
qed

text \<open>After \<open>convert_registers_to_gas\<close> every one of the eight register blocks has an
  extended description: the firmware's own where it gave an address, and otherwise a
  system I/O block at the legacy address with eight bits per byte of the legacy length
  (at most 255).\<close>

lemma registers_converted:
  assumes "length f = fadt_size" and "(off, xoff, len) \<in> set fadt_registers"
  shows "get_gas (fadt_offset xoff) (convert_registers_to_gas f) =
     (let own = get_gas (fadt_offset xoff) f;
          legacy = get_le (fadt_offset off) 4 f;
          n = ucast (get_le (fadt_offset len) 1 f) :: u8 in
      if gas_address own \<noteq> 0 then own
      else \<lparr>address_space_id = UACPI_ADDRESS_SPACE_SYSTEM_IO,
            register_bit_width = of_nat (min 255 (unat n * 8)),
            register_bit_offset = 0, access_size = 0, gas_address = legacy\<rparr>)"
  using convert_registers_gas [OF assms]
  by (simp add: register_gas_def xregister_def gas_init_system_io_def Let_def)

lemma registers_converted_witness:
  "get_gas (fadt_offset ''x_gpe0_blk'') (convert_registers_to_gas
      (put_le (fadt_offset ''gpe0_blk'') 4 0x620 (replicate fadt_size 0)))
   = \<lparr>address_space_id = 1, register_bit_width = 0, register_bit_offset = 0, access_size = 0,
      gas_address = 0x620\<rparr>"
proof -
  let ?f = "put_le (fadt_offset ''gpe0_blk'') 4 0x620 (replicate fadt_size 0)"
  have "length ?f = fadt_size" by (simp add: fadt_size_276)
  moreover have "(''gpe0_blk'', ''x_gpe0_blk'', ''gpe0_blk_len'') \<in> set fadt_registers"
    by (simp add: fadt_registers_def)
  moreover have "gas_address (get_gas (fadt_offset ''x_gpe0_blk'') ?f) = 0"
    "get_le (fadt_offset ''gpe0_blk_len'') 1 ?f = 0" "get_le (fadt_offset ''gpe0_blk'') 4 ?f = 0x620"
    by (simp_all add: get_gas_def get_put_other get_put_same fadt_size_276 mask_32 [symmetric])
  ultimately show ?thesis
    using registers_converted [of ?f "''gpe0_blk''" "''x_gpe0_blk''" "''gpe0_blk_len''"]
    by (simp add: Let_def UACPI_ADDRESS_SPACE_SYSTEM_IO_def)
qed

end
