(* ===== verification/Kernel_Acpi.thy ===== *)
theory Kernel_Acpi
  imports Table_Install Pmm Gdt Interrupts
begin

text \<open>
  The kernel's side of the ACPI library and its clients: the host services of
  \<^verbatim>\<open>src/kern/acpi.c\<close>, the timer of \<^verbatim>\<open>src/kern/hpet.c\<close>, and the start-up sequence of
  \<^verbatim>\<open>src/kern/main.c\<close>.  The kernel state is the page allocator, the memory and the serial
  log; the host services are an instance of the record the library is written against.
\<close>

section \<open>Host services\<close>

record kernel =
  k_pmm :: pmm
  k_mem :: mem
  k_log :: port_log

definition UACPI_LOG_ERROR :: int where "UACPI_LOG_ERROR = 1"
definition UACPI_LOG_INFO :: int where "UACPI_LOG_INFO = 3"

definition uacpi_kernel_log :: "int \<Rightarrow> u8 list \<Rightarrow> kernel \<Rightarrow> kernel option" where
  "uacpi_kernel_log level buf k =
     map_option (\<lambda>log. k\<lparr>k_log := log\<rparr>)
       (serial_printf (cstr ''uACPI [%d]: %s'') [VInt level, VStr buf] (k_log k))"

definition kernel_printf :: "string \<Rightarrow> varg list \<Rightarrow> kernel \<Rightarrow> kernel option" where
  "kernel_printf format args k =
     map_option (\<lambda>log. k\<lparr>k_log := log\<rparr>) (serial_printf (cstr format) args (k_log k))"

definition kernel_write :: "string \<Rightarrow> kernel \<Rightarrow> kernel option" where
  "kernel_write str k = map_option (\<lambda>log. k\<lparr>k_log := log\<rparr>) (serial_write (cstr str) (k_log k))"

text \<open>
  The argument of \<^verbatim>\<open>free_page\<close> here is the address of the variable that holds the
  address; \<open>slot\<close> is that address, which is on the kernel's stack.
\<close>

definition free_variable :: "u64 \<Rightarrow> kernel \<Rightarrow> kernel" where
  "free_variable slot k =
     (case free_page slot (k_pmm k) (k_mem k) of (p, m) \<Rightarrow> k\<lparr>k_pmm := p, k_mem := m\<rparr>)"

definition uacpi_kernel_unmap :: "u64 \<Rightarrow> u64 \<Rightarrow> u64 \<Rightarrow> kernel \<Rightarrow> kernel" where
  "uacpi_kernel_unmap slot addr len k = free_variable slot k"

text \<open>The result \<open>None\<close> of the two messages cannot happen: see \<open>kernel_messages_print\<close> below.\<close>

definition uacpi_kernel_map :: "u64 \<Rightarrow> u64 \<Rightarrow> u64 \<Rightarrow> kernel \<Rightarrow> (u64 \<times> kernel) option" where
  "uacpi_kernel_map slot addr len k =
     (let len = of_nat PAGE_SIZE;
          (tmp, p) = (case alloc_page (k_pmm k) of
                        (None, p) \<Rightarrow> (0, p)
                      | (Some a, p) \<Rightarrow> (a, p));
          k = k\<lparr>k_pmm := p\<rparr>
      in if tmp = 0 then
           map_option (\<lambda>k. (0, k))
             (kernel_printf (''[ ERR ] Failed to allocate memory for mapping'' @ [CHR 0x0A]) [] k)
         else
           let (r, m) = memcpy tmp addr len (k_mem k);
               k = k\<lparr>k_mem := m\<rparr>
           in if r = 0 then
                map_option (\<lambda>k. (0, free_variable slot k))
                  (kernel_printf (''[ ERR ] Failed to copy data from physical memory'' @ [CHR 0x0A]) [] k)
              else Some (tmp, k))"

text \<open>\<open>rsdp\<close> is the boot loader's response: nothing, or the address it holds.\<close>

definition uacpi_kernel_get_rsdp :: "u64 option \<Rightarrow> kernel \<Rightarrow> ((uacpi_status \<times> u64 option) \<times> kernel) option" where
  "uacpi_kernel_get_rsdp rsdp k =
     (case rsdp of
        Some a \<Rightarrow>
          if a \<noteq> 0 then Some ((UACPI_STATUS_OK, Some a), k)
          else map_option (\<lambda>k. ((UACPI_STATUS_NOT_FOUND, None), k))
                 (uacpi_kernel_log UACPI_LOG_ERROR (cstr ''RSDP not found!'') k)
      | None \<Rightarrow>
          map_option (\<lambda>k. ((UACPI_STATUS_NOT_FOUND, None), k))
            (uacpi_kernel_log UACPI_LOG_ERROR (cstr ''RSDP not found!'') k))"

text \<open>The host the table store runs on; the library does not use the address of a failed lookup.\<close>

definition kernel_host :: "u64 option \<Rightarrow> u64 \<Rightarrow> kernel host_api" where
  "kernel_host rsdp slot =
     \<lparr>host_map = (\<lambda>a n k. case uacpi_kernel_map slot a n k of Some r \<Rightarrow> r | None \<Rightarrow> (0, k)),
      host_unmap = uacpi_kernel_unmap slot,
      host_mem = k_mem,
      host_get_rsdp = (\<lambda>k. case uacpi_kernel_get_rsdp rsdp k of
         Some ((st, Some a), k) \<Rightarrow> ((st, a), k)
       | Some ((st, None), k) \<Rightarrow> ((st, 0), k)
       | None \<Rightarrow> ((UACPI_STATUS_NOT_FOUND, 0), k))\<rparr>"

definition with_kernel :: "(kernel \<Rightarrow> kernel option) \<Rightarrow> kernel tables_state \<Rightarrow> kernel tables_state option" where
  "with_kernel f s = map_option (\<lambda>k. s\<lparr>hst := k\<rparr>) (f (hst s))"

text \<open>
  \<^verbatim>\<open>acpi_init\<close>.  The temporary page becomes the dynamic part of the table array: it is
  seen here as the 64 entries it has room for, and the library is its only user.
\<close>

definition acpi_init ::
  "nat \<Rightarrow> u64 option \<Rightarrow> u64 \<Rightarrow> kernel tables_state \<Rightarrow> (int \<times> kernel tables_state) option" where
  "acpi_init fuel rsdp slot s =
     (case alloc_page (k_pmm (hst s)) of (a, p) \<Rightarrow>
        let s = s\<lparr>hst := (hst s)\<lparr>k_pmm := p\<rparr>\<rparr>;
            tmp = (case a of None \<Rightarrow> 0 | Some a \<Rightarrow> a)
        in if tmp = 0 then
             map_option (\<lambda>s. (- 1, s)) (with_kernel
               (uacpi_kernel_log UACPI_LOG_ERROR (cstr ''[ ERR ] Failed to allocate memory for uACPI'')) s)
           else
             let s = s\<lparr>hst := (hst s)\<lparr>k_mem := snd (memset tmp 0 (of_nat PAGE_SIZE) (k_mem (hst s)))\<rparr>\<rparr>
             in case uacpi_setup_early_table_access fuel (kernel_host rsdp slot)
                       (replicate (PAGE_SIZE div installed_table_size) zero_table) PAGE_SIZE s of
                  None \<Rightarrow> None
                | Some (ret, s) \<Rightarrow>
                    if ret \<noteq> UACPI_STATUS_OK then
                      map_option (\<lambda>s. (- 1, s\<lparr>hst := free_variable slot (hst s)\<rparr>))
                        (with_kernel (uacpi_kernel_log UACPI_LOG_ERROR (cstr (uacpi_status_to_string ret))) s)
                    else
                      map_option (\<lambda>s. (0, s))
                        (with_kernel (uacpi_kernel_log UACPI_LOG_INFO (cstr (''uACPI Started'' @ [CHR 0x0A])))
                          (s\<lparr>hst := free_variable slot (hst s)\<rparr>)))"

section \<open>The timer\<close>

definition HPET_GENERAL_CAPABILITIES_ID :: u64 where "HPET_GENERAL_CAPABILITIES_ID = 0x00"
definition HPET_GENERAL_CONFIGURATION :: u64 where "HPET_GENERAL_CONFIGURATION = 0x10"
definition HPET_MAIN_COUNTER :: u64 where "HPET_MAIN_COUNTER = 0xF0"
definition HPET_TIMER_CONFIG_CAPABILITY :: "u64 \<Rightarrow> u64" where "HPET_TIMER_CONFIG_CAPABILITY n = 0x100 + 0x20 * n"
definition HPET_TIMER_COMPARATOR :: "u64 \<Rightarrow> u64" where "HPET_TIMER_COMPARATOR n = 0x108 + 0x20 * n"
definition HPET_ENABLE_CNF :: u64 where "HPET_ENABLE_CNF = 0x1"
definition HPET_PERIODIC_CNF :: u64 where "HPET_PERIODIC_CNF = push_bit 2 1"
definition HPET_INT_ENABLE_CNF :: u64 where "HPET_INT_ENABLE_CNF = push_bit 3 1"
definition HPET_REG_SIZE :: u64 where "HPET_REG_SIZE = 1024"

record hpet =
  hpet_base :: u64
  hpet_period :: u64

definition read64 :: "mem \<Rightarrow> u64 \<Rightarrow> u64" where
  "read64 m a = le_word (read_bytes m a 8)"

definition write64 :: "u64 \<Rightarrow> u64 \<Rightarrow> mem \<Rightarrow> mem" where
  "write64 a v m = (\<lambda>x. if in_block a 8 x then le_bytes 8 v ! unat (x - a) else m x)"

definition hpet_read_register :: "hpet \<Rightarrow> u64 \<Rightarrow> kernel \<Rightarrow> u64" where
  "hpet_read_register t offset k = read64 (k_mem k) (hpet_base t + offset)"

definition hpet_write_register :: "hpet \<Rightarrow> u64 \<Rightarrow> u64 \<Rightarrow> kernel \<Rightarrow> kernel" where
  "hpet_write_register t offset v k = k\<lparr>k_mem := write64 (hpet_base t + offset) v (k_mem k)\<rparr>"

definition hpet_get_counter :: "hpet \<Rightarrow> kernel \<Rightarrow> (u64 \<times> kernel) option" where
  "hpet_get_counter t k =
     (if hpet_base t = 0 then
        map_option (\<lambda>k. (0, k)) (kernel_write (''[ ERR ] HPET not initialized'' @ [CHR 0x0A]) k)
      else Some (hpet_read_register t HPET_MAIN_COUNTER k, k))"

text \<open>\<open>None\<close> is the fault of a division by zero.\<close>

definition hpet_configure_timer :: "hpet \<Rightarrow> u64 \<Rightarrow> u64 \<Rightarrow> kernel \<Rightarrow> (int \<times> kernel) option" where
  "hpet_configure_timer t timer interval_ms k =
     (if hpet_base t = 0 then
        map_option (\<lambda>k. (- 1, k)) (kernel_write (''[ ERR ] HPET not initialized'' @ [CHR 0x0A]) k)
      else if hpet_period t = 0 then None
      else
        let interval_ticks = (1000000000000000 div hpet_period t) * interval_ms;
            k = hpet_write_register t (HPET_TIMER_CONFIG_CAPABILITY timer)
                  (HPET_PERIODIC_CNF OR HPET_INT_ENABLE_CNF) k;
            k = hpet_write_register t (HPET_TIMER_COMPARATOR timer) interval_ticks k
        in map_option (\<lambda>k. (0, k))
             (kernel_printf (''[ INFO ] HPET Timer %d configured for %d ms interval'' @ [CHR 0x0A])
               [VU64 timer, VU64 interval_ms] k))"

text \<open>
  The status of the lookup is not tested; \<open>junk\<close> is what the uninitialised result variable
  holds when the lookup stores nothing.
\<close>

definition timer_init ::
  "u64 option \<Rightarrow> u64 \<Rightarrow> uacpi_table \<Rightarrow> hpet \<Rightarrow> kernel tables_state \<Rightarrow> ((int \<times> hpet) \<times> kernel tables_state) option" where
  "timer_init rsdp slot junk t s =
     (case uacpi_table_find_by_signature (kernel_host rsdp slot) (cstr ''HPET'') s of ((_, out), s) \<Rightarrow>
        let hpet_table = (case out of None \<Rightarrow> junk | Some tbl \<Rightarrow> tbl) in
        case uacpi_kernel_map slot (t_ptr hpet_table) HPET_REG_SIZE (hst s) of
          None \<Rightarrow> None
        | Some (base, k) \<Rightarrow>
            let t = t\<lparr>hpet_base := base\<rparr>;
                capabilities = hpet_read_register t HPET_GENERAL_CAPABILITIES_ID k;
                t = t\<lparr>hpet_period := drop_bit 32 capabilities AND 0xFFFFFFFF\<rparr>;
                k = hpet_write_register t HPET_GENERAL_CONFIGURATION HPET_ENABLE_CNF k
            in case hpet_configure_timer t 0 100 k of
                 None \<Rightarrow> None
               | Some (_, k) \<Rightarrow>
                   map_option (\<lambda>k. ((0, t), s\<lparr>hst := k\<rparr>))
                     (kernel_printf (''[ OK ] HPET'' @ [CHR 0x0A]) [] k))"

section \<open>Start-up\<close>

record machine =
  mc_gdt :: gdt_state
  mc_idt :: idt
  mc_idtr :: "idtr_t option"
  mc_paging :: paging
  mc_hpet :: hpet
  mc_tables :: "kernel tables_state"

record boot_env =
  be_gdt_addr :: u64
  be_idt_addr :: u64
  be_stubs :: "nat \<Rightarrow> u64"
  be_memmap :: "memmap_entry list"
  be_paging :: paging_env
  be_rsdp :: "u64 option"
  be_slot :: u64
  be_junk :: uacpi_table

definition kinit :: "nat \<Rightarrow> boot_env \<Rightarrow> machine \<Rightarrow> machine option" where
  "kinit fuel e mc =
     do { let k = hst (mc_tables mc);
          (g, log) \<leftarrow> gdt_init (be_gdt_addr e) (mc_gdt mc) (k_log k);
          (idtr, table, log) \<leftarrow> idt_init (be_idt_addr e) (be_stubs e) (mc_idt mc) log;
          (p, pg) \<leftarrow> bitmap_init (be_memmap e) (be_paging e) (k_pmm k) (mc_paging mc);
          let s = (mc_tables mc)\<lparr>hst := k\<lparr>k_pmm := p, k_log := log\<rparr>\<rparr>;
          (_, s) \<leftarrow> acpi_init fuel (be_rsdp e) (be_slot e) s;
          ((_, t), s) \<leftarrow> timer_init (be_rsdp e) (be_slot e) (be_junk e) (mc_hpet mc) s;
          Some (mc\<lparr>mc_gdt := g, mc_idt := table, mc_idtr := Some idtr, mc_paging := pg,
                   mc_hpet := t, mc_tables := s\<rparr>) }"

section \<open>Lemmas\<close>

lemma kernel_messages_print:
  assumes "list_all piece_ok (lits s)"
  shows "\<exists>log. kernel_printf s [] k = Some (k\<lparr>k_log := log\<rparr>)"
proof -
  have "cstr s = format_of (lits s)" "args_of (lits s) = []"
    by (simp_all add: cstr_def format_of_def args_of_def)
  with serial_printf_pieces [OF assms, of "k_log k"] show ?thesis
    by (auto simp: kernel_printf_def)
qed

lemma kernel_map_cases:
  obtains (full) log where "fst (alloc_page (k_pmm k)) = None \<or> fst (alloc_page (k_pmm k)) = Some 0"
      "uacpi_kernel_map slot a n k = Some (0, k\<lparr>k_pmm := snd (alloc_page (k_pmm k)), k_log := log\<rparr>)"
  | (page) tmp where "alloc_page (k_pmm k) = (Some tmp, snd (alloc_page (k_pmm k)))" "tmp \<noteq> 0"
      "uacpi_kernel_map slot a n k =
        Some (tmp, k\<lparr>k_pmm := snd (alloc_page (k_pmm k)), k_mem := snd (memcpy tmp a 4096 (k_mem k))\<rparr>)"
proof -
  obtain r p where al: "alloc_page (k_pmm k) = (r, p)" by fastforce
  let ?tmp = "case r of None \<Rightarrow> 0 | Some a \<Rightarrow> a"
  have "list_all piece_ok (lits (''[ ERR ] Failed to allocate memory for mapping'' @ [CHR 0x0A]))" by simp
  from kernel_messages_print [OF this, of "k\<lparr>k_pmm := p\<rparr>"] obtain log where
    log: "kernel_printf (''[ ERR ] Failed to allocate memory for mapping'' @ [CHR 0x0A]) [] (k\<lparr>k_pmm := p\<rparr>)
      = Some (k\<lparr>k_pmm := p, k_log := log\<rparr>)" by auto
  show thesis
  proof (cases "?tmp = 0")
    case True
    with al log have "uacpi_kernel_map slot a n k = Some (0, k\<lparr>k_pmm := p, k_log := log\<rparr>)"
      by (cases r) (simp_all only: uacpi_kernel_map_def Let_def prod.case option.case if_True option.map simp_thms)
    moreover have "r = None \<or> r = Some 0" using True by (cases r) auto
    ultimately show thesis using full al by simp
  next
    case False
    then obtain a where "r = Some a" "a \<noteq> 0" by (cases r) auto
    with al page show thesis by (simp add: uacpi_kernel_map_def memcpy_def PAGE_SIZE_def)
  qed
qed

lemma kernel_map_page:
  assumes "fst (alloc_page (k_pmm k)) = Some tmp" and "tmp \<noteq> 0"
  shows "\<exists>k'. uacpi_kernel_map slot a n k = Some (tmp, k')"
  by (cases rule: kernel_map_cases [of k slot a n]) (use assms in \<open>auto simp: prod_eq_iff\<close>)

lemma free_variable_inert:
  assumes "slot \<notin> free_pages (k_pmm k)" and "slot \<notin> used_pages (k_pmm k)"
  shows "free_variable slot k = k"
  using free_page_unknown [of slot "k_pmm k" "k_mem k"] assms by (simp add: free_variable_def)

lemma le_word_append: "le_word (xs @ ys) = le_word xs OR push_bit (8 * length xs) (le_word ys)"
  by (induction xs) (simp_all add: push_bit_or or.assoc)

lemma le_word_bits:
  "bit (le_word xs) n \<Longrightarrow> n < 8 * length xs"
proof (induction xs arbitrary: n)
  case Nil
  then show ?case by simp
next
  case (Cons x xs)
  show ?case
  proof (cases "n < 8")
    case False
    with Cons.prems have "bit (le_word xs) (n - 8)"
      by (auto simp: bit_or_iff bit_push_bit_iff bit_ucast_iff dest: bit_imp_le_length)
    from Cons.IH [OF this] False show ?thesis by simp
  qed simp
qed

lemma high_half:
  fixes lo hi :: u64
  assumes "\<And>n. bit lo n \<Longrightarrow> n < 32" and "\<And>n. bit hi n \<Longrightarrow> n < 32"
  shows "drop_bit 32 (lo OR push_bit 32 hi) AND mask 32 = ucast (ucast hi :: u32)"
  by (rule bit_word_eqI) (use assms in \<open>auto simp: bit_simps\<close>)

lemma read_bytes_add: "read_bytes m a (i + j) = read_bytes m a i @ read_bytes m (a + of_nat i) j"
  by (rule nth_equalityI) (auto simp: read_bytes_def nth_append algebra_simps)

lemma period_is_length:
  "drop_bit 32 (read64 m a) AND 0xFFFFFFFF = ucast (h_length (read_hdr m a))"
proof -
  have "read64 m a = le_word (read_bytes m a 4) OR push_bit 32 (le_word (read_bytes m (a + 4) 4))"
    using read_bytes_add [of m a 4 4] by (simp add: read64_def le_word_append)
  moreover have "bit (le_word (read_bytes m b 4)) n \<Longrightarrow> n < 32" for b n
    using le_word_bits [of "read_bytes m b 4" n] by simp
  ultimately show ?thesis
    using high_half [of "le_word (read_bytes m a 4)" "le_word (read_bytes m (a + 4) 4)"]
    by (simp only: mask_32 read_hdr_def acpi_sdt_hdr.select_convs)
qed

lemma read_bytes_prefix:
  "read_bytes m a n = read_bytes m' b n \<Longrightarrow> k \<le> n \<Longrightarrow> read_bytes m a k = read_bytes m' b k"
  using read_bytes_add [of m a k "n - k"] read_bytes_add [of m' b k "n - k"] by simp

lemma printf_lits:
  "list_all piece_ok (lits t) \<Longrightarrow> fmt \<noteq> [] \<Longrightarrow>
   serial_printf (map of_char t @ fmt) args log = serial_printf fmt args (transmit (map of_char t) log)"
proof (induction t arbitrary: log)
  case (Cons c t)
  then have "piece_ok (Lit (of_char c))" "list_all piece_ok (lits t)" by (simp_all only: lits_def list.map list.pred_inject)
  with Cons serial_printf_piece [of "Lit (of_char c)" "map of_char t @ fmt" args log] show ?case
    by (simp only: piece_format.simps piece_args.simps piece_text.simps list.map append.simps append_Nil
        transmit_def) (simp add: transmit_def)
qed simp

lemma printf_d_u64:
  assumes "INT_MIN < sint (ucast v :: u32)" and "fmt \<noteq> []"
  shows "serial_printf (of_char CHR ''%'' # of_char CHR ''d'' # fmt) (VU64 v # args) log
       = serial_printf fmt args (transmit (int_text (sint (ucast v :: u32))) log)"
proof -
  have "sint (ucast v :: u32) \<le> INT_MAX"
    using sint_lt [of "ucast v :: u32"] by (simp add: INT_MAX_def)
  with int_to_string_text [OF assms(1), of "replicate 21 0"] obtain rest where
    "int_to_string (sint (ucast v :: u32)) (replicate 21 0) = Some (int_text (sint (ucast v :: u32)) @ 0 # rest)"
    by auto
  then show ?thesis
    by (simp add: printf_conv_def next_arg_def serial_write_prefix int_text_no_NUL)
qed

lemma configure_returns:
  assumes "b \<noteq> 0" and "per \<noteq> 0"
  shows "\<exists>k'. hpet_configure_timer \<lparr>hpet_base = b, hpet_period = per\<rparr> 0 100 k = Some (0, k')"
proof -
  let ?a = "''[ INFO ] HPET Timer ''" and ?b = "'' configured for ''" and ?c = "'' ms interval'' @ [CHR 0x0A]"
  have fmt: "cstr (''[ INFO ] HPET Timer %d configured for %d ms interval'' @ [CHR 0x0A])
      = map of_char ?a @ (of_char CHR ''%'' # of_char CHR ''d'' # (map of_char ?b @
          (of_char CHR ''%'' # of_char CHR ''d'' # (map of_char ?c @ [0]))))"
    by (simp add: cstr_def)
  have ok: "list_all piece_ok (lits ?a)" "list_all piece_ok (lits ?b)" "list_all piece_ok (lits ?c)" by simp_all
  have small: "INT_MIN < sint (ucast (0 :: u64) :: u32)" "INT_MIN < sint (ucast (100 :: u64) :: u32)"
    by (simp_all add: INT_MIN_def)
  have "\<exists>log'. serial_printf (cstr (''[ INFO ] HPET Timer %d configured for %d ms interval'' @ [CHR 0x0A]))
      [VU64 0, VU64 100] log = Some log'" for log
    unfolding fmt
    by (subst printf_lits [OF ok(1)], rule list.distinct(2), subst printf_d_u64 [OF small(1)], simp,
        subst printf_lits [OF ok(2)], rule list.distinct(2), subst printf_d_u64 [OF small(2)], simp,
        subst printf_lits [OF ok(3)], simp, simp)
  then show ?thesis using assms
    by (auto simp: hpet_configure_timer_def kernel_printf_def Let_def)
qed

lemma apart_pages:
  assumes "i < 4096" and "j < 4096"
  shows "0x800000 + of_nat i \<noteq> (0x400000 :: u64) + of_nat j"
proof
  assume "0x800000 + of_nat i = (0x400000 :: u64) + of_nat j"
  then have "of_nat (0x800000 + i) = (of_nat (0x400000 + j) :: u64)" by simp
  then show False using assms of_nat_u64_eq_iff [of "0x800000 + i" "0x400000 + j"] by simp
qed

lemma kernel_map_copies_lemma:
  assumes "pmm_inv (k_pmm k)" and "uacpi_kernel_map slot addr len k = Some (p, k')" and "p \<noteq> 0"
    and "\<And>i j. i < 4096 \<Longrightarrow> j < 4096 \<Longrightarrow> addr + of_nat i \<noteq> p + of_nat j"
  shows "p \<in> free_pages (k_pmm k) \<and> read_bytes (k_mem k') p 4096 = read_bytes (k_mem k) addr 4096
       \<and> (\<forall>x. in_block p 4096 x \<or> k_mem k' x = k_mem k x)"
proof (cases rule: kernel_map_cases [of k slot addr len])
  case (full log)
  with assms(2,3) show ?thesis by simp
next
  case (page tmp)
  with assms(2) have p: "p = tmp" and m: "k_mem k' = snd (memcpy p addr 4096 (k_mem k))" by auto
  have blit: "k_mem k' = blit p addr 4096 (k_mem k)"
    unfolding m using assms(4) by (intro memcpy_eq_blit) simp
  have "read_bytes (k_mem k') p 4096 = read_bytes (k_mem k) addr 4096"
    unfolding blit read_bytes_def by (rule map_cong) (simp_all add: blit_at)
  then show ?thesis
    using pmm_alloc.alloc_some [OF assms(1) page(1)] p by (simp add: blit blit_def)
qed

section \<open>Properties\<close>

text \<open>A mapping is a copy.  When \<open>uacpi_kernel_map\<close> returns an address, it is a page
  that was free, and, unless that page overlaps the 4096 bytes at the requested address, it
  then holds a copy of those 4096 bytes, whatever length was asked for; all other memory is
  unchanged.\<close>

lemma kernel_map_copies:
  assumes "pmm_inv (k_pmm k)" and "uacpi_kernel_map slot addr len k = Some (p, k')" and "p \<noteq> 0"
    and "\<And>i j. i < 4096 \<Longrightarrow> j < 4096 \<Longrightarrow> addr + of_nat i \<noteq> p + of_nat j"
  shows "p \<in> free_pages (k_pmm k) \<and> read_bytes (k_mem k') p 4096 = read_bytes (k_mem k) addr 4096
       \<and> (\<forall>x. in_block p 4096 x \<or> k_mem k' x = k_mem k x)"
  using kernel_map_copies_lemma [OF assms] .

lemma kernel_map_copies_witness:
  "\<exists>k'. uacpi_kernel_map 0xFFFF800000010000 0x800000 36
      \<lparr>k_pmm = \<lparr>bitmap = (\<lambda>_. 0), page_addrs = (\<lambda>_. 0x400000), total_pages = 1\<rparr>, k_mem = (\<lambda>x. ucast (drop_bit 16 x)),
       k_log = []\<rparr> = Some (0x400000, k') \<and> read_bytes (k_mem k') 0x400000 4096 = replicate 4096 0x80"
proof -
  let ?k = "\<lparr>k_pmm = \<lparr>bitmap = (\<lambda>_. 0), page_addrs = (\<lambda>_. 0x400000), total_pages = 1\<rparr>, k_mem = (\<lambda>x. ucast (drop_bit 16 x)),
       k_log = []\<rparr>"
  have al: "fst (alloc_page (k_pmm ?k)) = Some 0x400000"
    by (simp add: alloc_page_def pmm_test_bit_def)
  then obtain k' where k': "uacpi_kernel_map 0xFFFF800000010000 0x800000 36 ?k = Some (0x400000, k')"
    using kernel_map_page [OF al, of "0xFFFF800000010000" "0x800000" 36] by auto
  have inv: "pmm_inv (k_pmm ?k)" by (simp add: pmm_inv_def pages_def MAX_PAGES_def)
  have "(ucast (drop_bit 16 (0x800000 + of_nat i :: u64)) :: u8) = 0x80" if "i < 4096" for i
  proof -
    have "unat (0x800000 + of_nat i :: u64) = 0x800000 + i"
      using that unat_of_nat_u64 [of "0x800000 + i"] by simp
    then have "unat (drop_bit 16 (0x800000 + of_nat i :: u64)) = 0x80"
      using that by (simp add: drop_bit_eq_div unat_div_distrib)
    then have "drop_bit 16 (0x800000 + of_nat i :: u64) = 0x80" by (simp add: word_unat_eq_iff)
    then show ?thesis by simp
  qed
  then have "read_bytes (k_mem ?k) 0x800000 4096 = replicate 4096 0x80"
    by (simp add: list_eq_iff_nth_eq)
  with kernel_map_copies [OF inv k' _ apart_pages] k' show ?thesis by simp
qed

text \<open>Mappings are never given back.  \<open>uacpi_kernel_unmap\<close> frees the address of its
  own parameter, which is not a page of the allocator, so mapping and unmapping leaves the
  page in use: every pair takes one page away for good.\<close>

lemma map_unmap_leaks_page:
  assumes "pmm_inv (k_pmm k)" and "slot \<notin> free_pages (k_pmm k)" and "slot \<notin> used_pages (k_pmm k)"
    and "uacpi_kernel_map slot addr len k = Some (p, k')" and "p \<noteq> 0"
  shows "uacpi_kernel_unmap slot p len k' = k'
       \<and> used_pages (k_pmm (uacpi_kernel_unmap slot p len k')) = insert p (used_pages (k_pmm k))
       \<and> free_pages (k_pmm (uacpi_kernel_unmap slot p len k')) = free_pages (k_pmm k) - {p}
       \<and> p \<in> free_pages (k_pmm k)"
proof (cases rule: kernel_map_cases [of k slot addr len])
  case (full log)
  with assms(4,5) show ?thesis by simp
next
  case (page tmp)
  with assms(4) have p: "p = tmp" and k': "k_pmm k' = snd (alloc_page (k_pmm k))" by auto
  from pmm_alloc.alloc_some [OF assms(1) page(1)] p k'
  have a: "p \<in> free_pages (k_pmm k)" "free_pages (k_pmm k') = free_pages (k_pmm k) - {p}"
    "used_pages (k_pmm k') = insert p (used_pages (k_pmm k))" by auto
  have "slot \<noteq> p" using a(1) assms(2) by auto
  then have "uacpi_kernel_unmap slot p len k' = k'"
    using a assms(2,3) unfolding uacpi_kernel_unmap_def by (intro free_variable_inert) auto
  with a show ?thesis by simp
qed

lemma map_unmap_leaks_page_witness:
  "\<exists>k'. uacpi_kernel_map 0xFFFF800000010000 0x800000 36
      \<lparr>k_pmm = \<lparr>bitmap = (\<lambda>_. 0), page_addrs = (\<lambda>_. 0x400000), total_pages = 1\<rparr>, k_mem = (\<lambda>x. 0), k_log = []\<rparr>
        = Some (0x400000, k')
      \<and> used_pages (k_pmm (uacpi_kernel_unmap 0xFFFF800000010000 0x400000 36 k')) = {0x400000}"
proof -
  let ?k = "\<lparr>k_pmm = \<lparr>bitmap = (\<lambda>_. 0), page_addrs = (\<lambda>_. 0x400000), total_pages = 1\<rparr>, k_mem = (\<lambda>x. 0), k_log = []\<rparr>"
  have al: "fst (alloc_page (k_pmm ?k)) = Some 0x400000"
    by (simp add: alloc_page_def pmm_test_bit_def)
  then obtain k' where k': "uacpi_kernel_map 0xFFFF800000010000 0x800000 36 ?k = Some (0x400000, k')"
    using kernel_map_page [OF al, of "0xFFFF800000010000" "0x800000" 36] by auto
  have "pmm_inv (k_pmm ?k)" "0xFFFF800000010000 \<notin> free_pages (k_pmm ?k)"
    "0xFFFF800000010000 \<notin> used_pages (k_pmm ?k)" "used_pages (k_pmm ?k) = {}"
    by (auto simp: pmm_inv_def pages_def MAX_PAGES_def free_pages_def used_pages_def pmm_test_bit_def)
  with map_unmap_leaks_page [OF _ _ _ k'] k' show ?thesis by auto
qed

text \<open>What the timer takes for its period.  \<open>timer_init\<close> maps the HPET \<^emph>\<open>table\<close>, not
  the registers the table points to, so what it reads as the capability register is the
  start of a copy of the table header: when the table is found and a page \<open>p\<close> away from it
  is free, the period it stores is the length of the table (and a length of zero is a
  division by zero), and the addresses it programs are in that page.\<close>

lemma timer_period_is_table_length:
  assumes "uacpi_table_find_by_signature (kernel_host rsdp slot) (cstr ''HPET'') s = ((ret, Some tbl), s1)"
    and "pmm_inv (k_pmm (hst s1))" and "fst (alloc_page (k_pmm (hst s1))) = Some p" and "p \<noteq> 0"
    and "\<And>i j. i < 4096 \<Longrightarrow> j < 4096 \<Longrightarrow> t_ptr tbl + of_nat i \<noteq> p + of_nat j"
    and "len = h_length (read_hdr (k_mem (hst s1)) (t_ptr tbl))"
  shows "if len = 0 then timer_init rsdp slot junk t s = None
         else \<exists>s'. timer_init rsdp slot junk t s = Some ((0, \<lparr>hpet_base = p, hpet_period = ucast len\<rparr>), s')"
proof -
  obtain k1 where k1: "uacpi_kernel_map slot (t_ptr tbl) HPET_REG_SIZE (hst s1) = Some (p, k1)"
    using kernel_map_page [OF assms(3,4)] by blast
  have "read_bytes (k_mem k1) p 4096 = read_bytes (k_mem (hst s1)) (t_ptr tbl) 4096"
    using kernel_map_copies_lemma [OF assms(2) k1 assms(4,5)] by simp
  then have "read_bytes (k_mem k1) p 8 = read_bytes (k_mem (hst s1)) (t_ptr tbl) 8"
    by (rule read_bytes_prefix) simp
  then have "read64 (k_mem k1) p = read64 (k_mem (hst s1)) (t_ptr tbl)" by (simp add: read64_def)
  then have per: "drop_bit 32 (read64 (k_mem k1) p) AND 0xFFFFFFFF = ucast len"
    using period_is_length [of "k_mem (hst s1)" "t_ptr tbl"] assms(6) by simp
  show ?thesis
  proof (cases "len = 0")
    case True
    with assms(1,4) k1 per show ?thesis
      by (simp add: timer_init_def Let_def hpet_read_register_def HPET_GENERAL_CAPABILITIES_ID_def
          hpet_configure_timer_def)
  next
    case False
    then have "ucast len \<noteq> (0 :: u64)" by transfer (simp add: take_bit_eq_0_iff)
    then obtain k2 where "hpet_configure_timer \<lparr>hpet_base = p, hpet_period = ucast len\<rparr> 0 100
        (hpet_write_register \<lparr>hpet_base = p, hpet_period = ucast len\<rparr> HPET_GENERAL_CONFIGURATION HPET_ENABLE_CNF k1)
        = Some (0, k2)"
      using configure_returns [of p "ucast len"] assms(4) by blast
    moreover obtain log where "kernel_printf (''[ OK ] HPET'' @ [CHR 0x0A]) [] k2 = Some (k2\<lparr>k_log := log\<rparr>)"
      using kernel_messages_print [of "''[ OK ] HPET'' @ [CHR 0x0A]"] by auto
    ultimately show ?thesis using False assms(1) k1 per
      by (cases t) (simp add: timer_init_def Let_def hpet_read_register_def HPET_GENERAL_CAPABILITIES_ID_def)
  qed
qed

text \<open>A kernel whose store has one table, the HPET table, mapped at 0x800000, and one free page.\<close>

definition timer_kernel :: "kernel tables_state" where
  "timer_kernel =
     \<lparr>hst = \<lparr>k_pmm = \<lparr>bitmap = (\<lambda>_. 0), page_addrs = (\<lambda>_. 0x400000), total_pages = 1\<rparr>,
              k_mem = (\<lambda>x. if x = 0x800004 then 56 else 0), k_log = []\<rparr>,
      tables = \<lparr>inline_storage = [(example_entry ''HPET'' 0x7000 0)\<lparr>reference_count := 1, it_ptr := 0x800000\<rparr>],
        dynamic_storage = [], dynamic_capacity = 0, size_including_inline = 1\<rparr>,
      early_table_access = True, installation_handler = None, rt_fadt = [],
      rt_flags = 0, is_hardware_reduced = False, is_rev1 = True\<rparr>"

lemma timer_period_is_table_length_witness:
  "\<exists>s'. timer_init None 0xFFFF800000010000 \<lparr>t_ptr = 0, t_index = 0\<rparr> \<lparr>hpet_base = 0, hpet_period = 0\<rparr> timer_kernel
     = Some ((0, \<lparr>hpet_base = 0x400000, hpet_period = 56\<rparr>), s')"
proof -
  obtain ret out s1 where run: "uacpi_table_find_by_signature (kernel_host None 0xFFFF800000010000)
      (cstr ''HPET'') timer_kernel = ((ret, out), s1)" by (metis prod.exhaust)
  then have out: "out = Some \<lparr>t_ptr = 0x800000, t_index = 0\<rparr>" and h: "hst s1 = hst timer_kernel"
    by (auto simp: uacpi_table_find_by_signature_def find_table_def uacpi_for_each_table_def
        timer_kernel_def example_entry_def darray_size_def darray_at_def
        darray_inline_capacity_def do_search_tables_def id_matches_no_ids uacpi_signatures_match_def
        sig_def cstr_def get_tbl_def darray_get_def table_ref_unlocked_def is_physical_def table_bytes_def
        uacpi_verify_table_checksum_def uacpi_check_flag_def UACPI_FLAG_BAD_CSUM_FATAL_def
        put_tbl_def darray_put_def count_reference_def upt_rec split: if_splits prod.splits)
  have inv: "pmm_inv (k_pmm (hst timer_kernel))" by (simp add: timer_kernel_def pmm_inv_def pages_def MAX_PAGES_def)
  have al: "fst (alloc_page (k_pmm (hst timer_kernel))) = Some 0x400000"
    by (simp add: timer_kernel_def alloc_page_def pmm_test_bit_def)
  have len: "h_length (read_hdr (k_mem (hst timer_kernel)) 0x800000) = 56"
    by (simp add: timer_kernel_def read_hdr_def read_bytes_def upt_rec)
  show ?thesis
    using timer_period_is_table_length [OF run [unfolded out], unfolded h, OF inv al] apart_pages len by simp
qed

end
