(* ===== verification/Ascii.thy ===== *)
theory Ascii
  imports Serial Acpi_Base
begin

text \<open>
  Characters and numbers in text: the first part of \<^verbatim>\<open>src/kern/acpi/utilities.c\<close>.  A pointer
  into a string is the list of the bytes from there to the end of its object, so that a read
  past the object is the result \<open>None\<close>; a length that is decremented is a natural number,
  because the code never decrements zero.
\<close>

section \<open>The character table\<close>

definition CHAR_TYPE_CONTROL :: u8 where "CHAR_TYPE_CONTROL = push_bit 0 1"
definition CHAR_TYPE_SPACE :: u8 where "CHAR_TYPE_SPACE = push_bit 1 1"
definition CHAR_TYPE_BLANK :: u8 where "CHAR_TYPE_BLANK = push_bit 2 1"
definition CHAR_TYPE_PUNCTUATION :: u8 where "CHAR_TYPE_PUNCTUATION = push_bit 3 1"
definition CHAR_TYPE_LOWER :: u8 where "CHAR_TYPE_LOWER = push_bit 4 1"
definition CHAR_TYPE_UPPER :: u8 where "CHAR_TYPE_UPPER = push_bit 5 1"
definition CHAR_TYPE_DIGIT :: u8 where "CHAR_TYPE_DIGIT = push_bit 6 1"
definition CHAR_TYPE_HEX_DIGIT :: u8 where "CHAR_TYPE_HEX_DIGIT = push_bit 7 1"
definition CHAR_TYPE_ALPHA :: u8 where "CHAR_TYPE_ALPHA = CHAR_TYPE_LOWER OR CHAR_TYPE_UPPER"
definition CHAR_TYPE_ALHEX :: u8 where "CHAR_TYPE_ALHEX = CHAR_TYPE_ALPHA OR CHAR_TYPE_HEX_DIGIT"
definition CHAR_TYPE_ALNUM :: u8 where "CHAR_TYPE_ALNUM = CHAR_TYPE_ALPHA OR CHAR_TYPE_DIGIT"

lemmas char_types = CHAR_TYPE_CONTROL_def CHAR_TYPE_SPACE_def CHAR_TYPE_BLANK_def
  CHAR_TYPE_PUNCTUATION_def CHAR_TYPE_LOWER_def CHAR_TYPE_UPPER_def CHAR_TYPE_DIGIT_def
  CHAR_TYPE_HEX_DIGIT_def CHAR_TYPE_ALPHA_def CHAR_TYPE_ALHEX_def CHAR_TYPE_ALNUM_def

text \<open>The initialiser stops at 127; the rest of the 256 entries is zero.\<close>

definition ascii_map :: "u8 list" where
  "ascii_map = concat (map (\<lambda>(n, t). replicate n t)
    [(9, CHAR_TYPE_CONTROL),                                           \<comment> \<open>0 to 8\<close>
     (1, CHAR_TYPE_CONTROL OR CHAR_TYPE_SPACE OR CHAR_TYPE_BLANK),     \<comment> \<open>9, tab\<close>
     (4, CHAR_TYPE_CONTROL OR CHAR_TYPE_SPACE),                        \<comment> \<open>10 to 13\<close>
     (18, CHAR_TYPE_CONTROL),                                          \<comment> \<open>14 to 31\<close>
     (1, CHAR_TYPE_SPACE OR CHAR_TYPE_BLANK),                          \<comment> \<open>32, space\<close>
     (15, CHAR_TYPE_PUNCTUATION),                                      \<comment> \<open>33 to 47\<close>
     (10, CHAR_TYPE_DIGIT OR CHAR_TYPE_HEX_DIGIT),                     \<comment> \<open>48 to 57\<close>
     (7, CHAR_TYPE_PUNCTUATION),                                       \<comment> \<open>58 to 64\<close>
     (6, CHAR_TYPE_UPPER OR CHAR_TYPE_HEX_DIGIT),                      \<comment> \<open>65 to 70\<close>
     (20, CHAR_TYPE_UPPER),                                            \<comment> \<open>71 to 90\<close>
     (6, CHAR_TYPE_PUNCTUATION),                                       \<comment> \<open>91 to 96\<close>
     (6, CHAR_TYPE_LOWER OR CHAR_TYPE_HEX_DIGIT),                      \<comment> \<open>97 to 102\<close>
     (20, CHAR_TYPE_LOWER),                                            \<comment> \<open>103 to 122\<close>
     (4, CHAR_TYPE_PUNCTUATION),                                       \<comment> \<open>123 to 126\<close>
     (1, CHAR_TYPE_CONTROL),                                           \<comment> \<open>127\<close>
     (128, 0)])"

definition is_char :: "u8 \<Rightarrow> u8 \<Rightarrow> bool" where
  "is_char c type \<longleftrightarrow> (ascii_map ! unat c) AND type = type"

definition to_lower :: "u8 \<Rightarrow> u8" where
  "to_lower c = (if is_char c CHAR_TYPE_UPPER then c + (of_char CHR ''a'' - of_char CHR ''A'') else c)"

section \<open>Consuming a string of bounded length\<close>

text \<open>
  The string and its remaining length are the code's two reference parameters.  The inner
  option of \<open>peek_one\<close> is its boolean result with the character; \<open>None\<close> outside is a read
  past the object.
\<close>

definition peek_one :: "u8 list \<Rightarrow> nat \<Rightarrow> u8 option option" where
  "peek_one str size' =
     (if size' = 0 then Some None
      else case str of [] \<Rightarrow> None | c # _ \<Rightarrow> Some (Some c))"

definition consume_one :: "u8 list \<Rightarrow> nat \<Rightarrow> (u8 option \<times> u8 list \<times> nat) option" where
  "consume_one str size' =
     do { p \<leftarrow> peek_one str size';
          Some (case p of None \<Rightarrow> (None, str, size') | Some c \<Rightarrow> (Some c, tl str, size' - 1)) }"

definition consume_if :: "u8 list \<Rightarrow> nat \<Rightarrow> u8 \<Rightarrow> (bool \<times> u8 list \<times> nat) option" where
  "consume_if str size' type =
     do { p \<leftarrow> peek_one str size';
          Some (case p of
                  None \<Rightarrow> (False, str, size')
                | Some c \<Rightarrow> if \<not> is_char c type then (False, str, size') else (True, tl str, size' - 1)) }"

definition consume_if_equals :: "u8 list \<Rightarrow> nat \<Rightarrow> u8 \<Rightarrow> (bool \<times> u8 list \<times> nat) option" where
  "consume_if_equals str size' c =
     do { p \<leftarrow> peek_one str size';
          Some (case p of
                  None \<Rightarrow> (False, str, size')
                | Some c1 \<Rightarrow> if to_lower c1 \<noteq> c then (False, str, size') else (True, tl str, size' - 1)) }"

text \<open>\<^verbatim>\<open>while (consume_if(&str, &max_chars, CHAR_TYPE_SPACE));\<close>\<close>

fun skip_spaces :: "nat \<Rightarrow> u8 list \<Rightarrow> (u8 list \<times> nat) option" where
  "skip_spaces 0 str = Some (str, 0)"
| "skip_spaces (Suc n) [] = None"
| "skip_spaces (Suc n) (c # str) =
     (if is_char c CHAR_TYPE_SPACE then skip_spaces n str else Some (c # str, Suc n))"

section \<open>Numbers\<close>

datatype uacpi_base = UACPI_BASE_AUTO | UACPI_BASE_OCT | UACPI_BASE_DEC | UACPI_BASE_HEX

fun base_value :: "uacpi_base \<Rightarrow> u64" where
  "base_value UACPI_BASE_AUTO = 0"
| "base_value UACPI_BASE_OCT = 8"
| "base_value UACPI_BASE_DEC = 10"
| "base_value UACPI_BASE_HEX = 16"

text \<open>The \<^verbatim>\<open>switch\<close> over the class of the character; \<open>None\<close> is \<^verbatim>\<open>goto out\<close>.\<close>

definition digit_value :: "uacpi_base \<Rightarrow> u8 \<Rightarrow> u64 option" where
  "digit_value base c =
     (let cls = (ascii_map ! unat c) AND (CHAR_TYPE_DIGIT OR CHAR_TYPE_ALHEX) in
      if cls = CHAR_TYPE_DIGIT OR CHAR_TYPE_HEX_DIGIT then
        let next' = ucast (c - of_char CHR ''0'') in
        if base = UACPI_BASE_OCT \<and> next' > 7 then None else Some next'
      else if cls = CHAR_TYPE_LOWER OR CHAR_TYPE_HEX_DIGIT \<or> cls = CHAR_TYPE_UPPER OR CHAR_TYPE_HEX_DIGIT then
        if base \<noteq> UACPI_BASE_HEX then None
        else Some (10 + ucast (to_lower c - of_char CHR ''a''))
      else None)"

text \<open>
  The digit loop: the value, the last character consumed and the remaining length when it
  ends, by the end of the string or by \<^verbatim>\<open>goto out\<close>.
\<close>

fun digit_loop :: "uacpi_base \<Rightarrow> u64 \<Rightarrow> u8 \<Rightarrow> nat \<Rightarrow> u8 list \<Rightarrow> (u64 \<times> u8 \<times> nat) option" where
  "digit_loop base v c 0 str = Some (v, c, 0)"
| "digit_loop base v c (Suc n) [] = None"
| "digit_loop base v c (Suc n) (d # str) =
     (case digit_value base d of
        None \<Rightarrow> Some (v, d, n)
      | Some next' \<Rightarrow>
          let next' = v * base_value base + next' in
          if next' div base_value base \<noteq> v then Some (0xFFFFFFFFFFFFFFFF, d, n)
          else digit_loop base next' d n str)"

text \<open>The negation is on a signed 64-bit integer, whose smallest value has none.\<close>

definition uacpi_string_to_integer ::
  "u8 list \<Rightarrow> nat \<Rightarrow> uacpi_base \<Rightarrow> (uacpi_status \<times> u64) option" where
  "uacpi_string_to_integer str max_chars base =
     do { (str, max_chars) \<leftarrow> skip_spaces max_chars str;
          (negative, str, max_chars) \<leftarrow> consume_if_equals str max_chars (of_char CHR ''-'');
          (str, max_chars) \<leftarrow>
            (if negative then Some (str, max_chars)
             else do { (_, str, max_chars) \<leftarrow> consume_if_equals str max_chars (of_char CHR ''+'');
                       Some (str, max_chars) });
          (base, str, max_chars) \<leftarrow>
            (if base = UACPI_BASE_AUTO then
               do { (zero, str, max_chars) \<leftarrow> consume_if_equals str max_chars (of_char CHR ''0'');
                    if zero then
                      do { (x, str, max_chars) \<leftarrow> consume_if_equals str max_chars (of_char CHR ''x'');
                           Some (if x then UACPI_BASE_HEX else UACPI_BASE_OCT, str, max_chars) }
                    else Some (UACPI_BASE_DEC, str, max_chars) }
             else Some (base, str, max_chars));
          (v, c, max_chars) \<leftarrow> digit_loop base 0 0 max_chars str;
          v \<leftarrow> (if negative then (if v = 0x8000000000000000 then None else Some (- v)) else Some v);
          Some (if max_chars = 0 \<or> c = 0 then UACPI_STATUS_OK else UACPI_STATUS_INVALID_ARGUMENT, v) }"

section \<open>Names and EISA identifiers\<close>

definition is_valid_name_byte :: "u8 \<Rightarrow> bool" where
  "is_valid_name_byte c \<longleftrightarrow>
     (if c = 0x5F then True
      else (ascii_map ! unat c) AND (CHAR_TYPE_DIGIT OR CHAR_TYPE_UPPER) \<noteq> 0)"

definition uacpi_is_valid_nameseg :: "u8 list \<Rightarrow> bool" where
  "uacpi_is_valid_nameseg nameseg \<longleftrightarrow>
     is_valid_name_byte (nameseg ! 0) \<and> is_valid_name_byte (nameseg ! 1)
     \<and> is_valid_name_byte (nameseg ! 2) \<and> is_valid_name_byte (nameseg ! 3)"

definition swap_bytes :: "u32 \<Rightarrow> u32" where
  "swap_bytes v =
     push_bit 24 (v AND 0xFF) OR push_bit 16 (drop_bit 8 v AND 0xFF)
     OR push_bit 8 (drop_bit 16 v AND 0xFF) OR (drop_bit 24 v AND 0xFF)"

definition uacpi_eisa_id_to_string :: "u32 \<Rightarrow> u8 list" where
  "uacpi_eisa_id_to_string eisa =
     (let swapped = swap_bytes eisa in
      [0x40 + ucast (drop_bit 26 swapped AND 0x1F),
       0x40 + ucast (drop_bit 21 swapped AND 0x1F),
       0x40 + ucast (drop_bit 16 swapped AND 0x1F),
       hex_digits ! unat (drop_bit 12 swapped AND 0x0F),
       hex_digits ! unat (drop_bit 8 swapped AND 0x0F),
       hex_digits ! unat (drop_bit 4 swapped AND 0x0F),
       hex_digits ! unat (drop_bit 0 swapped AND 0x0F),
       0])"

section \<open>Digits\<close>

text \<open>What a character stands for, by the ranges of the character set.\<close>

definition char_digit :: "u8 \<Rightarrow> nat option" where
  "char_digit c =
     (if 48 \<le> c \<and> c \<le> 57 then Some (unat c - 48)
      else if 65 \<le> c \<and> c \<le> 70 then Some (unat c - 55)
      else if 97 \<le> c \<and> c \<le> 102 then Some (unat c - 87)
      else None)"

definition is_digit_of :: "uacpi_base \<Rightarrow> u8 \<Rightarrow> bool" where
  "is_digit_of base c \<longleftrightarrow> (case char_digit c of None \<Rightarrow> False | Some d \<Rightarrow> d < unat (base_value base))"

text \<open>Reading a table that is given by runs of equal entries.\<close>

fun run_at :: "nat \<Rightarrow> (nat \<times> 'a) list \<Rightarrow> nat \<Rightarrow> 'a option" where
  "run_at off [] n = None"
| "run_at off ((k, x) # rs) n = (if n < off + k then Some x else run_at (off + k) rs n)"

lemma nth_runs:
  "off \<le> n \<Longrightarrow> run_at off rs n = Some x \<Longrightarrow> concat (map (\<lambda>(k, x). replicate k x) rs) ! (n - off) = x"
proof (induction off rs n rule: run_at.induct)
  case (2 off k y rs n)
  show ?case
  proof (cases "n < off + k")
    case True
    with 2 show ?thesis by (simp add: nth_append less_diff_conv2)
  next
    case False
    with 2 have "concat (map (\<lambda>(k, x). replicate k x) rs) ! (n - (off + k)) = x" by simp
    with False show ?thesis by (simp add: nth_append less_diff_conv2)
  qed
qed simp

lemma ascii_map_nth:
  assumes "n < 256"
  shows "ascii_map ! n =
    (if n < 9 then 1 else if n < 10 then 7 else if n < 14 then 3 else if n < 32 then 1
     else if n < 33 then 6 else if n < 48 then 8 else if n < 58 then 0xC0 else if n < 65 then 8
     else if n < 71 then 0xA0 else if n < 91 then 0x20 else if n < 97 then 8
     else if n < 103 then 0x90 else if n < 123 then 0x10 else if n < 127 then 8
     else if n < 128 then 1 else 0)"
proof -
  have "ascii_map ! (n - 0) = x \<Longrightarrow> ascii_map ! n = x" for x by simp
  then show ?thesis
    unfolding ascii_map_def char_types
    by (rule, intro nth_runs) (use assms in simp_all)
qed

lemma unat_u8_less: "unat (c :: u8) < 256"
  using unsigned_less [of c] by simp

lemma is_upper: "is_char c CHAR_TYPE_UPPER \<longleftrightarrow> 65 \<le> unat c \<and> unat c \<le> 90"
  unfolding is_char_def char_types ascii_map_nth [OF unat_u8_less] by simp

lemma is_space: "is_char c CHAR_TYPE_SPACE \<longleftrightarrow> 9 \<le> unat c \<and> unat c \<le> 13 \<or> unat c = 32"
  unfolding is_char_def char_types ascii_map_nth [OF unat_u8_less] by simp

lemma to_lower_unat: "unat (to_lower c) = (if 65 \<le> unat c \<and> unat c \<le> 90 then unat c + 32 else unat c)"
  using unat_u8_less [of c] by (simp add: to_lower_def is_upper unat_word_ariths)

lemma digit_class:
  "(ascii_map ! unat (c :: u8)) AND (CHAR_TYPE_DIGIT OR CHAR_TYPE_ALHEX) =
    (if 48 \<le> unat c \<and> unat c \<le> 57 then 0xC0 else if 65 \<le> unat c \<and> unat c \<le> 70 then 0xA0
     else if 71 \<le> unat c \<and> unat c \<le> 90 then 0x20 else if 97 \<le> unat c \<and> unat c \<le> 102 then 0x90
     else if 103 \<le> unat c \<and> unat c \<le> 122 then 0x10 else 0)"
  unfolding char_types ascii_map_nth [OF unat_u8_less] by simp

lemma ucast_minus_u8:
  assumes "k \<le> unat (c :: u8)"
  shows "(ucast (c - of_nat k) :: u64) = of_nat (unat c - k)"
proof -
  have "unat (c - of_nat k) = unat c - k"
    using assms unat_u8_less [of c] by (simp add: unat_sub word_le_nat_alt unat_of_nat take_bit_nat_eq_self)
  then show ?thesis by (metis of_nat_unat)
qed

lemma digit_value_eq:
  assumes "base \<noteq> UACPI_BASE_AUTO"
  shows "digit_value base c =
    (case char_digit c of
       None \<Rightarrow> None
     | Some d \<Rightarrow> if d < unat (base_value base) then Some (of_nat d) else None)"
proof -
  note [simp] = word_le_nat_alt word_less_nat_alt unat_of_nat_u64 char_types to_lower_unat
  consider (dec) "48 \<le> unat c" "unat c \<le> 57" | (upper) "65 \<le> unat c" "unat c \<le> 70"
    | (lower) "97 \<le> unat c" "unat c \<le> 102"
    | (other) "\<not> (48 \<le> unat c \<and> unat c \<le> 57)" "\<not> (65 \<le> unat c \<and> unat c \<le> 70)" "\<not> (97 \<le> unat c \<and> unat c \<le> 102)"
    by blast
  then show ?thesis
  proof cases
    case dec
    then have "char_digit c = Some (unat c - 48)" "unat c - 48 < 10" by (auto simp: char_digit_def)
    moreover have "(ucast (c - 48) :: u64) = of_nat (unat c - 48)" using ucast_minus_u8 [OF dec(1)] by simp
    moreover have "digit_value base c =
        (if base = UACPI_BASE_OCT \<and> (ucast (c - 48) :: u64) > 7 then None else Some (ucast (c - 48)))"
      unfolding digit_value_def Let_def digit_class using dec by simp
    ultimately show ?thesis using assms by (cases base) (simp_all del: of_nat_diff)
  next
    case upper
    then have "char_digit c = Some (unat c - 55)" "unat c - 55 < 16" "10 \<le> unat c - 55" by (auto simp: char_digit_def)
    moreover have "(ucast (to_lower c - 97) :: u64) = of_nat (unat c - 65)"
      using ucast_minus_u8 [of 97 "to_lower c"] upper by simp
    moreover have "digit_value base c = (if base \<noteq> UACPI_BASE_HEX then None else Some (10 + ucast (to_lower c - 97)))"
      unfolding digit_value_def Let_def digit_class using upper by simp
    moreover have "10 + of_nat (unat c - 65) = (of_nat (unat c - 55) :: u64)" using upper by simp
    ultimately show ?thesis using assms by (cases base) (simp_all del: of_nat_diff)
  next
    case lower
    then have "char_digit c = Some (unat c - 87)" "unat c - 87 < 16" "10 \<le> unat c - 87" by (auto simp: char_digit_def)
    moreover have "(ucast (to_lower c - 97) :: u64) = of_nat (unat c - 97)"
      using ucast_minus_u8 [of 97 "to_lower c"] lower by simp
    moreover have "digit_value base c = (if base \<noteq> UACPI_BASE_HEX then None else Some (10 + ucast (to_lower c - 97)))"
      unfolding digit_value_def Let_def digit_class using lower by simp
    moreover have "10 + of_nat (unat c - 97) = (of_nat (unat c - 87) :: u64)" using lower by simp
    ultimately show ?thesis using assms by (cases base) (simp_all del: of_nat_diff)
  next
    case other
    then have "char_digit c = None" by (simp add: char_digit_def)
    moreover have "digit_value base c = None"
      unfolding digit_value_def Let_def digit_class using other by auto
    ultimately show ?thesis by simp
  qed
qed

section \<open>Numerals\<close>

text \<open>The number a string of digits stands for, and the overflow test of the loop.\<close>

definition numeral_value :: "nat \<Rightarrow> u8 list \<Rightarrow> nat \<Rightarrow> nat" where
  "numeral_value b cs v = fold (\<lambda>c v. v * b + the (char_digit c)) cs v"

lemma numeral_value_simps [simp]:
  "numeral_value b [] v = v"
  "numeral_value b (c # cs) v = numeral_value b cs (v * b + the (char_digit c))"
  by (simp_all add: numeral_value_def)

lemma numeral_value_ge: "0 < b \<Longrightarrow> v * b ^ length cs \<le> numeral_value b cs v"
proof (induction cs arbitrary: v)
  case (Cons c cs)
  have "v * b ^ length (c # cs) \<le> (v * b + the (char_digit c)) * b ^ length cs"
    by (simp add: algebra_simps)
  also have "\<dots> \<le> numeral_value b cs (v * b + the (char_digit c))" using Cons by simp
  finally show ?case by simp
qed simp

lemma overflow_check:
  assumes "v < 2 ^ 64" and "d < b" and "b < 2 ^ 64"
  shows "((of_nat v * of_nat b + of_nat d :: u64) div of_nat b = of_nat v) = (v * b + d < 2 ^ 64)"
proof -
  have b: "unat (of_nat b :: u64) = b" "unat (of_nat v :: u64) = v" using assms by (simp_all add: unat_of_nat_u64)
  have "unat (of_nat v * of_nat b + of_nat d :: u64) = (v * b + d) mod 2 ^ 64"
    using unat_of_nat_mod [of 64 "v * b + d"] unat_u64_less [of "of_nat (v * b + d)"] by simp
  then have "unat ((of_nat v * of_nat b + of_nat d :: u64) div of_nat b) = (v * b + d) mod 2 ^ 64 div b"
    using b by (simp add: unat_div_distrib)
  then have eq: "((of_nat v * of_nat b + of_nat d :: u64) div of_nat b = of_nat v) = ((v * b + d) mod 2 ^ 64 div b = v)"
    using b by (simp add: word_unat_eq_iff)
  show ?thesis
  proof (cases "v * b + d < 2 ^ 64")
    case True
    then show ?thesis unfolding eq using assms(2) by simp
  next
    case False
    have "(v * b + d) mod 2 ^ 64 < v * b"
    proof -
      have "(v * b + d) mod 2 ^ 64 = (v * b + d - 2 ^ 64) mod 2 ^ 64" using False by (simp add: le_mod_geq)
      also have "\<dots> \<le> v * b + d - 2 ^ 64" by simp
      also have "\<dots> < v * b" using assms(2,3) False by linarith
      finally show ?thesis .
    qed
    then have "(v * b + d) mod 2 ^ 64 div b < v" by (simp add: less_mult_imp_div_less)
    with False show ?thesis unfolding eq by simp
  qed
qed

lemma base_value_bounds: "base \<noteq> UACPI_BASE_AUTO \<Longrightarrow> 8 \<le> unat (base_value base) \<and> unat (base_value base) \<le> 16"
  by (cases base) simp_all

lemma is_digit_ofD:
  assumes "is_digit_of base c" and "base \<noteq> UACPI_BASE_AUTO"
  shows "\<exists>d. char_digit c = Some d \<and> d < unat (base_value base) \<and> digit_value base c = Some (of_nat d)" "c \<noteq> 0"
proof -
  from assms show "\<exists>d. char_digit c = Some d \<and> d < unat (base_value base) \<and> digit_value base c = Some (of_nat d)"
    by (auto simp: is_digit_of_def digit_value_eq split: option.splits)
  then show "c \<noteq> 0" by (auto simp: char_digit_def)
qed

lemma digit_loop_digits:
  assumes "base \<noteq> UACPI_BASE_AUTO" and "list_all (is_digit_of base) cs" and "v < 2 ^ 64"
    and "V = numeral_value (unat (base_value base)) cs v"
  shows "if V < 2 ^ 64
         then digit_loop base (of_nat v) c (length cs + k) (cs @ rest) = digit_loop base (of_nat V) (last (c # cs)) k rest
         else \<exists>d n. digit_loop base (of_nat v) c (length cs + k) (cs @ rest) = Some (0xFFFFFFFFFFFFFFFF, d, n + k)
            \<and> d \<noteq> 0 \<and> (n = 0 \<longleftrightarrow> V div unat (base_value base) < 2 ^ 64)"
  using assms(2-4)
proof (induction cs arbitrary: v c)
  case (Cons d cs)
  let ?b = "unat (base_value base)"
  have b: "8 \<le> ?b" "?b \<le> 16" "of_nat ?b = base_value base" using base_value_bounds [OF assms(1)] by simp_all
  from Cons.prems(1) is_digit_ofD [of base d] assms(1) obtain x where
    x: "char_digit d = Some x" "x < ?b" "digit_value base d = Some (of_nat x)" "d \<noteq> 0" by auto
  have ov: "((of_nat v * base_value base + of_nat x) div base_value base = of_nat v) = (v * ?b + x < 2 ^ 64)"
    using overflow_check [OF Cons.prems(2) x(2)] b(2,3) by simp
  show ?case
  proof (cases "v * ?b + x < 2 ^ 64")
    case True
    have run: "digit_loop base (of_nat v) c (length (d # cs) + k) ((d # cs) @ rest)
        = digit_loop base (of_nat (v * ?b + x)) d (length cs + k) (cs @ rest)"
      using x(3) ov True b(3) by (simp add: Let_def)
    have V: "V = numeral_value ?b cs (v * ?b + x)" using Cons.prems(3) x(1) by simp
    have tl: "list_all (is_digit_of base) cs" using Cons.prems(1) by simp
    have last: "last (c # d # cs) = last (d # cs)" by simp
    show ?thesis unfolding run last by (rule Cons.IH [OF tl True V])
  next
    case False
    have V: "V = numeral_value ?b cs (v * ?b + x)" using Cons.prems(3) x(1) by simp
    have run: "digit_loop base (of_nat v) c (length (d # cs) + k) ((d # cs) @ rest)
        = Some (0xFFFFFFFFFFFFFFFF, d, length cs + k)"
      using x(3) ov False by (simp add: Let_def)
    have ge: "(v * ?b + x) * ?b ^ length cs \<le> V" unfolding V using b(1) by (intro numeral_value_ge) simp
    have "length cs = 0 \<longleftrightarrow> V div ?b < 2 ^ 64"
    proof (cases cs)
      case Nil
      have "V div ?b = v" using V Nil x(2) by simp
      with Nil Cons.prems(2) show ?thesis by simp
    next
      case (Cons e es)
      have "(v * ?b + x) * ?b \<le> (v * ?b + x) * ?b ^ length cs"
        using Cons b(1) by simp
      then have "(v * ?b + x) * ?b \<le> V" using ge by (rule order_trans)
      then have "v * ?b + x \<le> V div ?b" using b(1) by (subst less_eq_div_iff_mult_less_eq) simp_all
      with False Cons show ?thesis by simp
    qed
    moreover have "\<not> V < 2 ^ 64"
    proof -
      have "(v * ?b + x) * 1 \<le> (v * ?b + x) * ?b ^ length cs" using b(1) by (intro mult_le_mono2) simp
      moreover have "2 ^ 64 \<le> (v * ?b + x) * 1" using False by simp
      ultimately have "2 ^ 64 \<le> (v * ?b + x) * ?b ^ length cs" by (rule order_trans [rotated])
      then have "2 ^ 64 \<le> V" using ge by (rule order_trans)
      then show ?thesis by (simp only: not_less)
    qed
    ultimately show ?thesis using run x(4) by auto
  qed
qed simp

lemma digit_is_plain:
  assumes "char_digit c = Some d"
  shows "\<not> is_char c CHAR_TYPE_SPACE" "to_lower c \<noteq> of_char CHR ''-''" "to_lower c \<noteq> of_char CHR ''+''"
proof -
  from assms have "48 \<le> unat c \<and> unat c \<le> 57 \<or> 65 \<le> unat c \<and> unat c \<le> 70 \<or> 97 \<le> unat c \<and> unat c \<le> 102"
    by (auto simp: char_digit_def word_le_nat_alt split: if_splits)
  then show "\<not> is_char c CHAR_TYPE_SPACE" "to_lower c \<noteq> of_char CHR ''-''" "to_lower c \<noteq> of_char CHR ''+''"
    by (auto simp: is_space word_unat_eq_iff to_lower_unat)
qed

lemma string_to_integer_plain:
  assumes "base \<noteq> UACPI_BASE_AUTO" and "char_digit c = Some d"
  shows "uacpi_string_to_integer (c # str) (Suc n) base =
    map_option (\<lambda>(v, c, n). (if n = 0 \<or> c = 0 then UACPI_STATUS_OK else UACPI_STATUS_INVALID_ARGUMENT, v))
      (digit_loop base 0 0 (Suc n) (c # str))"
  using assms(1) digit_is_plain [OF assms(2)]
  by (simp add: uacpi_string_to_integer_def consume_if_equals_def peek_one_def map_option_case
      del: digit_loop.simps split: option.split)

lemma string_to_integer_run:
  assumes "base \<noteq> UACPI_BASE_AUTO" and "cs \<noteq> []" and "list_all (is_digit_of base) cs"
  shows "uacpi_string_to_integer (cs @ rest) (length cs + k) base =
    map_option (\<lambda>(v, c, n). (if n = 0 \<or> c = 0 then UACPI_STATUS_OK else UACPI_STATUS_INVALID_ARGUMENT, v))
      (digit_loop base 0 0 (length cs + k) (cs @ rest))"
proof -
  from assms(2) obtain c cs' where cs: "cs = c # cs'" by (cases cs) auto
  with assms(3) obtain d where "char_digit c = Some d" using is_digit_ofD(1) [OF _ assms(1), of c] by auto
  from string_to_integer_plain [OF assms(1) this, of "cs' @ rest" "length cs' + k"] cs show ?thesis by simp
qed

lemma digits_read:
  assumes "base \<noteq> UACPI_BASE_AUTO" and "cs \<noteq> []" and "list_all (is_digit_of base) cs"
    and "numeral_value (unat (base_value base)) cs 0 < 2 ^ 64"
  shows "uacpi_string_to_integer (cs @ rest) (length cs) base =
    Some (UACPI_STATUS_OK, of_nat (numeral_value (unat (base_value base)) cs 0))"
  using digit_loop_digits [OF assms(1,3) _ refl, where v = 0 and c = 0 and k = 0 and rest = rest] assms(4)
    string_to_integer_run [OF assms(1-3), of rest 0] by simp

section \<open>Properties\<close>

text \<open>C33: a numeral is read exactly, or saturates.  On a string of digits of the base,
  \<open>uacpi_string_to_integer\<close> yields the number they stand for, and the largest 64-bit number
  if that does not fit; it then reports an error, except when only the last digit overflows.\<close>

theorem string_to_integer_digits:
  assumes "base \<noteq> UACPI_BASE_AUTO" and "cs \<noteq> []" and "list_all (is_digit_of base) cs"
    and "V = numeral_value (unat (base_value base)) cs 0"
  shows "uacpi_string_to_integer (cs @ rest) (length cs) base =
    Some (if V div unat (base_value base) < 2 ^ 64 then UACPI_STATUS_OK else UACPI_STATUS_INVALID_ARGUMENT,
          if V < 2 ^ 64 then of_nat V else 0xFFFFFFFFFFFFFFFF)"
proof (cases "V < 2 ^ 64")
  case True
  then have "V div unat (base_value base) < 2 ^ 64" by (rule order.strict_trans1 [OF div_le_dividend])
  with True show ?thesis
    using digit_loop_digits [OF assms(1,3) _ assms(4), of 0 0 rest]
      string_to_integer_run [OF assms(1-3), of rest 0] by simp
next
  case False
  then show ?thesis
    using digit_loop_digits [OF assms(1,3) _ assms(4), of 0 0 rest]
      string_to_integer_run [OF assms(1-3), of rest 0] by auto
qed

theorem string_to_integer_digits_witness:
  "uacpi_string_to_integer (map of_char ''ffZ'') 2 UACPI_BASE_HEX = Some (UACPI_STATUS_OK, 255)"
  using string_to_integer_digits [of UACPI_BASE_HEX "map of_char ''ff''" 255 "map of_char ''Z''"]
  by (simp add: is_digit_of_def char_digit_def) (simp add: numeral_2_eq_2 numeral_3_eq_3)

text \<open>Where a numeral stops.  After a number that fits, the first character that is no
  digit ends the numeral; the result is an error unless that character is the terminator or
  the last one of the given length, so that a wrong last character goes unnoticed.\<close>

lemma string_to_integer_stops:
  assumes "base \<noteq> UACPI_BASE_AUTO" and "cs \<noteq> []" and "list_all (is_digit_of base) cs"
    and "V = numeral_value (unat (base_value base)) cs 0" and "V < 2 ^ 64" and "\<not> is_digit_of base d"
  shows "uacpi_string_to_integer (cs @ d # rest) (length cs + Suc k) base =
    Some (if k = 0 \<or> d = 0 then UACPI_STATUS_OK else UACPI_STATUS_INVALID_ARGUMENT, of_nat V)"
proof -
  have "digit_value base d = None"
    using assms(1,6) by (auto simp: digit_value_eq is_digit_of_def split: option.splits)
  then show ?thesis
    using digit_loop_digits [OF assms(1,3) _ assms(4), of 0 "Suc k" "d # rest"] assms(5)
      string_to_integer_run [OF assms(1-3), of "d # rest" "Suc k"] by simp
qed

lemma string_to_integer_stops_witness:
  "uacpi_string_to_integer (map of_char ''12x'') 3 UACPI_BASE_DEC = Some (UACPI_STATUS_OK, 12)
   \<and> uacpi_string_to_integer (map of_char ''1x4'') 3 UACPI_BASE_DEC = Some (UACPI_STATUS_INVALID_ARGUMENT, 1)"
  using string_to_integer_stops [of UACPI_BASE_DEC "map of_char ''12''" 12 "of_char CHR ''x''" "[]" 0]
    string_to_integer_stops [of UACPI_BASE_DEC "map of_char ''1''" 1 "of_char CHR ''x''" "[52]" 1]
  by (simp add: is_digit_of_def char_digit_def) (simp add: numeral_2_eq_2 numeral_3_eq_3)

text \<open>The number an EISA identifier in text form stands for.\<close>

definition hex_nibble :: "u8 \<Rightarrow> u32" where
  "hex_nibble c = of_nat (the (char_digit c))"

definition eisa_id_of_string :: "u8 list \<Rightarrow> u32" where
  "eisa_id_of_string str = swap_bytes
     (push_bit 26 (ucast (str ! 0 - 0x40) AND 0x1F) OR push_bit 21 (ucast (str ! 1 - 0x40) AND 0x1F)
      OR push_bit 16 (ucast (str ! 2 - 0x40) AND 0x1F)
      OR push_bit 12 (hex_nibble (str ! 3)) OR push_bit 8 (hex_nibble (str ! 4))
      OR push_bit 4 (hex_nibble (str ! 5)) OR hex_nibble (str ! 6))"

lemma hex_nibble_digit:
  assumes "n < 16"
  shows "hex_nibble (hex_digits ! n) = of_nat n"
proof -
  have "list_all (\<lambda>n. hex_nibble (hex_digits ! n) = of_nat n) [0..<16]"
    by (simp add: upt_rec hex_digits_def hex_nibble_def char_digit_def)
  with assms show ?thesis by (simp add: list_all_iff)
qed

lemma mask_5: "(0x1F :: u32) = mask 5" and mask_4: "(0x0F :: u32) = mask 4"
  and mask_8: "(0xFF :: u32) = mask 8"
  by (simp_all add: mask_eq_exp_minus_1)

lemma hex_nibble_field: "hex_nibble (hex_digits ! unat (x AND 0x0F :: u32)) = x AND mask 4"
proof -
  have "unat (x AND 0x0F) < 16"
    using word_and_le1 [of x "0x0F"] by (simp add: word_le_nat_alt)
  then show ?thesis by (simp add: hex_nibble_digit mask_4)
qed

lemma letter_field: "(ucast ((0x40 + ucast (x AND 0x1F :: u32) :: u8) - 0x40) :: u32) AND 0x1F = x AND mask 5"
  unfolding mask_5 by (simp, rule bit_word_eqI) (auto simp: bit_simps)

lemma nth_eight:
  "[a, b, c, d, e, f, g, h] ! 0 = a" "[a, b, c, d, e, f, g, h] ! 1 = b" "[a, b, c, d, e, f, g, h] ! 2 = c"
  "[a, b, c, d, e, f, g, h] ! 3 = d" "[a, b, c, d, e, f, g, h] ! 4 = e" "[a, b, c, d, e, f, g, h] ! 5 = f"
  "[a, b, c, d, e, f, g, h] ! 6 = g"
  by simp_all

lemma field_mask: "push_bit k (drop_bit k s AND mask w) = s AND push_bit k (mask w :: u32)"
  by (rule bit_word_eqI) (auto simp: bit_simps)

lemma swap_fields:
  "push_bit 26 (drop_bit 26 s AND mask 5) OR push_bit 21 (drop_bit 21 s AND mask 5)
   OR push_bit 16 (drop_bit 16 s AND mask 5) OR push_bit 12 (drop_bit 12 s AND mask 4)
   OR push_bit 8 (drop_bit 8 s AND mask 4) OR push_bit 4 (drop_bit 4 s AND mask 4)
   OR (drop_bit 0 s AND mask 4) = (s AND mask 31 :: u32)"
  using field_mask [of 0 s 4] unfolding field_mask
  by (simp add: bit.conj_disj_distrib [symmetric] mask_eq_exp_minus_1)

lemma bit_swap_bytes:
  assumes "n < 8"
  shows "bit (swap_bytes v) n = bit v (n + 24)" "bit (swap_bytes v) (n + 8) = bit v (n + 16)"
    "bit (swap_bytes v) (n + 16) = bit v (n + 8)" "bit (swap_bytes v) (n + 24) = bit v n"
  using assms by (auto simp: swap_bytes_def mask_8 bit_simps add.commute)

lemma bit_128: "bit (0x80 :: u32) n \<longleftrightarrow> n = 7"
proof -
  have "(0x80 :: u32) = push_bit 7 1" by simp
  then show ?thesis by (simp only: bit_push_bit_iff bit_1_iff) auto
qed

lemma swap_swap: "swap_bytes (swap_bytes v AND mask 31) = v AND NOT 0x80" (is "?l = ?r")
proof (rule bit_word_eqI)
  have r: "bit ?r n \<longleftrightarrow> bit v n \<and> n \<noteq> 7" for n
    by (simp only: bit_and_iff bit_not_iff bit_128 possible_bit_def) (auto dest: bit_imp_le_length)
  have eq: "bit ?l m = bit ?r m" "bit ?l (m + 8) = bit ?r (m + 8)" "bit ?l (m + 16) = bit ?r (m + 16)"
    "bit ?l (m + 24) = bit ?r (m + 24)" if "m < 8" for m
    using that unfolding r by (auto simp: bit_swap_bytes bit_simps)
  fix n assume "n < LENGTH(32)"
  then have "n < 8 \<or> n - 8 < 8 \<and> 8 \<le> n \<or> n - 16 < 8 \<and> 16 \<le> n \<or> n - 24 < 8 \<and> 24 \<le> n"
    by (simp, linarith)
  then show "bit ?l n = bit ?r n"
    using eq(1) [of n] eq(2) [of "n - 8"] eq(3) [of "n - 16"] eq(4) [of "n - 24"]
    by (elim disjE) simp_all
qed

text \<open>\<open>uacpi_eisa_id_to_string\<close> loses nothing but the top bit of the first byte.  Reading
  its seven characters back gives the identifier, so two identifiers with the same text differ
  in that bit only.\<close>

lemma eisa_id_roundtrip:
  "eisa_id_of_string (uacpi_eisa_id_to_string eisa) = eisa AND NOT 0x80
   \<and> length (uacpi_eisa_id_to_string eisa) = 8"
proof -
  note swap_swap [of eisa]
  moreover have "eisa_id_of_string (uacpi_eisa_id_to_string eisa) = swap_bytes (swap_bytes eisa AND mask 31)"
    unfolding uacpi_eisa_id_to_string_def eisa_id_of_string_def Let_def nth_eight letter_field hex_nibble_field
      swap_fields ..
  moreover have "length (uacpi_eisa_id_to_string eisa) = 8" by (simp add: uacpi_eisa_id_to_string_def Let_def)
  ultimately show ?thesis by simp
qed

end
