(* ===== verification/Stdlib.thy ===== *)
theory Stdlib
  imports Mem Ascii
begin

text \<open>
  The string and bit functions of \<^verbatim>\<open>src/kern/acpi/stdlib.c\<close>.  Strings are modelled as in
  the theory \<open>Ascii\<close>; blocks of memory as in the theory \<open>Mem\<close>.
\<close>

section \<open>Strings\<close>

fun uacpi_strlen :: "u8 list \<Rightarrow> nat option" where
  "uacpi_strlen [] = None"
| "uacpi_strlen (c # str) = (if c \<noteq> 0 then map_option Suc (uacpi_strlen str) else Some 0)"

fun uacpi_strnlen :: "u8 list \<Rightarrow> nat \<Rightarrow> nat option" where
  "uacpi_strnlen str 0 = Some 0"
| "uacpi_strnlen [] (Suc m) = None"
| "uacpi_strnlen (c # str) (Suc m) = (if c \<noteq> 0 then map_option Suc (uacpi_strnlen str m) else Some 0)"

fun uacpi_strcmp :: "u8 list \<Rightarrow> u8 list \<Rightarrow> int option" where
  "uacpi_strcmp (l # lhs) (r # rhs) =
     (if l \<noteq> 0 \<and> r \<noteq> 0 then
        if l \<noteq> r then Some (uint l - uint r) else uacpi_strcmp lhs rhs
      else Some (uint l - uint r))"
| "uacpi_strcmp _ _ = None"

section \<open>Blocks\<close>

definition uacpi_memcpy_zerout :: "u64 \<Rightarrow> u64 \<Rightarrow> u64 \<Rightarrow> u64 \<Rightarrow> mem \<Rightarrow> mem" where
  "uacpi_memcpy_zerout dst src dst_size src_size m =
     (let bytes_to_copy = (if src_size < dst_size then src_size else dst_size);
          m = (if bytes_to_copy \<noteq> 0 then snd (uacpi_memcpy dst src bytes_to_copy m) else m)
      in if dst_size > bytes_to_copy then
           snd (uacpi_memset (dst + bytes_to_copy) 0 (dst_size - bytes_to_copy) m)
         else m)"

section \<open>Bit scans\<close>

text \<open>
  The compiler's builtins, \<^verbatim>\<open>__builtin_ffsll\<close> and \<^verbatim>\<open>__builtin_clzll\<close> (the latter is
  undefined for zero, which the code excludes), and the two functions built on them.
\<close>

definition builtin_ffsll :: "u64 \<Rightarrow> nat" where
  "builtin_ffsll v = (case find (bit v) [0..<64] of None \<Rightarrow> 0 | Some n \<Rightarrow> n + 1)"

definition builtin_clzll :: "u64 \<Rightarrow> nat" where
  "builtin_clzll v = length (takeWhile (\<lambda>n. \<not> bit v n) (rev [0..<64]))"

definition uacpi_bit_scan_forward :: "u64 \<Rightarrow> u8" where
  "uacpi_bit_scan_forward v = of_nat (builtin_ffsll v)"

definition uacpi_bit_scan_backward :: "u64 \<Rightarrow> u8" where
  "uacpi_bit_scan_backward v = (if v = 0 then 0 else of_nat (64 - builtin_clzll v))"

text \<open>The portable versions the file has for a compiler without builtins.\<close>

fun scan_forward_loop :: "nat \<Rightarrow> u8 \<Rightarrow> u64 \<Rightarrow> u64 \<Rightarrow> u8" where
  "scan_forward_loop 0 index m v = 0"
| "scan_forward_loop (Suc n) index m v =
     (if v AND m \<noteq> 0 then index else scan_forward_loop n (index + 1) (push_bit 1 m) v)"

definition portable_bit_scan_forward :: "u64 \<Rightarrow> u8" where
  "portable_bit_scan_forward v = scan_forward_loop 64 1 1 v"

fun scan_backward_loop :: "nat \<Rightarrow> u8 \<Rightarrow> u64 \<Rightarrow> u64 \<Rightarrow> u8" where
  "scan_backward_loop 0 index m v = 0"
| "scan_backward_loop (Suc n) index m v =
     (if v AND m \<noteq> 0 then index else scan_backward_loop n (index - 1) (drop_bit 1 m) v)"

definition portable_bit_scan_backward :: "u64 \<Rightarrow> u8" where
  "portable_bit_scan_backward v = scan_backward_loop 64 64 (push_bit 63 1) v"

section \<open>Lemmas\<close>

lemma and_bit: "((v :: u64) AND push_bit n 1 \<noteq> 0) = (n < 64 \<and> bit v n)"
proof -
  have "bit (v AND push_bit n 1) k = (k = n \<and> n < 64 \<and> bit v n)" for k
    by (auto simp: bit_and_iff bit_push_bit_iff bit_1_iff bit_exp_iff dest: bit_imp_le_length)
  then show ?thesis by (metis bit_eqI bit_0_eq bot_apply bot_bool_def)
qed

lemma scan_forward_loop_eq:
  "i + n = 64 \<Longrightarrow> scan_forward_loop n (of_nat (i + 1)) (push_bit i 1) v
     = of_nat (case find (bit v) [i..<64] of None \<Rightarrow> 0 | Some k \<Rightarrow> k + 1)"
proof (induction n arbitrary: i)
  case (Suc n)
  have "push_bit 1 (push_bit i 1 :: u64) = push_bit (Suc i) 1" by (simp add: push_bit_push_bit)
  moreover have "[i..<64] = i # [Suc i..<64]" using Suc.prems by (simp add: upt_conv_Cons)
  moreover have "of_nat (i + 1) + 1 = (of_nat (Suc i + 1) :: u8)" by simp
  ultimately show ?case
    using Suc.IH [of "Suc i"] Suc.prems and_bit [of v i] by (simp only: scan_forward_loop.simps) simp
qed simp

lemma drop_mask: "n < 64 \<Longrightarrow> drop_bit 1 (push_bit n 1 :: u64) = (if n = 0 then 0 else push_bit (n - 1) 1)"
  by (rule bit_word_eqI) (auto simp only: bit_drop_bit_eq o_apply bit_push_bit_iff bit_1_iff bit_0_eq bot_apply bot_bool_def
      possible_bit_word split: if_splits, simp)

lemma scan_backward_loop_eq:
  "n \<le> 64 \<Longrightarrow> (0 < n \<Longrightarrow> m = push_bit (n - 1) 1) \<Longrightarrow>
   scan_backward_loop n (of_nat n) m v
     = (if \<forall>k < n. \<not> bit v k then 0 else of_nat (n - length (takeWhile (\<lambda>n. \<not> bit v n) (rev [0..<n]))))"
proof (induction n arbitrary: m)
  case (Suc n)
  have IH: "scan_backward_loop n (of_nat n) (drop_bit 1 m) v
     = (if \<forall>k < n. \<not> bit v k then 0 else of_nat (n - length (takeWhile (\<lambda>n. \<not> bit v n) (rev [0..<n]))))"
    using Suc.prems drop_mask [of n] by (intro Suc.IH) auto
  have m: "v AND m \<noteq> 0 \<longleftrightarrow> bit v n" using Suc.prems and_bit [of v n] by simp
  have index: "of_nat (Suc n) - 1 = (of_nat n :: u8)" by simp
  show ?case
    using IH m unfolding scan_backward_loop.simps index by (auto simp: less_Suc_eq)
qed simp

lemma highest_bit:
  assumes "\<exists>k < n. bit v k"
  shows "\<exists>hi < n. n - length (takeWhile (\<lambda>n. \<not> bit v n) (rev [0..<n])) = hi + 1 \<and> bit v hi \<and> (\<forall>k. hi < k \<and> k < n \<longrightarrow> \<not> bit v k)"
  using assms
proof (induction n)
  case (Suc n)
  show ?case
  proof (cases "bit v n")
    case True
    then show ?thesis by auto
  next
    case False
    with Suc.prems have "\<exists>k < n. bit v k" by (metis less_SucE)
    from Suc.IH [OF this] obtain hi where hi: "hi < n" "bit v hi" "\<forall>k. hi < k \<and> k < n \<longrightarrow> \<not> bit v k"
      "n - length (takeWhile (\<lambda>n. \<not> bit v n) (rev [0..<n])) = hi + 1" by auto
    then show ?thesis using False by (auto intro!: exI [of _ hi] simp: less_Suc_eq)
  qed
qed simp

lemma lowest_bit:
  assumes "bit v k" and "k < (n :: nat)"
  shows "\<exists>lo. find (bit v) [0..<n] = Some lo \<and> lo < n \<and> bit v lo \<and> (\<forall>j < lo. \<not> bit v j)"
proof -
  have "find (bit v) [0..<n] \<noteq> None" using assms by (auto simp: find_None_iff)
  then obtain lo where lo: "find (bit v) [0..<n] = Some lo" by auto
  then obtain i where "i < n" "lo = i" "bit v i" "\<forall>j < i. \<not> bit v j"
    by (fastforce simp: find_Some_iff)
  with lo show ?thesis by auto
qed

section \<open>Properties\<close>

text \<open>C34: the bit scans.  \<open>uacpi_bit_scan_forward\<close> and \<open>uacpi_bit_scan_backward\<close> return the
  one-based position of the lowest and of the highest set bit, and zero for zero; the portable
  versions of the file agree with them on every value.\<close>

theorem bit_scans_agree:
  "portable_bit_scan_forward v = uacpi_bit_scan_forward v
   \<and> portable_bit_scan_backward v = uacpi_bit_scan_backward v
   \<and> (if v = 0 then uacpi_bit_scan_forward v = 0 \<and> uacpi_bit_scan_backward v = 0
      else \<exists>lo hi. uacpi_bit_scan_forward v = of_nat (lo + 1) \<and> uacpi_bit_scan_backward v = of_nat (hi + 1)
         \<and> lo \<le> hi \<and> hi < 64 \<and> bit v lo \<and> bit v hi \<and> v AND mask lo = 0 \<and> drop_bit (hi + 1) v = 0)"
proof -
  have fwd: "portable_bit_scan_forward v = uacpi_bit_scan_forward v"
    using scan_forward_loop_eq [of 0 64 v]
    by (simp add: portable_bit_scan_forward_def uacpi_bit_scan_forward_def builtin_ffsll_def)
  have zero: "(\<forall>k < 64. \<not> bit v k) = (v = 0)"
    using bit_word_eqI [of v 0] by auto
  have bwd: "portable_bit_scan_backward v = uacpi_bit_scan_backward v"
    using scan_backward_loop_eq [of 64 "push_bit 63 1" v] zero
    by (simp add: portable_bit_scan_backward_def uacpi_bit_scan_backward_def builtin_clzll_def del: takeWhile.simps)
  show ?thesis
  proof (cases "v = 0")
    case True
    have "find bot [0..<64] = None" by (simp add: find_None_iff)
    with True fwd bwd show ?thesis
      by (simp add: uacpi_bit_scan_forward_def uacpi_bit_scan_backward_def builtin_ffsll_def)
  next
    case False
    with zero obtain k where k: "k < 64" "bit v k" by auto
    from lowest_bit [OF k(2,1)] obtain lo where lo: "find (bit v) [0..<64] = Some lo" "lo < 64" "bit v lo" "\<forall>j < lo. \<not> bit v j"
      by auto
    from highest_bit [of 64 v] k obtain hi where hi: "64 - builtin_clzll v = hi + 1" "hi < 64" "bit v hi"
      "\<forall>k. hi < k \<and> k < 64 \<longrightarrow> \<not> bit v k" unfolding builtin_clzll_def by blast
    have "lo \<le> hi" using lo hi by (metis linorder_not_less)
    moreover have "v AND mask lo = 0"
      by (rule bit_word_eqI) (use lo(4) in \<open>auto simp: bit_simps\<close>)
    moreover have "drop_bit (hi + 1) v = 0"
    proof (rule bit_word_eqI)
      fix n
      have "\<not> bit v (hi + 1 + n)"
        using hi(4) bit_imp_le_length [of v "hi + 1 + n"] by (cases "hi + 1 + n < 64") auto
      then show "bit (drop_bit (hi + 1) v) n = bit 0 n" by (simp add: bit_drop_bit_eq)
    qed
    moreover have "uacpi_bit_scan_forward v = of_nat (lo + 1)"
      unfolding uacpi_bit_scan_forward_def builtin_ffsll_def lo(1) by simp
    moreover have "uacpi_bit_scan_backward v = of_nat (hi + 1)"
      unfolding uacpi_bit_scan_backward_def hi(1) using False by simp
    ultimately show ?thesis using False fwd bwd lo hi by auto
  qed
qed

end
