(* ===== verification/Format.thy ===== *)
theory Format
  imports Stdlib
begin

text \<open>
  The formatted print of the ACPI library, \<^verbatim>\<open>uacpi_vsnprintf\<close> and its callers in
  \<^verbatim>\<open>src/kern/acpi/stdlib.c\<close>.  The output buffer is a map from offsets to bytes, so that a
  write outside the given capacity would be visible.  Sizes are natural numbers: they would
  have to pass \<open>2 ^ 64\<close> characters to wrap.  Undefined behaviour (a read past the format, an
  argument of another kind, the negation of the smallest integer) is \<open>None\<close>.
\<close>

section \<open>Output\<close>

record fmt_buf_state =
  fb_buffer :: "nat \<Rightarrow> u8"
  fb_capacity :: nat
  bytes_written :: nat

record fmt_spec =
  is_signed :: bool
  prepend :: bool
  uppercase :: bool
  left_justify :: bool
  alternate_form :: bool
  has_precision :: bool
  pad_char :: u8
  prepend_char :: u8
  min_width :: u64
  precision :: u64
  fm_base :: u32

definition write_one :: "u8 \<Rightarrow> fmt_buf_state \<Rightarrow> fmt_buf_state" where
  "write_one c fb =
     (let fb = (if bytes_written fb < fb_capacity fb
                then fb\<lparr>fb_buffer := (fb_buffer fb)(bytes_written fb := c)\<rparr> else fb)
      in fb\<lparr>bytes_written := bytes_written fb + 1\<rparr>)"

definition write_many :: "u8 list \<Rightarrow> nat \<Rightarrow> fmt_buf_state \<Rightarrow> fmt_buf_state" where
  "write_many string count fb =
     (let fb = (if bytes_written fb < fb_capacity fb
                then let count_to_write = min count (fb_capacity fb - bytes_written fb) in
                     fb\<lparr>fb_buffer := (\<lambda>i. if bytes_written fb \<le> i \<and> i < bytes_written fb + count_to_write
                                        then string ! (i - bytes_written fb) else fb_buffer fb i)\<rparr>
                else fb)
      in fb\<lparr>bytes_written := bytes_written fb + count\<rparr>)"

definition hex_char :: "bool \<Rightarrow> u64 \<Rightarrow> u8" where
  "hex_char upper v =
     map of_char (if upper then ''0123456789ABCDEF'' else ''0123456789abcdef'') ! unat v"

fun write_n :: "nat \<Rightarrow> u8 \<Rightarrow> fmt_buf_state \<Rightarrow> fmt_buf_state" where
  "write_n 0 c fb = fb"
| "write_n (Suc mw) c fb = write_n mw c (write_one c fb)"

definition write_padding :: "fmt_spec \<Rightarrow> nat \<Rightarrow> fmt_buf_state \<Rightarrow> fmt_buf_state" where
  "write_padding fm repr_size fb =
     (let mw = unat (min_width fm) in
      if mw \<le> repr_size then fb
      else write_n (mw - repr_size) (if left_justify fm then of_char CHR '' '' else pad_char fm) fb)"

text \<open>
  The digits, written from the end of the local buffer towards its start: \<open>index\<close> is the
  first used cell, \<open>repr\<close> what stands from there on; a store before the buffer is \<open>None\<close>.
\<close>

definition REPR_BUFFER_SIZE :: nat where "REPR_BUFFER_SIZE = 32"

fun repr_push :: "nat \<times> u8 list \<Rightarrow> u8 \<Rightarrow> (nat \<times> u8 list) option" where
  "repr_push (0, repr) c = None"
| "repr_push (Suc index, repr) c = Some (index, c # repr)"

definition repr_char :: "fmt_spec \<Rightarrow> u64 \<Rightarrow> u8" where
  "repr_char fm remainder =
     (if fm_base fm = 16 then hex_char (uppercase fm) remainder
      else if fm_base fm = 8 \<or> fm_base fm = 10 then ucast remainder + of_char CHR ''0''
      else of_char CHR ''?'')"

fun repr_loop :: "fmt_spec \<Rightarrow> nat \<Rightarrow> u64 \<Rightarrow> u8 list \<Rightarrow> (nat \<times> u8 list) option" where
  "repr_loop fm 0 v repr = (if v = 0 then Some (0, repr) else None)"
| "repr_loop fm (Suc index) v repr =
     (if v = 0 then Some (Suc index, repr)
      else repr_loop fm index (v div ucast (fm_base fm)) (repr_char fm (v mod ucast (fm_base fm)) # repr))"

definition write_integer :: "fmt_spec \<Rightarrow> u64 \<Rightarrow> fmt_buf_state \<Rightarrow> fmt_buf_state option" where
  "write_integer fm v fb =
     do { let as_ll = sint v;
          let negative = (is_signed fm \<and> as_ll < 0);
          v \<leftarrow> (if negative then (if as_ll = - (2 ^ 63) then None else Some (of_int (- as_ll))) else Some v);
          let fb = (if prepend fm \<or> negative
                    then write_one (if negative then of_char CHR ''-'' else prepend_char fm) fb else fb);
          (index, repr) \<leftarrow> (if fm_base fm = 0 \<and> v \<noteq> 0 then None else repr_loop fm REPR_BUFFER_SIZE v []);
          let repr_size = REPR_BUFFER_SIZE - index;
          ((index, repr), repr_size) \<leftarrow>
            (if repr_size = 0 then do { r \<leftarrow> repr_push (index, repr) (of_char CHR ''0''); Some (r, 1) }
             else Some ((index, repr), repr_size));
          ((index, repr), repr_size) \<leftarrow>
            (if alternate_form fm then
               if fm_base fm = 16 then
                 do { r \<leftarrow> repr_push (index, repr) (of_char (if uppercase fm then CHR ''X'' else CHR ''x''));
                      r \<leftarrow> repr_push r (of_char CHR ''0''); Some (r, repr_size + 2) }
               else if fm_base fm = 8 then
                 do { r \<leftarrow> repr_push (index, repr) (of_char CHR ''0''); Some (r, repr_size + 1) }
               else Some ((index, repr), repr_size)
             else Some ((index, repr), repr_size));
          Some (if left_justify fm then write_padding fm repr_size (write_many repr repr_size fb)
                else write_many repr repr_size (write_padding fm repr_size fb)) }"

section \<open>Parsing the format\<close>

fun string_has_at_least :: "u8 list \<Rightarrow> nat \<Rightarrow> bool option" where
  "string_has_at_least [] characters = None"
| "string_has_at_least (c # string) characters =
     (if c = 0 then Some False
      else if characters = 1 then Some True
      else string_has_at_least string (characters - 1))"

fun consume_digits :: "u8 list \<Rightarrow> nat \<Rightarrow> (nat \<times> u8 list) option" where
  "consume_digits [] size' = None"
| "consume_digits (c # string) size' =
     (if c < of_char CHR ''0'' \<or> c > of_char CHR ''9'' then Some (size', c # string)
      else consume_digits string (size' + 1))"

datatype parse_number_mode = PARSE_NUMBER_MODE_MAYBE | PARSE_NUMBER_MODE_MUST

text \<open>The result, the rest of the format and the new contents of the output parameter.\<close>

definition parse_number :: "u8 list \<Rightarrow> parse_number_mode \<Rightarrow> u64 \<Rightarrow> (bool \<times> u8 list \<times> u64) option" where
  "parse_number fmt mode out_value =
     do { (num_digits, rest) \<leftarrow> consume_digits fmt 0;
          if num_digits = 0 then Some (mode \<noteq> PARSE_NUMBER_MODE_MUST, rest, out_value)
          else do { (ret, v) \<leftarrow> uacpi_string_to_integer fmt num_digits UACPI_BASE_DEC;
                    Some (ret = UACPI_STATUS_OK, rest, v) } }"

text \<open>\<open>consume\<close> returns the rest of the string when it starts with the token.\<close>

definition consume :: "string \<Rightarrow> u8 list \<Rightarrow> u8 list option option" where
  "consume token string =
     do { enough \<leftarrow> string_has_at_least string (length token);
          Some (if \<not> enough then None
                else if take (length token) string = map of_char token then Some (drop (length token) string)
                else None) }"

fun is_one_of :: "u8 \<Rightarrow> u8 list \<Rightarrow> bool" where
  "is_one_of c [] = False"
| "is_one_of c (d # list) = (c = d \<or> is_one_of c list)"

definition consume_one_of :: "string \<Rightarrow> u8 list \<Rightarrow> (u8 \<times> u8 list) option option" where
  "consume_one_of list string =
     (case string of
        [] \<Rightarrow> None
      | c # rest \<Rightarrow> Some (if c = 0 then None
                         else if is_one_of c (map of_char list) then Some (c, rest) else None))"

definition base_from_specifier :: "u8 \<Rightarrow> u32" where
  "base_from_specifier specifier =
     (if specifier = of_char CHR ''x'' \<or> specifier = of_char CHR ''X'' then 16
      else if specifier = of_char CHR ''o'' then 8 else 10)"

definition is_uppercase_specifier :: "u8 \<Rightarrow> bool" where
  "is_uppercase_specifier specifier \<longleftrightarrow> specifier = of_char CHR ''X''"

fun find_next_conversion :: "u8 list \<Rightarrow> nat \<Rightarrow> (u8 list option \<times> nat) option" where
  "find_next_conversion [] offset = None"
| "find_next_conversion (c # fmt) offset =
     (if c = 0 then Some (None, offset)
      else if c = of_char CHR ''%'' then Some (Some (c # fmt), offset)
      else find_next_conversion fmt (offset + 1))"

text \<open>\<^verbatim>\<open>while (consume_one_of(&fmt, "+- 0#", &flag)) switch (flag) ...\<close>\<close>

fun parse_flags :: "u8 list \<Rightarrow> fmt_spec \<Rightarrow> (u8 list \<times> fmt_spec) option" where
  "parse_flags [] fm = None"
| "parse_flags (flag # fmt) fm =
     (if flag = of_char CHR ''+'' \<or> flag = of_char CHR '' '' then
        parse_flags fmt (fm\<lparr>prepend := True, prepend_char := flag\<rparr>)
      else if flag = of_char CHR ''-'' then parse_flags fmt (fm\<lparr>left_justify := True\<rparr>)
      else if flag = of_char CHR ''0'' then parse_flags fmt (fm\<lparr>pad_char := of_char CHR ''0''\<rparr>)
      else if flag = of_char CHR ''#'' then parse_flags fmt (fm\<lparr>alternate_form := True\<rparr>)
      else Some (flag # fmt, fm))"

section \<open>Arguments\<close>

text \<open>
  A variable argument with its kind: an \<^verbatim>\<open>int\<close> or \<^verbatim>\<open>unsigned\<close>, a 64-bit integer, a
  string or its absence, another pointer.
\<close>

datatype fmt_arg = AInt u32 | ALong u64 | AStr "u8 list option" | APtr u64

fun arg_int :: "fmt_arg list \<Rightarrow> (u32 \<times> fmt_arg list) option" where
  "arg_int (AInt v # vlist) = Some (v, vlist)"
| "arg_int _ = None"

fun arg_long :: "fmt_arg list \<Rightarrow> (u64 \<times> fmt_arg list) option" where
  "arg_long (ALong v # vlist) = Some (v, vlist)"
| "arg_long _ = None"

fun arg_str :: "fmt_arg list \<Rightarrow> (u8 list option \<times> fmt_arg list) option" where
  "arg_str (AStr v # vlist) = Some (v, vlist)"
| "arg_str _ = None"

fun arg_ptr :: "fmt_arg list \<Rightarrow> (u64 \<times> fmt_arg list) option" where
  "arg_ptr (APtr v # vlist) = Some (v, vlist)"
| "arg_ptr _ = None"

section \<open>Conversions\<close>

text \<open>
  The two loops of \<^verbatim>\<open>%s\<close>; the second one pads on the right whatever the flags say.
\<close>

fun write_string :: "u64 option \<Rightarrow> u8 list \<Rightarrow> nat \<Rightarrow> fmt_buf_state \<Rightarrow> (nat \<times> fmt_buf_state) option" where
  "write_string prec [] i fb =
     (if (case prec of None \<Rightarrow> True | Some p \<Rightarrow> i < unat p) then None else Some (i, fb))"
| "write_string prec (c # string) i fb =
     (if (case prec of None \<Rightarrow> True | Some p \<Rightarrow> i < unat p) \<and> c \<noteq> 0
      then write_string prec string (i + 1) (write_one c fb) else Some (i, fb))"

definition convert_string :: "fmt_spec \<Rightarrow> u8 list option \<Rightarrow> fmt_buf_state \<Rightarrow> fmt_buf_state option" where
  "convert_string fm string fb =
     do { let string = (case string of None \<Rightarrow> cstr ''<null>'' | Some s \<Rightarrow> s);
          (i, fb) \<leftarrow> write_string (if has_precision fm then Some (precision fm) else None) string 0 fb;
          Some (write_n (unat (min_width fm) - i) (of_char CHR '' '') fb) }"

text \<open>
  The integer conversions of one length: \<open>d\<close> and \<open>i\<close> are signed, \<open>o\<close>, \<open>x\<close>, \<open>X\<close> and
  \<open>u\<close> unsigned.  The result is the value, whether it is signed, the flag character, and the
  rest of the format and of the arguments; the inner \<open>None\<close> is \<^verbatim>\<open>return -1\<close>.
\<close>

definition integer_argument ::
  "(fmt_arg list \<Rightarrow> (u64 \<times> fmt_arg list) option) \<Rightarrow> (fmt_arg list \<Rightarrow> (u64 \<times> fmt_arg list) option) \<Rightarrow>
   u8 list \<Rightarrow> fmt_arg list \<Rightarrow> (u64 \<times> bool \<times> u8 \<times> u8 list \<times> fmt_arg list) option option" where
  "integer_argument read_signed read_unsigned fmt vlist =
     do { d \<leftarrow> consume ''d'' fmt;
          d \<leftarrow> (if d \<noteq> None then Some d else consume ''i'' fmt);
          case d of
            Some fmt \<Rightarrow> do { (v, vlist) \<leftarrow> read_signed vlist; Some (Some (v, True, 0, fmt, vlist)) }
          | None \<Rightarrow>
              do { u \<leftarrow> consume_one_of ''oxXu'' fmt;
                   case u of
                     None \<Rightarrow> Some None
                   | Some (flag, fmt) \<Rightarrow>
                       do { (v, vlist) \<leftarrow> read_unsigned vlist; Some (Some (v, False, flag, fmt, vlist)) } } }"

definition map_arg :: "('a \<Rightarrow> u64) \<Rightarrow> (fmt_arg list \<Rightarrow> ('a \<times> fmt_arg list) option) \<Rightarrow>
    fmt_arg list \<Rightarrow> (u64 \<times> fmt_arg list) option" where
  "map_arg f read vlist = map_option (\<lambda>(v, vlist). (f v, vlist)) (read vlist)"

text \<open>The length prefixes, in the order the code tries them.\<close>

definition sized_integer ::
  "u8 list \<Rightarrow> fmt_arg list \<Rightarrow> (u64 \<times> bool \<times> u8 \<times> u8 list \<times> fmt_arg list) option option" where
  "sized_integer fmt vlist =
     do { hh \<leftarrow> consume ''hh'' fmt;
          case hh of
            Some fmt \<Rightarrow>
              integer_argument (map_arg (\<lambda>v. scast (ucast v :: u8)) arg_int)
                               (map_arg (\<lambda>v. ucast (ucast v :: u8)) arg_int) fmt vlist
          | None \<Rightarrow>
        do { h \<leftarrow> consume ''h'' fmt;
          case h of
            Some fmt \<Rightarrow>
              integer_argument (map_arg (\<lambda>v. scast (ucast v :: u16)) arg_int)
                               (map_arg (\<lambda>v. ucast (ucast v :: u16)) arg_int) fmt vlist
          | None \<Rightarrow>
        do { ll \<leftarrow> consume ''ll'' fmt;
          ll \<leftarrow> (if ll \<noteq> None then Some ll else consume ''z'' fmt);
          case ll of
            Some fmt \<Rightarrow> integer_argument arg_long arg_long fmt vlist
          | None \<Rightarrow>
        do { l \<leftarrow> consume ''l'' fmt;
          l \<leftarrow> (if l \<noteq> None then Some l else consume ''z'' fmt);
          case l of
            Some fmt \<Rightarrow> integer_argument arg_long arg_long fmt vlist
          | None \<Rightarrow> integer_argument (map_arg scast arg_int) (map_arg ucast arg_int) fmt vlist } } } }"

definition write_int :: "fmt_spec \<Rightarrow> u8 \<Rightarrow> u64 \<Rightarrow> fmt_buf_state \<Rightarrow> fmt_buf_state option" where
  "write_int fm flag v fb =
     (let fm = (if flag \<noteq> 0
                then fm\<lparr>fm_base := base_from_specifier flag, uppercase := is_uppercase_specifier flag\<rparr> else fm)
      in write_integer fm v fb)"

definition convert ::
  "fmt_spec \<Rightarrow> u8 list \<Rightarrow> fmt_arg list \<Rightarrow> fmt_buf_state \<Rightarrow> (u8 list \<times> fmt_arg list \<times> fmt_buf_state) option option" where
  "convert fm fmt vlist fb =
     do { c \<leftarrow> consume ''c'' fmt;
          case c of
            Some fmt \<Rightarrow> do { (v, vlist) \<leftarrow> arg_int vlist; Some (Some (fmt, vlist, write_one (ucast v) fb)) }
          | None \<Rightarrow>
        do { s \<leftarrow> consume ''s'' fmt;
          case s of
            Some fmt \<Rightarrow>
              do { (string, vlist) \<leftarrow> arg_str vlist; fb \<leftarrow> convert_string fm string fb; Some (Some (fmt, vlist, fb)) }
          | None \<Rightarrow>
        do { p \<leftarrow> consume ''p'' fmt;
          case p of
            Some fmt \<Rightarrow>
              do { (v, vlist) \<leftarrow> arg_ptr vlist;
                   fb \<leftarrow> write_int (fm\<lparr>fm_base := 16, min_width := 8 * 2, pad_char := of_char CHR ''0''\<rparr>) 0 v fb;
                   Some (Some (fmt, vlist, fb)) }
          | None \<Rightarrow>
        do { r \<leftarrow> sized_integer fmt vlist;
          case r of
            None \<Rightarrow> Some None
          | Some (v, sd, flag, fmt, vlist) \<Rightarrow>
              do { fb \<leftarrow> write_int (if sd then fm\<lparr>is_signed := True\<rparr> else fm) flag v fb;
                   Some (Some (fmt, vlist, fb)) } } } } }"

text \<open>The field width and the precision; an inner \<open>None\<close> is \<^verbatim>\<open>return -1\<close>.\<close>

definition parse_width :: "fmt_spec \<Rightarrow> u8 list \<Rightarrow> fmt_arg list \<Rightarrow> (fmt_spec \<times> u8 list \<times> fmt_arg list) option option" where
  "parse_width fm fmt vlist =
     do { star \<leftarrow> consume ''*'' fmt;
          case star of
            Some fmt \<Rightarrow> do { (v, vlist) \<leftarrow> arg_int vlist; Some (Some (fm\<lparr>min_width := scast v\<rparr>, fmt, vlist)) }
          | None \<Rightarrow>
              do { (ok, fmt, v) \<leftarrow> parse_number fmt PARSE_NUMBER_MODE_MAYBE (min_width fm);
                   Some (if ok then Some (fm\<lparr>min_width := v\<rparr>, fmt, vlist) else None) } }"

definition parse_precision :: "fmt_spec \<Rightarrow> u8 list \<Rightarrow> fmt_arg list \<Rightarrow> (fmt_spec \<times> u8 list \<times> fmt_arg list) option option" where
  "parse_precision fm fmt vlist =
     do { dot \<leftarrow> consume ''.'' fmt;
          case dot of
            None \<Rightarrow> Some (Some (fm, fmt, vlist))
          | Some fmt \<Rightarrow>
              do { let fm = fm\<lparr>has_precision := True\<rparr>;
                   star \<leftarrow> consume ''*'' fmt;
                   case star of
                     Some fmt \<Rightarrow> do { (v, vlist) \<leftarrow> arg_int vlist; Some (Some (fm\<lparr>precision := scast v\<rparr>, fmt, vlist)) }
                   | None \<Rightarrow>
                       do { (ok, fmt, v) \<leftarrow> parse_number fmt PARSE_NUMBER_MODE_MUST (precision fm);
                            Some (if ok then Some (fm\<lparr>precision := v\<rparr>, fmt, vlist) else None) } } }"

definition initial_spec :: fmt_spec where
  "initial_spec =
     \<lparr>is_signed = False, prepend = False, uppercase = False, left_justify = False, alternate_form = False,
      has_precision = False, pad_char = of_char CHR '' '', prepend_char = 0, min_width = 0, precision = 0, fm_base = 10\<rparr>"

text \<open>One conversion, from the percent sign on.\<close>

definition conversion ::
  "u8 list \<Rightarrow> fmt_arg list \<Rightarrow> fmt_buf_state \<Rightarrow> (u8 list \<times> fmt_arg list \<times> fmt_buf_state) option option" where
  "conversion fmt vlist fb =
     do { pp \<leftarrow> consume ''%%'' fmt;
          case pp of
            Some fmt \<Rightarrow> Some (Some (fmt, vlist, write_one (of_char CHR ''%'') fb))
          | None \<Rightarrow>
        do { (fmt, fm) \<leftarrow> parse_flags (tl fmt) initial_spec;
          w \<leftarrow> parse_width fm fmt vlist;
          case w of
            None \<Rightarrow> Some None
          | Some (fm, fmt, vlist) \<Rightarrow>
        do { p \<leftarrow> parse_precision fm fmt vlist;
          case p of
            None \<Rightarrow> Some None
          | Some (fm, fmt, vlist) \<Rightarrow> convert fm fmt vlist fb } } }"

text \<open>Every conversion consumes at least the percent sign.\<close>

lemma consume_shorter: "consume token fmt = Some (Some rest) \<Longrightarrow> length rest \<le> length fmt"
  by (auto simp: consume_def split: if_splits Option.bind_splits)

lemma consume_nonempty: "consume token fmt = Some r \<Longrightarrow> fmt \<noteq> []"
  by (cases fmt) (auto simp: consume_def)

lemma consume_one_of_shorter: "consume_one_of list fmt = Some (Some (c, rest)) \<Longrightarrow> length rest \<le> length fmt"
  by (auto simp: consume_one_of_def split: list.splits if_splits)

lemma consume_digits_shorter: "consume_digits fmt n = Some (k, rest) \<Longrightarrow> length rest \<le> length fmt"
  by (induction fmt n rule: consume_digits.induct) (auto split: if_splits)

lemma parse_number_shorter: "parse_number fmt mode v = Some (ok, rest, v') \<Longrightarrow> length rest \<le> length fmt"
  by (auto simp: parse_number_def dest: consume_digits_shorter split: Option.bind_splits if_splits)

lemma parse_flags_shorter: "parse_flags fmt fm = Some (rest, fm') \<Longrightarrow> length rest \<le> length fmt"
  by (induction fmt fm rule: parse_flags.induct) (auto split: if_splits)

lemma integer_argument_shorter:
  "integer_argument rs ru fmt vlist = Some (Some (v, sd, flag, rest, vlist')) \<Longrightarrow> length rest \<le> length fmt"
  by (auto simp: integer_argument_def dest: consume_shorter consume_one_of_shorter
      split: Option.bind_splits option.splits if_splits)

lemma sized_integer_shorter:
  assumes "sized_integer fmt vlist = Some (Some (v, sd, flag, rest, vlist'))"
  shows "length rest \<le> length fmt"
proof -
  from assms obtain fmt' rs ru where "integer_argument rs ru fmt' vlist = Some (Some (v, sd, flag, rest, vlist'))"
    and "length fmt' \<le> length fmt"
    by (auto simp: sized_integer_def dest: consume_shorter split: Option.bind_splits option.splits if_splits)
  then show ?thesis using integer_argument_shorter by (meson le_trans)
qed

lemma convert_shorter: "convert fm fmt vlist fb = Some (Some (rest, vlist', fb')) \<Longrightarrow> length rest \<le> length fmt"
  by (auto simp: convert_def dest: consume_shorter sized_integer_shorter split: Option.bind_splits option.splits)

lemma parse_width_shorter: "parse_width fm fmt vlist = Some (Some (fm', rest, vlist')) \<Longrightarrow> length rest \<le> length fmt"
  by (auto simp: parse_width_def dest: consume_shorter parse_number_shorter
      split: Option.bind_splits option.splits if_splits)

lemma parse_precision_shorter:
  "parse_precision fm fmt vlist = Some (Some (fm', rest, vlist')) \<Longrightarrow> length rest \<le> length fmt"
  by (fastforce simp: parse_precision_def Let_def dest: consume_shorter parse_number_shorter
      split: Option.bind_splits option.splits if_splits)

lemma conversion_shorter:
  assumes "conversion fmt vlist fb = Some (Some (rest, vlist', fb'))"
  shows "length rest < length fmt"
proof -
  show ?thesis
  proof (cases "consume ''%%'' fmt")
    case None
    with assms show ?thesis by (simp add: conversion_def)
  next
    case (Some pp)
    then have ne: "fmt \<noteq> []" by (rule consume_nonempty)
    show ?thesis
    proof (cases pp)
      case (Some r)
      with assms \<open>consume ''%%'' fmt = Some pp\<close> have "rest = drop 2 fmt"
        by (auto simp: conversion_def consume_def eval_nat_numeral split: Option.bind_splits if_splits)
      with ne show ?thesis by (cases fmt) auto
    next
      case None
      with assms \<open>consume ''%%'' fmt = Some pp\<close> obtain f1 fm1 fm2 f2 v2 fm3 f3 v3 where
        "parse_flags (tl fmt) initial_spec = Some (f1, fm1)" "parse_width fm1 f1 vlist = Some (Some (fm2, f2, v2))"
        "parse_precision fm2 f2 v2 = Some (Some (fm3, f3, v3))" "convert fm3 f3 v3 fb = Some (Some (rest, vlist', fb'))"
        by (auto simp: conversion_def split: Option.bind_splits option.splits)
      then have "length rest \<le> length (tl fmt)"
        using parse_flags_shorter parse_width_shorter parse_precision_shorter convert_shorter by (meson le_trans)
      with ne show ?thesis by (cases fmt) auto
    qed
  qed
qed

lemma find_next_conversion_shorter: "find_next_conversion fmt n = Some (Some rest, k) \<Longrightarrow> length rest \<le> length fmt"
  by (induction fmt n rule: find_next_conversion.induct) (auto split: if_splits)

section \<open>The loop and the callers\<close>

function format_loop :: "u8 list \<Rightarrow> fmt_arg list \<Rightarrow> fmt_buf_state \<Rightarrow> (bool \<times> fmt_buf_state) option" where
  "format_loop fmt vlist fb =
     (case fmt of
        [] \<Rightarrow> None
      | c # _ \<Rightarrow>
          if c = 0 then Some (True, fb)
          else
            case find_next_conversion fmt 0 of
              None \<Rightarrow> None
            | Some (next_conversion, next_offset) \<Rightarrow>
                let fb = (if next_offset \<noteq> 0 then write_many fmt next_offset fb else fb) in
                case next_conversion of
                  None \<Rightarrow> Some (True, fb)
                | Some fmt \<Rightarrow>
                    case conversion fmt vlist fb of
                      None \<Rightarrow> None
                    | Some None \<Rightarrow> Some (False, fb)
                    | Some (Some (fmt, vlist, fb)) \<Rightarrow> format_loop fmt vlist fb)"
  by pat_completeness auto
termination
  by (relation "measure (\<lambda>(fmt, _, _). length fmt)")
    (auto dest!: conversion_shorter find_next_conversion_shorter simp del: find_next_conversion.simps)

declare format_loop.simps [simp del]

text \<open>
  The boolean of \<open>format_loop\<close> is false when the code returns \<open>-1\<close> from inside the loop, which
  leaves the buffer without a terminator.
\<close>

definition uacpi_vsnprintf ::
  "(nat \<Rightarrow> u8) \<Rightarrow> nat \<Rightarrow> u8 list \<Rightarrow> fmt_arg list \<Rightarrow> (int \<times> (nat \<Rightarrow> u8)) option" where
  "uacpi_vsnprintf buffer capacity fmt vlist =
     (case format_loop fmt vlist \<lparr>fb_buffer = buffer, fb_capacity = capacity, bytes_written = 0\<rparr> of
        None \<Rightarrow> None
      | Some (False, fb) \<Rightarrow> Some (- 1, fb_buffer fb)
      | Some (True, fb) \<Rightarrow>
          let fb = (if fb_capacity fb \<noteq> 0
                    then fb\<lparr>fb_buffer := (fb_buffer fb)(min (bytes_written fb) (fb_capacity fb - 1) := 0)\<rparr>
                    else fb)
          in Some (sint (of_nat (bytes_written fb) :: u32), fb_buffer fb))"

definition uacpi_snprintf ::
  "(nat \<Rightarrow> u8) \<Rightarrow> nat \<Rightarrow> u8 list \<Rightarrow> fmt_arg list \<Rightarrow> (int \<times> (nat \<Rightarrow> u8)) option" where
  "uacpi_snprintf buffer capacity fmt vlist = uacpi_vsnprintf buffer capacity fmt vlist"

definition UACPI_PLAIN_LOG_BUFFER_SIZE :: nat where "UACPI_PLAIN_LOG_BUFFER_SIZE = 128"

text \<open>\<open>uacpi_log\<close>: what it hands to the kernel's log function, if anything.\<close>

definition uacpi_log :: "(nat \<Rightarrow> u8) \<Rightarrow> u8 list \<Rightarrow> fmt_arg list \<Rightarrow> u8 list option option" where
  "uacpi_log buf str vlist =
     (case uacpi_vsnprintf buf UACPI_PLAIN_LOG_BUFFER_SIZE str vlist of
        None \<Rightarrow> None
      | Some (ret, buf) \<Rightarrow>
          if ret < 0 then Some None
          else
            let buf = (if ret \<ge> int UACPI_PLAIN_LOG_BUFFER_SIZE
                       then buf(UACPI_PLAIN_LOG_BUFFER_SIZE - 5 := of_char CHR ''.'',
                                UACPI_PLAIN_LOG_BUFFER_SIZE - 4 := of_char CHR ''.'',
                                UACPI_PLAIN_LOG_BUFFER_SIZE - 3 := of_char CHR ''.'',
                                UACPI_PLAIN_LOG_BUFFER_SIZE - 2 := 0x0A)
                       else buf)
            in Some (Some (map buf [0..<UACPI_PLAIN_LOG_BUFFER_SIZE])))"

section \<open>Text\<close>

text \<open>
  All output is a sequence of single characters: \<open>emit\<close> writes a text, and every writing
  function emits a text that does not depend on the state of the output.
\<close>

definition emit :: "u8 list \<Rightarrow> fmt_buf_state \<Rightarrow> fmt_buf_state" where
  "emit t fb = fold write_one t fb"

lemma emit_Nil [simp]: "emit [] fb = fb"
  by (simp add: emit_def)

lemma emit_Cons: "emit (c # t) fb = emit t (write_one c fb)"
  by (simp add: emit_def)

lemma emit_append: "emit (t @ u) fb = emit u (emit t fb)"
  by (simp add: emit_def)

lemma emit_one: "write_one c fb = emit [c] fb"
  by (simp add: emit_def)

lemma emit_fields [simp]:
  "bytes_written (emit t fb) = bytes_written fb + length t" "fb_capacity (emit t fb) = fb_capacity fb"
  by (induction t arbitrary: fb) (simp_all add: emit_Cons write_one_def Let_def)

lemma emit_buffer:
  "fb_buffer (emit t fb) i =
     (if bytes_written fb \<le> i \<and> i < bytes_written fb + length t \<and> i < fb_capacity fb
      then t ! (i - bytes_written fb) else fb_buffer fb i)"
proof (induction t arbitrary: fb)
  case (Cons c t)
  show ?case
    unfolding emit_Cons Cons.IH [of "write_one c fb"]
    by (auto simp: write_one_def Let_def nth_Cons' Suc_diff_le)
qed auto

lemma fb_eqI:
  "fb_buffer a = fb_buffer b \<Longrightarrow> fb_capacity a = fb_capacity b \<Longrightarrow> bytes_written a = bytes_written b
   \<Longrightarrow> (a :: fmt_buf_state) = b"
  by simp

lemma write_many_emit:
  assumes "count \<le> length string"
  shows "write_many string count fb = emit (take count string) fb"
proof (rule fb_eqI)
  show "fb_buffer (write_many string count fb) = fb_buffer (emit (take count string) fb)"
    using assms by (auto simp: fun_eq_iff emit_buffer write_many_def Let_def min_def)
qed (use assms in \<open>auto simp: write_many_def Let_def min_def\<close>)

lemma write_n_emit: "write_n n c fb = emit (replicate n c) fb"
  by (induction n arbitrary: fb) (simp_all add: emit_Cons)

lemma write_padding_emit:
  "write_padding fm k fb =
     emit (replicate (unat (min_width fm) - k) (if left_justify fm then of_char CHR '' '' else pad_char fm)) fb"
  by (simp add: write_padding_def Let_def write_n_emit)

definition emits :: "(fmt_buf_state \<Rightarrow> fmt_buf_state option) \<Rightarrow> bool" where
  "emits f \<longleftrightarrow> (\<forall>fb. f fb = None) \<or> (\<exists>t. \<forall>fb. f fb = Some (emit t fb))"

lemma emitsI: "(\<And>fb. f fb = Some (emit t fb)) \<Longrightarrow> emits f"
  by (auto simp: emits_def)

lemma emits_None: "(\<And>fb. f fb = None) \<Longrightarrow> emits f"
  by (auto simp: emits_def)

lemma write_string_emits:
  "(\<forall>fb. write_string prec s i fb = None) \<or> (\<exists>k t. \<forall>fb. write_string prec s i fb = Some (k, emit t fb))"
proof (induction s arbitrary: i)
  case Nil
  then show ?case by (auto intro: exI [of _ "[]"])
next
  case (Cons c s)
  show ?case
  proof (cases "(case prec of None \<Rightarrow> True | Some p \<Rightarrow> i < unat p) \<and> c \<noteq> 0")
    case True
    from Cons [of "i + 1"] show ?thesis
    proof (elim disjE exE)
      fix k t assume "\<forall>fb. write_string prec s (i + 1) fb = Some (k, emit t fb)"
      with True have "\<forall>fb. write_string prec (c # s) i fb = Some (k, emit (c # t) fb)" by (simp add: emit_Cons)
      then show ?thesis by blast
    qed (use True in simp)
  next
    case False
    then have "\<forall>fb. write_string prec (c # s) i fb = Some (i, emit [] fb)" by auto
    then show ?thesis by blast
  qed
qed

lemma convert_string_emits: "emits (convert_string fm string)"
proof -
  let ?s = "case string of None \<Rightarrow> cstr ''<null>'' | Some s \<Rightarrow> s"
  let ?p = "if has_precision fm then Some (precision fm) else None"
  from write_string_emits [of ?p ?s 0] show ?thesis
  proof (elim disjE exE)
    fix k t assume "\<forall>fb. write_string ?p ?s 0 fb = Some (k, emit t fb)"
    then show ?thesis
      by (intro emitsI [of _ "t @ replicate (unat (min_width fm) - k) (of_char CHR '' '')"])
        (simp add: convert_string_def Let_def write_n_emit emit_append)
  qed (intro emits_None, simp add: convert_string_def Let_def)
qed

text \<open>The digits and prefix of a number, and the whole field.\<close>

definition integer_repr :: "fmt_spec \<Rightarrow> u64 \<Rightarrow> u8 list option" where
  "integer_repr fm v =
     do { (index, repr) \<leftarrow> (if fm_base fm = 0 \<and> v \<noteq> 0 then None else repr_loop fm REPR_BUFFER_SIZE v []);
          (index, repr) \<leftarrow> (if repr = [] then repr_push (index, repr) (of_char CHR ''0'') else Some (index, repr));
          (index, repr) \<leftarrow>
            (if alternate_form fm then
               if fm_base fm = 16 then
                 do { r \<leftarrow> repr_push (index, repr) (of_char (if uppercase fm then CHR ''X'' else CHR ''x''));
                      repr_push r (of_char CHR ''0'') }
               else if fm_base fm = 8 then repr_push (index, repr) (of_char CHR ''0'')
               else Some (index, repr)
             else Some (index, repr));
          Some repr }"

definition pad_field :: "fmt_spec \<Rightarrow> u8 list \<Rightarrow> u8 list" where
  "pad_field fm t =
     (let k = unat (min_width fm) - length t in
      if left_justify fm then t @ replicate k (of_char CHR '' '') else replicate k (pad_char fm) @ t)"

definition integer_text :: "fmt_spec \<Rightarrow> u64 \<Rightarrow> u8 list option" where
  "integer_text fm v =
     (let negative = (is_signed fm \<and> sint v < 0) in
      if negative \<and> sint v = - (2 ^ 63) then None
      else map_option
        (\<lambda>t. (if negative then [of_char CHR ''-''] else if prepend fm then [prepend_char fm] else []) @ pad_field fm t)
        (integer_repr fm (if negative then of_int (- sint v) else v)))"

lemma repr_loop_length:
  "repr_loop fm n v repr = Some (index, repr') \<Longrightarrow> n + length repr = 32 \<Longrightarrow> index + length repr' = 32"
  by (induction fm n v repr rule: repr_loop.induct) (auto split: if_splits)

lemma repr_push_length: "repr_push (n, repr) c = Some (index, repr') \<Longrightarrow> n + length repr = 32 \<Longrightarrow> index + length repr' = 32"
  by (cases n) auto

lemma repr_push_eq: "repr_push (n, repr) c = (if n = 0 then None else Some (n - 1, c # repr))"
  by (cases n) simp_all

lemma write_integer_emit: "write_integer fm v fb = map_option (\<lambda>t. emit t fb) (integer_text fm v)"
proof (cases "is_signed fm \<and> sint v = - (2 ^ 63)")
  case True
  then show ?thesis by (simp add: write_integer_def integer_text_def Let_def)
next
  case False
  define neg where "neg = (is_signed fm \<and> sint v < 0)"
  define v' where "v' = (if neg then of_int (- sint v) else v)"
  define sg where "sg = (if neg then [of_char CHR ''-''] else if prepend fm then [prepend_char fm] else [])"
  let ?loop = "if fm_base fm = 0 \<and> v' \<noteq> 0 then None else repr_loop fm REPR_BUFFER_SIZE v' []"
  let ?fb = "if prepend fm \<or> neg then write_one (if neg then of_char CHR ''-'' else prepend_char fm) fb else fb"
  have tx: "integer_text fm v = map_option (\<lambda>t. sg @ pad_field fm t) (integer_repr fm v')"
    using False unfolding integer_text_def Let_def neg_def [symmetric] v'_def sg_def by (auto simp: neg_def)
  have fb: "?fb = emit sg fb" by (simp add: sg_def emit_one)
  have val: "(if neg then if sint v = - (2 ^ 63) then None else Some (of_int (- sint v)) else Some v) = Some v'"
    using False by (auto simp: v'_def neg_def)
  show ?thesis
  proof (cases ?loop)
    case None
    then have "integer_repr fm v' = None" by (simp add: integer_repr_def)
    moreover have "write_integer fm v fb = None"
      unfolding write_integer_def Let_def neg_def [symmetric] val using None by simp
    ultimately show ?thesis by (simp add: tx)
  next
    case (Some p)
    obtain index repr where p: "p = (index, repr)" by fastforce
    then have len: "REPR_BUFFER_SIZE - index = length repr" "index + length repr = 32"
      using Some repr_loop_length [of fm 32 v' "[]" index repr] by (auto simp: REPR_BUFFER_SIZE_def split: if_splits)
    have size32: "REPR_BUFFER_SIZE - index = length repr" and room: "index = 32 - length repr" "length repr \<le> 32"
      using len by simp_all
    note [simp] = repr_push_eq write_many_emit write_padding_emit pad_field_def Let_def emit_append [symmetric]
    have run: "write_integer fm v fb =
      (let step = (\<lambda>(index, repr) repr_size fb. Some (if left_justify fm then write_padding fm repr_size (write_many repr repr_size fb)
                else write_many repr repr_size (write_padding fm repr_size fb))) in
       do { ((index, repr), repr_size) \<leftarrow>
            (if length repr = 0 then do { r \<leftarrow> repr_push (index, repr) (of_char CHR ''0''); Some (r, 1) }
             else Some ((index, repr), length repr));
          ((index, repr), repr_size) \<leftarrow>
            (if alternate_form fm then
               if fm_base fm = 16 then
                 do { r \<leftarrow> repr_push (index, repr) (of_char (if uppercase fm then CHR ''X'' else CHR ''x''));
                      r \<leftarrow> repr_push r (of_char CHR ''0''); Some (r, repr_size + 2) }
               else if fm_base fm = 8 then
                 do { r \<leftarrow> repr_push (index, repr) (of_char CHR ''0''); Some (r, repr_size + 1) }
               else Some ((index, repr), repr_size)
             else Some ((index, repr), repr_size));
          step (index, repr) repr_size (emit sg fb) })"
      unfolding write_integer_def Let_def neg_def [symmetric] val bind.bind_lunit fb
      unfolding Some p bind.bind_lunit prod.case size32 ..
    show ?thesis
    proof (cases "repr = []")
      case True
      then show ?thesis using room unfolding run tx integer_repr_def Some p
        by (cases "alternate_form fm"; cases "fm_base fm = 16"; cases "fm_base fm = 8") simp_all
    next
      case False
      then show ?thesis using room unfolding run tx integer_repr_def Some p
        by (cases "alternate_form fm"; cases "fm_base fm = 16"; cases "fm_base fm = 8") simp_all
    qed
  qed
qed

lemma write_int_emits: "emits (write_int fm flag v)"
proof -
  obtain fm' where "write_int fm flag v = write_integer fm' v" by (auto simp: write_int_def Let_def fun_eq_iff)
  then show ?thesis by (cases "integer_text fm' v") (auto simp: emits_def write_integer_emit)
qed

definition step_emits :: "(fmt_buf_state \<Rightarrow> (u8 list \<times> fmt_arg list \<times> fmt_buf_state) option option) \<Rightarrow> bool" where
  "step_emits f \<longleftrightarrow> (\<forall>fb. f fb = None) \<or> (\<forall>fb. f fb = Some None)
     \<or> (\<exists>rest vlist t. \<forall>fb. f fb = Some (Some (rest, vlist, emit t fb)))"

lemma step_emits_None [intro]: "step_emits (\<lambda>fb. None)" "step_emits (\<lambda>fb. Some None)"
  by (auto simp: step_emits_def)

lemma step_emits_emit: "step_emits (\<lambda>fb. Some (Some (rest, vlist, emit t fb)))"
  by (auto simp: step_emits_def)

lemma step_emits_write:
  "emits f \<Longrightarrow> step_emits (\<lambda>fb. do { fb \<leftarrow> f fb; Some (Some (rest, vlist, fb)) })"
  by (auto simp: emits_def step_emits_def)

lemma step_emits_bind: "(\<And>x. m = Some x \<Longrightarrow> step_emits (f x)) \<Longrightarrow> step_emits (\<lambda>fb. Option.bind m (\<lambda>x. f x fb))"
  by (cases m) (auto simp: step_emits_def)

lemma step_emits_case:
  "step_emits f \<Longrightarrow> (\<And>x. step_emits (g x)) \<Longrightarrow> step_emits (\<lambda>fb. case m of None \<Rightarrow> f fb | Some x \<Rightarrow> g x fb)"
  by (cases m) simp_all

lemma step_emits_pair: "(\<And>a b. step_emits (f a b)) \<Longrightarrow> step_emits (\<lambda>fb. case p of (a, b) \<Rightarrow> f a b fb)"
  by (cases p) simp

lemmas step_emits_rules = step_emits_None step_emits_write step_emits_bind step_emits_case step_emits_pair
  write_int_emits convert_string_emits

lemma convert_emits: "step_emits (convert fm fmt vlist)"
  unfolding convert_def emit_one [of "ucast _"]
  by (intro step_emits_rules step_emits_emit)

lemma conversion_emits: "step_emits (conversion fmt vlist)"
  unfolding conversion_def emit_one [of "of_char _"]
  by (intro step_emits_rules step_emits_emit convert_emits)

lemma find_next_conversion_offset:
  "find_next_conversion fmt n = Some (r, k) \<Longrightarrow> n \<le> k \<and> k - n \<le> length fmt"
  by (induction fmt n rule: find_next_conversion.induct) (fastforce split: if_splits)+

lemma format_loop_emits:
  "(\<forall>fb. format_loop fmt vlist fb = None) \<or> (\<exists>ok t. \<forall>fb. format_loop fmt vlist fb = Some (ok, emit t fb))"
proof (induction fmt arbitrary: vlist rule: length_induct)
  case (1 fmt)
  show ?case
  proof (cases "fmt = [] \<or> hd fmt = 0 \<or> find_next_conversion fmt 0 = None")
    case True
    then show ?thesis
      proof (cases "fmt \<noteq> [] \<and> hd fmt = 0")
      case True
      then have "\<forall>fb. format_loop fmt vlist fb = Some (True, emit [] fb)"
        by (cases fmt) (simp_all add: format_loop.simps)
      then show ?thesis by blast
    next
      case False
      with True have "\<forall>fb. format_loop fmt vlist fb = None"
        by (cases fmt) (auto simp: format_loop.simps simp del: find_next_conversion.simps)
      then show ?thesis by blast
    qed
  next
    case False
    then obtain c fmt' nx k where fmt: "fmt = c # fmt'" "c \<noteq> 0" and nx: "find_next_conversion fmt 0 = Some (nx, k)"
      by (cases fmt) auto
    let ?t = "take k fmt"
    have lit: "(if k \<noteq> 0 then write_many fmt k fb else fb) = emit ?t fb" for fb
      using find_next_conversion_offset [OF nx] by (simp add: write_many_emit)
    have loop: "format_loop fmt vlist fb =
      (case nx of None \<Rightarrow> Some (True, emit ?t fb)
       | Some f \<Rightarrow> (case conversion f vlist (emit ?t fb) of
                     None \<Rightarrow> None | Some None \<Rightarrow> Some (False, emit ?t fb)
                   | Some (Some (f, vlist, fb)) \<Rightarrow> format_loop f vlist fb))" for fb
    proof -
      have "format_loop fmt vlist fb =
        (let fb = (if k \<noteq> 0 then write_many fmt k fb else fb) in
         case nx of None \<Rightarrow> Some (True, fb)
         | Some f \<Rightarrow> (case conversion f vlist fb of
                     None \<Rightarrow> None | Some None \<Rightarrow> Some (False, fb)
                   | Some (Some (f, vlist, fb)) \<Rightarrow> format_loop f vlist fb))"
        using fmt nx by (subst format_loop.simps) (simp del: find_next_conversion.simps)
      then show ?thesis by (simp only: lit Let_def)
    qed
    show ?thesis
    proof (cases nx)
      case None
      then show ?thesis unfolding loop by auto
    next
      case (Some f)
      from conversion_emits [of f vlist] show ?thesis unfolding step_emits_def
      proof (elim disjE exE)
        fix rest vl t assume c: "\<forall>fb. conversion f vlist fb = Some (Some (rest, vl, emit t fb))"
        then have "length rest < length f" using conversion_shorter by blast
        also have "length f \<le> length fmt" using nx Some find_next_conversion_shorter by blast
        finally show ?thesis
          using 1 [rule_format, of rest vl] c Some unfolding loop by (auto simp: emit_append [symmetric])
      qed (use Some in \<open>auto simp: loop\<close>)
    qed
  qed
qed

section \<open>Digits\<close>

text \<open>The numeral of a number in a base, with the character of each digit.\<close>

function digits_in :: "nat \<Rightarrow> (nat \<Rightarrow> u8) \<Rightarrow> nat \<Rightarrow> u8 list" where
  "digits_in b f n = (if b < 2 \<or> n < b then [f n] else digits_in b f (n div b) @ [f (n mod b)])"
  by pat_completeness auto
termination by (relation "measure (\<lambda>(b, f, n). n)") auto

declare digits_in.simps [simp del]

lemma digits_in_not_Nil: "digits_in b f n \<noteq> []"
  by (subst digits_in.simps) simp

definition dec_char :: "nat \<Rightarrow> u8" where
  "dec_char d = 48 + of_nat d"

definition upper_char :: "nat \<Rightarrow> u8" where
  "upper_char d = map of_char ''0123456789ABCDEF'' ! d"

lemma digits10_eq: "digits10 n = digits_in 10 dec_char n"
proof (induction n rule: digits10.induct)
  case (1 n)
  then show ?case
    by (cases "n < 10") (simp_all add: digits10.simps [of n] digits_in.simps [of 10 dec_char n]
        dec_char_def [of n] dec_char_def [of "n mod 10"])
qed

lemma repr_loop_digits:
  assumes "2 \<le> b" and "b < 2 ^ 32" and "fm_base fm = of_nat b" and "\<And>d. d < b \<Longrightarrow> repr_char fm (of_nat d) = f d"
  shows "v \<noteq> 0 \<Longrightarrow> unat v < b ^ index \<Longrightarrow>
    repr_loop fm index v repr = Some (index - length (digits_in b f (unat v)), digits_in b f (unat v) @ repr)
    \<and> length (digits_in b f (unat v)) \<le> index"
proof (induction index arbitrary: v repr)
  case 0
  then show ?case by (simp add: word_unat_eq_iff)
next
  case (Suc n)
  have base: "unat (ucast (fm_base fm) :: u64) = b"
    using assms(2,3) by (simp add: unsigned_ucast_eq unat_of_nat take_bit_nat_eq_self)
  have q: "unat (v div ucast (fm_base fm)) = unat v div b" "unat (v mod ucast (fm_base fm)) = unat v mod b"
    using base by (simp_all add: unat_div_distrib unat_mod_distrib)
  then have r: "repr_char fm (v mod ucast (fm_base fm)) = f (unat v mod b)"
  proof -
    have "v mod ucast (fm_base fm) = of_nat (unat v mod b)" unfolding q(2) [symmetric] by simp
    moreover have "unat v mod b < b" using assms(1) by simp
    ultimately show ?thesis using assms(4) by simp
  qed
  show ?case
  proof (cases "unat v < b")
    case True
    then have "v div ucast (fm_base fm) = 0" using q by (simp add: word_unat_eq_iff)
    with Suc.prems True r show ?thesis by (cases n) (simp_all add: digits_in.simps [of b f "unat v"])
  next
    case False
    then have "v div ucast (fm_base fm) \<noteq> 0" using q(1) assms(1) by (auto simp: word_unat_eq_iff div_eq_0_iff)
    moreover have "unat (v div ucast (fm_base fm)) < b ^ n"
      using Suc.prems(2) assms(1) unfolding q by (simp add: div_less_iff_less_mult mult.commute)
    ultimately show ?thesis
      using Suc.IH [of "v div ucast (fm_base fm)" "repr_char fm (v mod ucast (fm_base fm)) # repr"] Suc.prems(1) False assms(1) r
      unfolding q by (subst (1 2 3) digits_in.simps) auto
  qed
qed

lemma integer_repr_digits:
  assumes "8 \<le> b" and "b < 2 ^ 32" and "fm_base fm = of_nat b" and "\<And>d. d < b \<Longrightarrow> repr_char fm (of_nat d) = f d"
    and "\<not> alternate_form fm" and "f 0 = of_char CHR ''0''"
  shows "integer_repr fm v = Some (digits_in b f (unat v))"
proof (cases "v = 0")
  case True
  have "repr_loop fm REPR_BUFFER_SIZE 0 [] = Some (32, [])" by (simp add: REPR_BUFFER_SIZE_def eval_nat_numeral)
  then show ?thesis using True assms(1,5,6) by (simp add: integer_repr_def repr_push_eq digits_in.simps)
next
  case False
  have "unat v < 2 ^ 64" by (rule unat_u64_less)
  also have "(2 :: nat) ^ 64 \<le> 8 ^ 32" by simp
  also have "\<dots> \<le> b ^ 32" using assms(1) by (rule power_mono) simp
  finally have "unat v < b ^ REPR_BUFFER_SIZE" by (simp only: REPR_BUFFER_SIZE_def)
  moreover have "fm_base fm \<noteq> 0" using assms(1-3) by (simp add: word_unat_eq_iff unat_of_nat take_bit_nat_eq_self)
  ultimately show ?thesis
    using repr_loop_digits [OF _ assms(2-4) False, of REPR_BUFFER_SIZE "[]"] assms(1,5) digits_in_not_Nil
    by (simp add: integer_repr_def)
qed

section \<open>Rendering\<close>

text \<open>
  The pieces of a format: a plain character, the percent sign, and the conversions the
  library uses, each with its spelling, the argument it takes and the text it prints.
  \<open>PSig\<close> is \<^verbatim>\<open>%.4s\<close> and the like, on an array without terminator.
\<close>

datatype fmt_piece = PLit u8 | PPercent | PInt u32 | PUns u32 | PLong u64 | PHex nat u32 | PHexLong u64
  | PStr "u8 list" | PSig "u8 list"

fun spelled :: "fmt_piece \<Rightarrow> u8 list" where
  "spelled (PLit c) = [c]"
| "spelled PPercent = map of_char ''%%''"
| "spelled (PInt v) = map of_char ''%d''"
| "spelled (PUns v) = map of_char ''%u''"
| "spelled (PLong v) = map of_char ''%llu''"
| "spelled (PHex n v) = map of_char ''%0'' @ [48 + of_nat n] @ map of_char ''X''"
| "spelled (PHexLong v) = map of_char ''%016llX''"
| "spelled (PStr s) = map of_char ''%s''"
| "spelled (PSig s) = map of_char ''%.'' @ [48 + of_nat (length s)] @ map of_char ''s''"

fun argument :: "fmt_piece \<Rightarrow> fmt_arg list" where
  "argument (PInt v) = [AInt v]"
| "argument (PUns v) = [AInt v]"
| "argument (PLong v) = [ALong v]"
| "argument (PHex n v) = [AInt v]"
| "argument (PHexLong v) = [ALong v]"
| "argument (PStr s) = [AStr (Some (s @ [0]))]"
| "argument (PSig s) = [AStr (Some s)]"
| "argument _ = []"

definition zero_padded :: "nat \<Rightarrow> u8 list \<Rightarrow> u8 list" where
  "zero_padded n t = replicate (n - length t) (of_char CHR ''0'') @ t"

fun rendered :: "fmt_piece \<Rightarrow> u8 list" where
  "rendered (PLit c) = [c]"
| "rendered PPercent = map of_char ''%''"
| "rendered (PInt v) = int_text (sint v)"
| "rendered (PUns v) = digits10 (unat v)"
| "rendered (PLong v) = digits10 (unat v)"
| "rendered (PHex n v) = zero_padded n (digits_in 16 upper_char (unat v))"
| "rendered (PHexLong v) = zero_padded 16 (digits_in 16 upper_char (unat v))"
| "rendered (PStr s) = s"
| "rendered (PSig s) = s"

fun fmt_piece_ok :: "fmt_piece \<Rightarrow> bool" where
  "fmt_piece_ok (PLit c) = (c \<noteq> 0 \<and> c \<noteq> of_char CHR ''%'')"
| "fmt_piece_ok (PHex n v) = (1 \<le> n \<and> n \<le> 9)"
| "fmt_piece_ok (PStr s) = (0 \<notin> set s)"
| "fmt_piece_ok (PSig s) = (0 \<notin> set s \<and> 1 \<le> length s \<and> length s \<le> 9)"
| "fmt_piece_ok _ = True"

named_theorems fmt_simps \<open>runs of the format parser on a known prefix\<close>

lemma consume_miss [fmt_simps]:
  assumes "c \<noteq> of_char t" and "rest \<noteq> []"
  shows "consume [t] (c # rest) = Some None" "consume [t, t'] (c # rest) = Some None"
  using assms by (cases rest; simp add: consume_def)+

lemma consume_miss2 [fmt_simps]:
  assumes "d \<noteq> of_char t'"
  shows "consume [t, t'] (c # d # rest) = Some None"
  using assms by (simp add: consume_def)

lemma consume_hit [fmt_simps]: "c = of_char t \<Longrightarrow> c \<noteq> 0 \<Longrightarrow> consume [t] (c # rest) = Some (Some rest)"
  by (simp add: consume_def)

lemma consume_hit2 [fmt_simps]:
  "c = of_char t \<Longrightarrow> d = of_char t' \<Longrightarrow> c \<noteq> 0 \<Longrightarrow> d \<noteq> 0 \<Longrightarrow> consume [t, t'] (c # d # rest) = Some (Some rest)"
  by (simp add: consume_def)

lemma consume_digits_stop [fmt_simps]: "c < 48 \<or> 57 < c \<Longrightarrow> consume_digits (c # rest) n = Some (n, c # rest)"
  by simp

lemmas fmt_defs = conversion_def parse_width_def parse_number_def parse_precision_def convert_def
  sized_integer_def integer_argument_def map_arg_def write_int_def consume_one_of_def
  base_from_specifier_def is_uppercase_specifier_def

lemma run_d: "rest \<noteq> [] \<Longrightarrow> conversion (map of_char ''%d'' @ rest) (AInt v # vlist) fb
   = map_option (\<lambda>fb. Some (rest, vlist, fb)) (write_integer (initial_spec\<lparr>is_signed := True\<rparr>) (scast v) fb)"
  by (simp add: fmt_defs fmt_simps map_option_case del: consume_digits.simps split: option.split)

lemma run_u: "rest \<noteq> [] \<Longrightarrow> conversion (map of_char ''%u'' @ rest) (AInt v # vlist) fb
   = map_option (\<lambda>fb. Some (rest, vlist, fb))
      (write_integer (initial_spec\<lparr>fm_base := 10, uppercase := False\<rparr>) (ucast v) fb)"
  by (simp add: fmt_defs fmt_simps map_option_case del: consume_digits.simps split: option.split)

lemma run_llu: "rest \<noteq> [] \<Longrightarrow> conversion (map of_char ''%llu'' @ rest) (ALong v # vlist) fb
   = map_option (\<lambda>fb. Some (rest, vlist, fb))
      (write_integer (initial_spec\<lparr>fm_base := 10, uppercase := False\<rparr>) v fb)"
  by (simp add: fmt_defs fmt_simps map_option_case del: consume_digits.simps split: option.split)

lemma run_s: "rest \<noteq> [] \<Longrightarrow> conversion (map of_char ''%s'' @ rest) (AStr s # vlist) fb
   = map_option (\<lambda>fb. Some (rest, vlist, fb)) (convert_string initial_spec s fb)"
  by (simp add: fmt_defs fmt_simps map_option_case del: consume_digits.simps split: option.split)

lemma run_percent: "conversion (map of_char ''%%'' @ rest) vlist fb = Some (Some (rest, vlist, emit [37] fb))"
  by (simp add: fmt_defs fmt_simps emit_one)

text \<open>A width or precision given as a numeral.\<close>

lemma is_digit_dec: "is_digit_of UACPI_BASE_DEC c \<longleftrightarrow> 48 \<le> c \<and> c \<le> 57"
  by (auto simp: is_digit_of_def char_digit_def word_le_nat_alt word_less_nat_alt)

lemma consume_digits_run:
  "list_all (is_digit_of UACPI_BASE_DEC) ds \<Longrightarrow> consume_digits (ds @ c # rest) n = consume_digits (c # rest) (n + length ds)"
proof (induction ds arbitrary: n)
  case (Cons d ds)
  have "\<not> d < 48" "\<not> 57 < d" using Cons.prems by (simp_all add: is_digit_dec not_less)
  then have step: "consume_digits (d # x) n = consume_digits x (n + 1)" for x by simp
  show ?case unfolding append_Cons step using Cons by (simp del: consume_digits.simps)
qed simp

lemma parse_number_run:
  assumes "ds \<noteq> []" and "list_all (is_digit_of UACPI_BASE_DEC) ds" and "numeral_value 10 ds 0 < 2 ^ 64"
    and "\<not> is_digit_of UACPI_BASE_DEC c"
  shows "parse_number (ds @ c # rest) mode v = Some (True, c # rest, of_nat (numeral_value 10 ds 0))"
proof -
  have "c < 48 \<or> 57 < c" using assms(4) by (auto simp: is_digit_dec)
  then have "consume_digits (ds @ c # rest) 0 = Some (length ds, c # rest)"
    using consume_digits_run [OF assms(2), of c rest 0] by (simp add: consume_digits_stop del: consume_digits.simps)
  moreover have "uacpi_string_to_integer (ds @ c # rest) (length ds) UACPI_BASE_DEC
      = Some (UACPI_STATUS_OK, of_nat (numeral_value 10 ds 0))"
    using digits_read [of UACPI_BASE_DEC ds "c # rest"] assms(1-3) by simp
  ultimately show ?thesis using assms(1) by (simp add: parse_number_def)
qed

lemma digit_char:
  assumes "n \<le> 9"
  shows "48 \<le> (48 + of_nat n :: u8)" "(48 + of_nat n :: u8) \<le> 57" "unat (48 + of_nat n :: u8) = 48 + n"
proof -
  show u: "unat (48 + of_nat n :: u8) = 48 + n"
    using assms by (simp add: unat_word_ariths unat_of_nat take_bit_nat_eq_self)
  then show "48 \<le> (48 + of_nat n :: u8)" "(48 + of_nat n :: u8) \<le> 57"
    using assms by (simp_all add: word_le_nat_alt)
qed

lemma digit_char_neq: "n \<le> 9 \<Longrightarrow> unat k \<noteq> 48 + n \<Longrightarrow> 48 + of_nat n \<noteq> (k :: u8)"
  using digit_char(3) by metis

lemma parse_digit:
  assumes "n \<le> 9" and "\<not> is_digit_of UACPI_BASE_DEC c"
  shows "parse_number ((48 + of_nat n) # c # rest) mode v = Some (True, c # rest, of_nat n)"
proof -
  have "numeral_value 10 [48 + of_nat n] 0 = n"
    using digit_char [OF assms(1)] by (simp add: char_digit_def)
  then show ?thesis
    using parse_number_run [of "[48 + of_nat n]" c rest mode v] assms digit_char [OF assms(1)]
    by (simp add: is_digit_dec)
qed

lemma parse_16: "\<not> is_digit_of UACPI_BASE_DEC c \<Longrightarrow> parse_number (49 # 54 # c # rest) mode v = Some (True, c # rest, 16)"
  using parse_number_run [of "[49, 54]" c rest mode v] by (simp add: is_digit_dec char_digit_def)

lemma run_sig:
  assumes "1 \<le> n" and "n \<le> 9" and "rest \<noteq> []"
  shows "conversion (map of_char ''%.'' @ [48 + of_nat n] @ map of_char ''s'' @ rest) (AStr s # vlist) fb
   = map_option (\<lambda>fb. Some (rest, vlist, fb))
       (convert_string (initial_spec\<lparr>has_precision := True, precision := of_nat n\<rparr>) s fb)"
proof -
  have ne: "48 + of_nat n \<noteq> (42 :: u8)" by (rule digit_char_neq [OF assms(2)]) simp
  have "parse_width initial_spec (46 # (48 + of_nat n) # 115 # rest) v = Some (Some (initial_spec, 46 # (48 + of_nat n) # 115 # rest, v))" for v
    by (simp add: parse_width_def fmt_simps parse_number_def del: consume_digits.simps)
  moreover have "parse_precision initial_spec (46 # (48 + of_nat n) # 115 # rest) v
      = Some (Some (initial_spec\<lparr>has_precision := True, precision := of_nat n\<rparr>, 115 # rest, v))" for v
    using ne assms(2) by (simp add: parse_precision_def fmt_simps parse_digit is_digit_dec del: consume_digits.simps)
  ultimately show ?thesis using assms(3)
    by (simp add: conversion_def fmt_simps convert_def map_option_case del: consume_digits.simps split: option.split)
qed

lemma run_hex:
  assumes "1 \<le> n" and "n \<le> 9" and "rest \<noteq> []"
  shows "conversion (map of_char ''%0'' @ [48 + of_nat n] @ map of_char ''X'' @ rest) (AInt v # vlist) fb
   = map_option (\<lambda>fb. Some (rest, vlist, fb))
       (write_integer (initial_spec\<lparr>pad_char := 48, min_width := of_nat n, fm_base := 16, uppercase := True\<rparr>) (ucast v) fb)"
proof -
  have ne: "48 + of_nat n \<noteq> (42 :: u8)" "48 + of_nat n \<noteq> (43 :: u8)" "48 + of_nat n \<noteq> (32 :: u8)"
    "48 + of_nat n \<noteq> (45 :: u8)" "48 + of_nat n \<noteq> (48 :: u8)" "48 + of_nat n \<noteq> (35 :: u8)"
    by (rule digit_char_neq [OF assms(2)], use assms(1) in simp)+
  have "parse_flags (48 # (48 + of_nat n) # 88 # rest) initial_spec
      = Some ((48 + of_nat n) # 88 # rest, initial_spec\<lparr>pad_char := 48\<rparr>)"
    using ne by simp
  moreover have "parse_width (initial_spec\<lparr>pad_char := 48\<rparr>) ((48 + of_nat n) # 88 # rest) v
      = Some (Some (initial_spec\<lparr>pad_char := 48, min_width := of_nat n\<rparr>, 88 # rest, v))" for v
    using ne assms(2) by (simp add: parse_width_def fmt_simps parse_digit is_digit_dec)
  ultimately show ?thesis using assms(3)
    by (simp add: conversion_def fmt_simps parse_precision_def convert_def sized_integer_def integer_argument_def
        map_arg_def write_int_def consume_one_of_def base_from_specifier_def is_uppercase_specifier_def
        map_option_case del: parse_flags.simps split: option.split)
qed

lemma run_hex_long:
  assumes "rest \<noteq> []"
  shows "conversion (map of_char ''%016llX'' @ rest) (ALong v # vlist) fb
   = map_option (\<lambda>fb. Some (rest, vlist, fb))
       (write_integer (initial_spec\<lparr>pad_char := 48, min_width := 16, fm_base := 16, uppercase := True\<rparr>) v fb)"
proof -
  have "parse_width (initial_spec\<lparr>pad_char := 48\<rparr>) (49 # 54 # 108 # 108 # 88 # rest) v
      = Some (Some (initial_spec\<lparr>pad_char := 48, min_width := 16\<rparr>, 108 # 108 # 88 # rest, v))" for v
    by (simp add: parse_width_def fmt_simps parse_16 is_digit_dec)
  then show ?thesis using assms
    by (simp add: conversion_def fmt_simps parse_precision_def convert_def sized_integer_def integer_argument_def
        map_arg_def write_int_def consume_one_of_def base_from_specifier_def is_uppercase_specifier_def
        map_option_case split: option.split)
qed

lemma repr_char_dec: "fm_base fm = 10 \<Longrightarrow> d < 10 \<Longrightarrow> repr_char fm (of_nat d) = dec_char d"
proof -
  assume d: "d < 10" and b: "fm_base fm = 10"
  have "take_bit 64 d = d" using d by (intro take_bit_nat_eq_self) simp
  then have "ucast (of_nat d :: u64) = (of_nat d :: u8)" by (simp add: unsigned_of_nat)
  with b show ?thesis by (simp add: repr_char_def dec_char_def)
qed

lemma repr_char_upper: "fm_base fm = 16 \<Longrightarrow> uppercase fm \<Longrightarrow> d < 16 \<Longrightarrow> repr_char fm (of_nat d) = upper_char d"
  by (simp add: repr_char_def upper_char_def hex_char_def unat_of_nat take_bit_nat_eq_self del: list.map)

lemma integer_repr_dec:
  assumes "fm_base fm = 10" and "\<not> alternate_form fm"
  shows "integer_repr fm v = Some (digits10 (unat v))"
  unfolding digits10_eq
  by (rule integer_repr_digits) (use assms repr_char_dec in \<open>simp_all add: dec_char_def\<close>)

lemma integer_repr_upper:
  assumes "fm_base fm = 16" and "uppercase fm" and "\<not> alternate_form fm"
  shows "integer_repr fm v = Some (digits_in 16 upper_char (unat v))"
  by (rule integer_repr_digits) (use assms repr_char_upper in \<open>simp_all add: upper_char_def\<close>)

lemma unat_ucast_u64: "unat (ucast (v :: u32) :: u64) = unat v"
proof -
  have "unat v < 2 ^ LENGTH(32)" by (rule unsigned_less)
  then have "unat v < 2 ^ 64" by simp
  then show ?thesis by (simp add: unsigned_ucast_eq take_bit_nat_eq_self)
qed

lemma integer_text_d:
  "integer_text (initial_spec\<lparr>is_signed := True\<rparr>) (scast (v :: u32)) = Some (int_text (sint v))"
proof -
  have b: "- (2 ^ 31) \<le> sint v" "sint v < 2 ^ 31" using sint_ge [of v] sint_lt [of v] by simp_all
  have s: "sint (scast v :: u64) = sint v"
    unfolding signed_scast_eq by (subst signed_take_bit_int_eq_self) (use b in simp_all)
  show ?thesis
  proof (cases "sint v < 0")
    case True
    have "unat (of_int (- sint v) :: u64) = nat (- sint v)"
    proof -
      have "unat (of_nat (nat (- sint v)) :: u64) = nat (- sint v)" using b by (intro unat_of_nat_u64) simp
      then show ?thesis using True by simp
    qed
    with True b show ?thesis
      by (simp add: integer_text_def s Let_def integer_repr_dec initial_spec_def pad_field_def int_text_def)
  next
    case False
    have "unat (scast v :: u64) = nat (sint v)"
    proof -
      have "scast v = (of_int (sint v) :: u64)" by (rule of_int_sint [symmetric])
      also have "sint v = int (nat (sint v))" using False by simp
      also have "of_int (int (nat (sint v))) = (of_nat (nat (sint v)) :: u64)" by (rule of_int_of_nat_eq)
      finally have "unat (scast v :: u64) = unat (of_nat (nat (sint v)) :: u64)" by (rule arg_cong)
      also have "\<dots> = nat (sint v)" by (rule unat_of_nat_u64) (use b in simp)
      finally show ?thesis .
    qed
    with False show ?thesis
      by (simp add: integer_text_def s Let_def integer_repr_dec initial_spec_def pad_field_def int_text_def)
  qed
qed

lemma integer_text_u:
  "integer_text (initial_spec\<lparr>fm_base := 10, uppercase := False\<rparr>) v = Some (digits10 (unat v))"
  by (simp add: integer_text_def Let_def integer_repr_dec initial_spec_def pad_field_def)

lemma integer_text_hex:
  "n < 2 ^ 64 \<Longrightarrow>
   integer_text (initial_spec\<lparr>pad_char := 48, min_width := of_nat n, fm_base := 16, uppercase := True\<rparr>) v
     = Some (zero_padded n (digits_in 16 upper_char (unat v)))"
  by (simp add: integer_text_def Let_def integer_repr_upper initial_spec_def pad_field_def zero_padded_def unat_of_nat_u64)

lemma write_string_full:
  "0 \<notin> set s \<Longrightarrow> write_string None (s @ 0 # x) i fb = Some (i + length s, emit s fb)"
  by (induction s arbitrary: i fb) (auto simp: emit_Cons)

lemma write_string_precision:
  "0 \<notin> set s \<Longrightarrow> i + length s = unat p \<Longrightarrow> write_string (Some p) s i fb = Some (i + length s, emit s fb)"
  by (induction s arbitrary: i fb) (auto simp: emit_Cons)

lemma find_next_shift:
  "find_next_conversion fmt n = map_option (\<lambda>(r, k). (r, k + n)) (find_next_conversion fmt 0)"
proof (induction fmt arbitrary: n)
  case (Cons c fmt)
  show ?case
    using Cons [of 1] Cons [of "n + 1"]
    by (cases "find_next_conversion fmt 0") auto
qed simp

lemma format_loop_conversion:
  assumes "conversion (37 # fmt) vlist fb = Some (Some (rest, vl, fb'))"
  shows "format_loop (37 # fmt) vlist fb = format_loop rest vl fb'"
  using assms by (subst format_loop.simps) simp

lemma format_loop_lit:
  assumes "c \<noteq> 0" and "c \<noteq> of_char CHR ''%''"
  shows "format_loop (c # rest) vlist fb = format_loop rest vlist (emit [c] fb)"
proof (cases "find_next_conversion rest 0")
  case None
  then have l: "find_next_conversion (c # rest) 0 = None" using assms find_next_shift [of rest 1] by simp
  from None have "format_loop rest vlist fb' = None" for fb'
    by (cases rest) (auto simp: format_loop.simps split: if_splits)
  with l assms show ?thesis by (subst format_loop.simps) (simp del: find_next_conversion.simps)
next
  case (Some p)
  obtain nx k where p: "p = (nx, k)" by fastforce
  have l: "find_next_conversion (c # rest) 0 = Some (nx, k + 1)"
    using assms find_next_shift [of rest 1] Some p by simp
  have k: "k \<le> length rest" using find_next_conversion_offset [of rest 0 nx k] Some p by simp
  show ?thesis
  proof (cases "hd rest = 0")
    case True
    then obtain rest' where "rest = 0 # rest'" using Some by (cases rest) auto
    moreover from this Some p have "nx = None" "k = 0" by simp_all
    ultimately show ?thesis using l assms
      by (subst format_loop.simps) (simp add: format_loop.simps [of "0 # rest'"] write_many_emit del: find_next_conversion.simps)
  next
    case False
    then obtain d rest' where rest: "rest = d # rest'" "d \<noteq> 0" using Some by (cases rest) auto
    have w: "write_many (c # rest) (k + 1) fb = emit (take k rest) (emit [c] fb)"
      using k by (simp add: write_many_emit emit_Cons)
    have w': "(if k \<noteq> 0 then write_many rest k fb' else fb') = emit (take k rest) fb'" for fb'
      using k by (simp add: write_many_emit)
    have "format_loop rest vlist (emit [c] fb) =
       (let fb = (if k \<noteq> 0 then write_many rest k (emit [c] fb) else emit [c] fb) in
         case nx of None \<Rightarrow> Some (True, fb)
         | Some f \<Rightarrow> (case conversion f vlist fb of
                     None \<Rightarrow> None | Some None \<Rightarrow> Some (False, fb)
                   | Some (Some (f, vlist, fb)) \<Rightarrow> format_loop f vlist fb))"
      using rest Some p by (subst format_loop.simps) (simp del: find_next_conversion.simps)
    moreover have "format_loop (c # rest) vlist fb =
       (let fb = write_many (c # rest) (k + 1) fb in
         case nx of None \<Rightarrow> Some (True, fb)
         | Some f \<Rightarrow> (case conversion f vlist fb of
                     None \<Rightarrow> None | Some None \<Rightarrow> Some (False, fb)
                   | Some (Some (f, vlist, fb)) \<Rightarrow> format_loop f vlist fb))"
      using assms(1) l by (subst format_loop.simps) (simp del: find_next_conversion.simps)
    ultimately show ?thesis by (simp only: w w' Let_def)
  qed
qed

lemma format_loop_piece:
  assumes "fmt_piece_ok p" and "rest \<noteq> []"
  shows "format_loop (spelled p @ rest) (argument p @ vlist) fb = format_loop rest vlist (emit (rendered p) fb)"
proof -
  have perc: "of_char CHR ''%'' = (37 :: u8)" by simp
  note run = format_loop_conversion
  show ?thesis
  proof (cases p)
    case (PLit c)
    with assms format_loop_lit [of c rest vlist fb] show ?thesis by simp
  next
    case PPercent
    then show ?thesis using run run_percent [of rest vlist fb] by simp
  next
    case (PInt v)
    then show ?thesis using run run_d [OF assms(2), of v vlist fb] by (simp add: write_integer_emit integer_text_d)
  next
    case (PUns v)
    then show ?thesis using run run_u [OF assms(2), of v vlist fb] by (simp add: write_integer_emit integer_text_u unat_ucast_u64)
  next
    case (PLong v)
    then show ?thesis using run run_llu [OF assms(2), of v vlist fb] by (simp add: write_integer_emit integer_text_u)
  next
    case (PHex n v)
    with assms(1) have "n < 2 ^ 64" by simp
    then show ?thesis using PHex assms(1) run run_hex [OF _ _ assms(2), of n v vlist fb]
      by (simp add: write_integer_emit integer_text_hex unat_ucast_u64)
  next
    case (PHexLong v)
    then show ?thesis using run run_hex_long [OF assms(2), of v vlist fb] integer_text_hex [of 16 v]
      by (simp add: write_integer_emit)
  next
    case (PStr s)
    then have "convert_string initial_spec (Some (s @ [0])) fb = Some (emit s fb)"
      using assms(1) by (simp add: convert_string_def write_string_full initial_spec_def)
    with PStr show ?thesis using run run_s [OF assms(2), of "Some (s @ [0])" vlist fb] by simp
  next
    case (PSig s)
    with assms(1) have "unat (of_nat (length s) :: u64) = length s" by (simp add: unat_of_nat_u64)
    with PSig assms(1) have
      "convert_string (initial_spec\<lparr>has_precision := True, precision := of_nat (length s)\<rparr>) (Some s) fb = Some (emit s fb)"
      by (simp add: convert_string_def write_string_precision initial_spec_def)
    with PSig assms show ?thesis using run run_sig [of "length s" rest "Some s" vlist fb] by simp
  qed
qed

lemma format_loop_pieces:
  "list_all fmt_piece_ok ps \<Longrightarrow>
   format_loop (concat (map spelled ps) @ [0]) (concat (map argument ps)) fb = Some (True, emit (concat (map rendered ps)) fb)"
proof (induction ps arbitrary: fb)
  case Nil
  then show ?case by (simp add: format_loop.simps)
next
  case (Cons p ps)
  then show ?case
    using format_loop_piece [of p "concat (map spelled ps) @ [0]" "concat (map argument ps)" fb]
    by (simp add: emit_append)
qed

section \<open>Properties\<close>

lemma vsnprintf_text:
  assumes "\<forall>fb. format_loop fmt vlist fb = Some (ok, emit t fb)"
  shows "uacpi_vsnprintf buffer capacity fmt vlist =
    Some (if ok then sint (of_nat (length t) :: u32) else - 1,
          \<lambda>i. if i < capacity then
                if ok \<and> i = min (length t) (capacity - 1) then 0 else if i < length t then t ! i else buffer i
              else buffer i)"
  using assms by (cases ok) (auto simp: uacpi_vsnprintf_def Let_def fun_eq_iff emit_buffer)

lemma sint_of_nat_u32:
  assumes "n < 2 ^ 31"
  shows "sint (of_nat n :: u32) = int n"
proof -
  have "signed_take_bit 31 (int n) = int n" using assms by (intro signed_take_bit_int_eq_self) simp_all
  then show ?thesis by (simp add: signed_of_nat)
qed

text \<open>C30: the output stays in its buffer and does not depend on it.  For every format and
  arguments on which \<open>uacpi_vsnprintf\<close> is defined there is one text, whatever the buffer and
  its size: the buffer receives the start of the text up to the capacity, a terminator behind
  it, and no byte at or beyond the capacity is touched; the result is the length of the whole
  text, or \<open>-1\<close> when the format is not understood.\<close>

theorem vsnprintf_bounded:
  "(\<forall>buffer capacity. uacpi_vsnprintf buffer capacity fmt vlist = None)
   \<or> (\<exists>ok t. \<forall>buffer capacity. \<exists>out.
        uacpi_vsnprintf buffer capacity fmt vlist = Some (if ok then sint (of_nat (length t) :: u32) else - 1, out)
      \<and> (\<forall>i. out i =
           (if i < capacity then
              if ok \<and> i = min (length t) (capacity - 1) then 0 else if i < length t then t ! i else buffer i
            else buffer i)))"
  using format_loop_emits [of fmt vlist]
proof
  assume "\<forall>fb. format_loop fmt vlist fb = None"
  then show ?thesis by (simp add: uacpi_vsnprintf_def)
next
  assume "\<exists>ok t. \<forall>fb. format_loop fmt vlist fb = Some (ok, emit t fb)"
  then obtain ok t where "\<forall>fb. format_loop fmt vlist fb = Some (ok, emit t fb)" by blast
  note run = vsnprintf_text [OF this]
  show ?thesis
    by (intro disjI2 exI [of _ ok] exI [of _ t] allI, subst run, rule exI, rule conjI, rule refl) simp
qed

lemma vsnprintf_text_of:
  assumes "list_all fmt_piece_ok ps" and "t = concat (map rendered ps)" and "length t < 2 ^ 31" and "0 < capacity"
  shows "\<exists>out. uacpi_vsnprintf buffer capacity (concat (map spelled ps) @ [0]) (concat (map argument ps))
      = Some (int (length t), out)
    \<and> map out [0..<Suc (min (length t) (capacity - 1))] = take (capacity - 1) t @ [0]"
proof -
  have "\<forall>fb. format_loop (concat (map spelled ps) @ [0]) (concat (map argument ps)) fb = Some (True, emit t fb)"
    using format_loop_pieces [OF assms(1)] assms(2) by simp
  note run = vsnprintf_text [OF this, of buffer capacity]
  let ?out = "\<lambda>i. if i < capacity then
                if True \<and> i = min (length t) (capacity - 1) then 0 else if i < length t then t ! i else buffer i
              else buffer i"
  have "sint (of_nat (length t) :: u32) = int (length t)"
    using assms(3) by (rule sint_of_nat_u32)
  moreover have "map ?out [0..<Suc (min (length t) (capacity - 1))] = take (capacity - 1) t @ [0]"
    by (rule nth_equalityI) (use assms(4) in \<open>auto simp: nth_append min_def less_Suc_eq simp del: upt_Suc\<close>)
  ultimately show ?thesis unfolding run if_True by (intro exI [of _ ?out]) (simp only: simp_thms)
qed



text \<open>The value of a decimal numeral.\<close>

lemma digits10_value:
  "list_all (is_digit_of UACPI_BASE_DEC) (digits10 n) \<and> numeral_value 10 (digits10 n) 0 = n"
proof (induction n rule: digits10.induct)
  case (1 n)
  have last: "is_digit_of UACPI_BASE_DEC (48 + of_nat d) \<and> the (char_digit (48 + of_nat d)) = d" if "d < 10" for d
    using that digit_char [of d] by (simp add: is_digit_dec char_digit_def)
  show ?case
  proof (cases "n < 10")
    case True
    with last [of n] show ?thesis by (simp add: digits10.simps [of n])
  next
    case False
    with 1 last [of "n mod 10"] show ?thesis
      by (simp add: digits10.simps [of n] numeral_value_def)
  qed
qed

text \<open>C32: printing and reading back.  Any 64-bit number printed with \<open>%llu\<close> into a large
  enough buffer and read back with \<open>uacpi_string_to_integer\<close> comes out unchanged.\<close>

theorem print_read_roundtrip:
  assumes "length (digits10 (unat v)) < capacity" and "capacity < 2 ^ 31"
  shows "\<exists>n out. uacpi_vsnprintf buffer capacity (cstr ''%llu'') [ALong v] = Some (int n, out)
    \<and> uacpi_string_to_integer (map out [0..<capacity]) n UACPI_BASE_DEC = Some (UACPI_STATUS_OK, v)"
proof -
  let ?t = "digits10 (unat v)"
  have small: "length ?t < 2 ^ 31" "0 < capacity" using assms by simp_all
  have "\<exists>out. uacpi_vsnprintf buffer capacity (cstr ''%llu'') [ALong v] = Some (int (length ?t), out)
      \<and> map out [0..<Suc (min (length ?t) (capacity - 1))] = take (capacity - 1) ?t @ [0]"
    using vsnprintf_text_of [of "[PLong v]" ?t capacity buffer] small by (simp add: cstr_def del: upt_Suc)
  then obtain out where out: "uacpi_vsnprintf buffer capacity (cstr ''%llu'') [ALong v] = Some (int (length ?t), out)"
    "map out [0..<Suc (length ?t)] = ?t @ [0]"
    using assms(1) by (auto simp: min_absorb1 simp del: upt_Suc)
  have "[0..<capacity] = [0..<Suc (length ?t)] @ [Suc (length ?t)..<capacity]"
    using assms(1) upt_add_eq_append [of 0 "Suc (length ?t)" "capacity - Suc (length ?t)"] by (simp del: upt_Suc)
  then have "map out [0..<capacity] = ?t @ 0 # map out [Suc (length ?t)..<capacity]"
    using out(2) by (simp del: upt_Suc)
  moreover have "uacpi_string_to_integer (?t @ 0 # map out [Suc (length ?t)..<capacity]) (length ?t) UACPI_BASE_DEC
      = Some (UACPI_STATUS_OK, v)"
    using digits_read [of UACPI_BASE_DEC ?t] digits10_value [of "unat v"] unat_u64_less [of v] digits_in_not_Nil
    by (simp add: digits10_eq)
  ultimately show ?thesis using out(1) by auto
qed

theorem print_read_roundtrip_witness:
  "\<exists>n out. uacpi_vsnprintf (\<lambda>_. 0) 32 (cstr ''%llu'') [ALong 1234] = Some (int n, out)
    \<and> uacpi_string_to_integer (map out [0..<32]) n UACPI_BASE_DEC = Some (UACPI_STATUS_OK, 1234)"
  using print_read_roundtrip [of 1234 32 "\<lambda>_. 0"] by (simp add: digits10.simps del: upt_Suc)

text \<open>A log message always reaches the kernel with a terminator.  What \<open>uacpi_log\<close> hands
  over is the rendered text when it has fewer than 128 characters, and otherwise its first 123
  characters followed by three dots and a newline.\<close>

lemma log_message_cut:
  assumes "list_all fmt_piece_ok ps" and "t = concat (map rendered ps)" and "length t < 2 ^ 31"
  shows "\<exists>m. uacpi_log buf (concat (map spelled ps) @ [0]) (concat (map argument ps)) = Some (Some m)
    \<and> (if length t < 128 then take (length t + 1) m = t @ [0]
       else m = take 123 t @ map of_char ''...'' @ [0x0A, 0])"
proof -
  obtain out where out: "uacpi_vsnprintf buf 128 (concat (map spelled ps) @ [0]) (concat (map argument ps))
      = Some (int (length t), out)" "map out [0..<Suc (min (length t) 127)] = take 127 t @ [0]"
    using vsnprintf_text_of [OF assms, of 128 buf] by auto
  show ?thesis
  proof (cases "length t < 128")
    case True
    have "take (Suc (length t)) (map out [0..<128]) = map out [0..<Suc (length t)]"
      using True by (simp add: take_map take_upt del: upt_Suc)
    then show ?thesis
      using True out by (auto simp: uacpi_log_def UACPI_PLAIN_LOG_BUFFER_SIZE_def min_def simp del: upt_Suc)
  next
    case False
    have "out i = t ! i" if "i < 123" for i
      using arg_cong [OF out(2), of "\<lambda>l. l ! i"] that False by (simp add: nth_append del: upt_Suc)
    moreover have "out 127 = 0"
      using arg_cong [OF out(2), of "\<lambda>l. l ! 127"] False by (simp add: nth_append del: upt_Suc)
    then have "out i = 0" if "\<not> i \<le> 126" "i < 128" for i
    proof -
      from that have "i = 127" by simp
      with \<open>out 127 = 0\<close> show ?thesis by simp
    qed
    ultimately have "map (out(123 := 46, 124 := 46, 125 := 46, 126 := 10)) [0..<128] = take 123 t @ [46, 46, 46, 10, 0]"
      using False by (intro nth_equalityI) (auto simp: nth_append nth_Cons' less_Suc_eq_le)
    then show ?thesis
      using False out(1) by (simp add: uacpi_log_def UACPI_PLAIN_LOG_BUFFER_SIZE_def del: upt_Suc)
  qed
qed

lemma log_message_cut_witness:
  "\<exists>m. uacpi_log (\<lambda>_. 7) (cstr ''%s %d'') [AStr (Some (cstr ''irq'')), AInt 9] = Some (Some m)
     \<and> take 6 m = map of_char ''irq 9'' @ [0]"
  using log_message_cut [of "[PStr (map of_char ''irq''), PLit 32, PInt 9]" "map of_char ''irq 9''" "\<lambda>_. 7"]
  by (simp add: int_text_def digits10.simps cstr_def) (simp add: eval_nat_numeral)

end
