(* ===== verification/Mutex.thy ===== *)
theory Mutex
  imports Acpi_Base Refcount "HOL-Library.Monad_Syntax"
begin

text \<open>
  The locks of the ACPI library, \<^verbatim>\<open>src/kern/acpi/mutex.c\<close> and
  \<^verbatim>\<open>include/uacpi/internal/mutex.h\<close>: the wrappers of the host's mutexes, the global lock
  shared with the firmware, AML mutexes, recursive locks and reader-writer locks.  The host's
  functions are a record over the host's state.  Each function below is one thread's
  execution; how the executions of several threads interleave is the step relation of the
  theory \<open>Rw_Lock\<close>.  This file is not part of the bare-bones build.
\<close>

section \<open>The host\<close>

record 's lock_api =
  kernel_create_mutex :: "'s \<Rightarrow> u64 \<times> 's"
  kernel_free_mutex :: "u64 \<Rightarrow> 's \<Rightarrow> 's"
  kernel_acquire_mutex :: "u64 \<Rightarrow> u16 \<Rightarrow> 's \<Rightarrow> uacpi_status \<times> 's"
  kernel_release_mutex :: "u64 \<Rightarrow> 's \<Rightarrow> 's"
  kernel_thread_id :: "'s \<Rightarrow> u64"
  kernel_global_release :: "'s \<Rightarrow> 's"

definition UACPI_THREAD_ID_NONE :: u64 where "UACPI_THREAD_ID_NONE = - 1"

section \<open>Native mutexes\<close>

definition uacpi_acquire_native_mutex :: "'s lock_api \<Rightarrow> u64 \<Rightarrow> 's \<Rightarrow> uacpi_status \<times> 's" where
  "uacpi_acquire_native_mutex A mtx s =
     (if mtx = 0 then (UACPI_STATUS_INVALID_ARGUMENT, s) else kernel_acquire_mutex A mtx 0xFFFF s)"

definition uacpi_acquire_native_mutex_with_timeout :: "'s lock_api \<Rightarrow> u64 \<Rightarrow> u16 \<Rightarrow> 's \<Rightarrow> uacpi_status \<times> 's" where
  "uacpi_acquire_native_mutex_with_timeout A mtx timeout s =
     (if mtx = 0 then (UACPI_STATUS_INVALID_ARGUMENT, s) else kernel_acquire_mutex A mtx timeout s)"

definition uacpi_release_native_mutex :: "'s lock_api \<Rightarrow> u64 \<Rightarrow> 's \<Rightarrow> uacpi_status \<times> 's" where
  "uacpi_release_native_mutex A mtx s =
     (if mtx = 0 then (UACPI_STATUS_INVALID_ARGUMENT, s) else (UACPI_STATUS_OK, kernel_release_mutex A mtx s))"

definition uacpi_acquire_native_mutex_may_be_null :: "'s lock_api \<Rightarrow> u64 \<Rightarrow> 's \<Rightarrow> uacpi_status \<times> 's" where
  "uacpi_acquire_native_mutex_may_be_null A mtx s =
     (if mtx = 0 then (UACPI_STATUS_OK, s) else kernel_acquire_mutex A mtx 0xFFFF s)"

definition uacpi_release_native_mutex_may_be_null :: "'s lock_api \<Rightarrow> u64 \<Rightarrow> 's \<Rightarrow> uacpi_status \<times> 's" where
  "uacpi_release_native_mutex_may_be_null A mtx s =
     (if mtx = 0 then (UACPI_STATUS_OK, s) else (UACPI_STATUS_OK, kernel_release_mutex A mtx s))"

section \<open>The lock word shared with the firmware\<close>

definition GLOBAL_LOCK_PENDING :: u32 where "GLOBAL_LOCK_PENDING = push_bit 0 1"
definition GLOBAL_LOCK_OWNED_BIT :: nat where "GLOBAL_LOCK_OWNED_BIT = 1"
definition GLOBAL_LOCK_OWNED :: u32 where "GLOBAL_LOCK_OWNED = push_bit GLOBAL_LOCK_OWNED_BIT 1"
definition GLOBAL_LOCK_MASK :: u32 where "GLOBAL_LOCK_MASK = 3"

text \<open>
  The loops around the compare-and-exchange.  The firmware may store to the lock word at any
  time: \<open>fw\<close> lists the values the word has at the successive exchanges, and after the list
  the word keeps its value.  The result is the value read last and the new word.
\<close>

function cmpxchg_loop :: "(u32 \<Rightarrow> u32) \<Rightarrow> u32 list \<Rightarrow> u32 \<Rightarrow> u32 \<Rightarrow> u32 \<times> u32" where
  "cmpxchg_loop new_value fw lock v =
     (let lock = (case fw of [] \<Rightarrow> lock | w # _ \<Rightarrow> w) in
      if lock = v then (v, new_value v) else cmpxchg_loop new_value (tl fw) lock lock)"
  by pat_completeness auto
termination
  by (relation "measure (\<lambda>(_, fw, lock, v). 2 * length fw + (if lock = v then 0 else 1))")
    (auto split: list.splits)

declare cmpxchg_loop.simps [simp del]

definition lock_was_owned :: "u32 \<Rightarrow> bool" where
  "lock_was_owned v \<longleftrightarrow> drop_bit GLOBAL_LOCK_OWNED_BIT (v AND GLOBAL_LOCK_OWNED) \<noteq> 0"

definition try_acquire_global_lock_from_firmware :: "u32 list \<Rightarrow> u32 \<Rightarrow> bool \<times> u32" where
  "try_acquire_global_lock_from_firmware fw lock =
     (case cmpxchg_loop
        (\<lambda>v. let n = v AND NOT GLOBAL_LOCK_MASK;
                 n = n OR GLOBAL_LOCK_OWNED
             in if lock_was_owned v then n OR GLOBAL_LOCK_PENDING else n) fw lock lock of
        (v, lock) \<Rightarrow> (\<not> lock_was_owned v, lock))"

definition do_release_global_lock_to_firmware :: "u32 list \<Rightarrow> u32 \<Rightarrow> bool \<times> u32" where
  "do_release_global_lock_to_firmware fw lock =
     (case cmpxchg_loop (\<lambda>v. v AND NOT GLOBAL_LOCK_MASK) fw lock lock of
        (v, lock) \<Rightarrow> (v AND GLOBAL_LOCK_PENDING \<noteq> 0, lock))"

section \<open>The global lock\<close>

record global_lock =
  subsystem_initialized :: bool
  global_lock_handle :: u64
  global_lock_seq_num :: u32
  global_lock_acquired :: bool
  has_global_lock :: bool
  global_lock_pending :: bool
  facs_global_lock :: u32

text \<open>
  The attempts to take the lock from the firmware.  Between two attempts the thread waits for
  the event the firmware's release raises; \<open>fw n\<close> are the values the firmware gives the word
  before and during attempt \<open>n\<close>, the first one before the attempt reads it.
\<close>

function global_lock_spin :: "(nat \<Rightarrow> u32 list) \<Rightarrow> nat \<Rightarrow> global_lock \<Rightarrow> bool \<times> global_lock" where
  "global_lock_spin fw spins g =
     (let spins = spins + 1;
          lock = (case fw spins of [] \<Rightarrow> facs_global_lock g | w # _ \<Rightarrow> w);
          (success, lock) = try_acquire_global_lock_from_firmware (tl (fw spins)) lock;
          g = g\<lparr>facs_global_lock := lock\<rparr>
      in if success then (True, g)
         else if 0xFFFF \<le> spins then (False, g)
         else global_lock_spin fw spins (g\<lparr>global_lock_pending := True\<rparr>))"
  by pat_completeness auto
termination by (relation "measure (\<lambda>(_, spins, _). 0xFFFF - spins)") auto

declare global_lock_spin.simps [simp del]

definition uacpi_acquire_global_lock_from_firmware ::
  "(nat \<Rightarrow> u32 list) \<Rightarrow> global_lock \<Rightarrow> uacpi_status \<times> global_lock" where
  "uacpi_acquire_global_lock_from_firmware fw g =
     (if \<not> has_global_lock g then (UACPI_STATUS_OK, g)
      else case global_lock_spin fw 0 g of
        (success, g) \<Rightarrow>
          let g = g\<lparr>global_lock_pending := False\<rparr> in
          if \<not> success then (UACPI_STATUS_HARDWARE_TIMEOUT, g) else (UACPI_STATUS_OK, g))"

definition uacpi_release_global_lock_to_firmware ::
  "'s lock_api \<Rightarrow> u32 list \<Rightarrow> global_lock \<Rightarrow> 's \<Rightarrow> global_lock \<times> 's" where
  "uacpi_release_global_lock_to_firmware A fw g s =
     (if \<not> has_global_lock g then (g, s)
      else case do_release_global_lock_to_firmware fw (facs_global_lock g) of
        (pending, lock) \<Rightarrow>
          (g\<lparr>facs_global_lock := lock\<rparr>, if pending then kernel_global_release A s else s))"

text \<open>The sequence number is the output parameter, present or not.\<close>

definition uacpi_acquire_global_lock ::
  "'s lock_api \<Rightarrow> (nat \<Rightarrow> u32 list) \<Rightarrow> u16 \<Rightarrow> bool \<Rightarrow> global_lock \<Rightarrow> 's \<Rightarrow>
   (uacpi_status \<times> u32 option) \<times> global_lock \<times> 's" where
  "uacpi_acquire_global_lock A fw timeout out_seq g s =
     (if \<not> subsystem_initialized g then ((UACPI_STATUS_INIT_LEVEL_MISMATCH, None), g, s)
      else if \<not> out_seq then ((UACPI_STATUS_INVALID_ARGUMENT, None), g, s)
      else case uacpi_acquire_native_mutex_with_timeout A (global_lock_handle g) timeout s of (ret, s) \<Rightarrow>
        if ret \<noteq> UACPI_STATUS_OK then ((ret, None), g, s)
        else case uacpi_acquire_global_lock_from_firmware fw g of (ret, g) \<Rightarrow>
          if ret \<noteq> UACPI_STATUS_OK then
            ((ret, None), g, snd (uacpi_release_native_mutex A (global_lock_handle g) s))
          else
            let g = (if global_lock_seq_num g = 0xFFFFFFFF then g\<lparr>global_lock_seq_num := 0\<rparr> else g);
                seq = global_lock_seq_num g;
                g = g\<lparr>global_lock_seq_num := seq + 1\<rparr>
            in ((UACPI_STATUS_OK, Some seq), g\<lparr>global_lock_acquired := True\<rparr>, s))"

definition uacpi_release_global_lock ::
  "'s lock_api \<Rightarrow> u32 list \<Rightarrow> u32 \<Rightarrow> global_lock \<Rightarrow> 's \<Rightarrow> uacpi_status \<times> global_lock \<times> 's" where
  "uacpi_release_global_lock A fw seq g s =
     (if \<not> subsystem_initialized g then (UACPI_STATUS_INIT_LEVEL_MISMATCH, g, s)
      else if \<not> global_lock_acquired g \<or> seq \<noteq> global_lock_seq_num g then (UACPI_STATUS_INVALID_ARGUMENT, g, s)
      else case uacpi_release_global_lock_to_firmware A fw (g\<lparr>global_lock_acquired := False\<rparr>) s of (g, s) \<Rightarrow>
        (UACPI_STATUS_OK, g, snd (uacpi_release_native_mutex A (global_lock_handle g) s)))"

section \<open>Reader-writer locks\<close>

record uacpi_rw_lock =
  read_mutex :: u64
  write_mutex :: u64
  num_readers :: u64

definition uacpi_rw_lock_init :: "'s lock_api \<Rightarrow> uacpi_rw_lock \<Rightarrow> 's \<Rightarrow> uacpi_status \<times> uacpi_rw_lock \<times> 's" where
  "uacpi_rw_lock_init A l s =
     (case kernel_create_mutex A s of (r, s) \<Rightarrow>
        let l = l\<lparr>read_mutex := r\<rparr> in
        if r = 0 then (UACPI_STATUS_OUT_OF_MEMORY, l, s)
        else case kernel_create_mutex A s of (w, s) \<Rightarrow>
          let l = l\<lparr>write_mutex := w\<rparr> in
          if w = 0 then
            (UACPI_STATUS_OUT_OF_MEMORY, l\<lparr>read_mutex := 0\<rparr>, kernel_free_mutex A (read_mutex l) s)
          else (UACPI_STATUS_OK, l\<lparr>num_readers := 0\<rparr>, s))"

definition uacpi_rw_lock_deinit :: "'s lock_api \<Rightarrow> uacpi_rw_lock \<Rightarrow> 's \<Rightarrow> uacpi_status \<times> uacpi_rw_lock \<times> 's" where
  "uacpi_rw_lock_deinit A l s =
     (let l = (if num_readers l \<noteq> 0 then l\<lparr>num_readers := 0\<rparr> else l);
          (l, s) = (if read_mutex l \<noteq> 0 then (l\<lparr>read_mutex := 0\<rparr>, kernel_free_mutex A (read_mutex l) s) else (l, s));
          (l, s) = (if write_mutex l \<noteq> 0 then (l\<lparr>write_mutex := 0\<rparr>, kernel_free_mutex A (write_mutex l) s) else (l, s))
      in (UACPI_STATUS_OK, l, s))"

definition uacpi_rw_lock_read :: "'s lock_api \<Rightarrow> uacpi_rw_lock \<Rightarrow> 's \<Rightarrow> uacpi_status \<times> uacpi_rw_lock \<times> 's" where
  "uacpi_rw_lock_read A l s =
     (case uacpi_acquire_native_mutex A (read_mutex l) s of (ret, s) \<Rightarrow>
        if ret \<noteq> UACPI_STATUS_OK then (ret, l, s)
        else
          let first = (num_readers l = 0);
              l = l\<lparr>num_readers := num_readers l + 1\<rparr>;
              (ret, l, s) = (if first then
                  (case uacpi_acquire_native_mutex A (write_mutex l) s of (ret, s) \<Rightarrow>
                     (ret, if ret \<noteq> UACPI_STATUS_OK then l\<lparr>num_readers := 0\<rparr> else l, s))
                else (ret, l, s))
          in (ret, l, kernel_release_mutex A (read_mutex l) s))"

definition uacpi_rw_unlock_read :: "'s lock_api \<Rightarrow> uacpi_rw_lock \<Rightarrow> 's \<Rightarrow> uacpi_status \<times> uacpi_rw_lock \<times> 's" where
  "uacpi_rw_unlock_read A l s =
     (case uacpi_acquire_native_mutex A (read_mutex l) s of (ret, s) \<Rightarrow>
        if ret \<noteq> UACPI_STATUS_OK then (ret, l, s)
        else
          let last = (num_readers l = 1);
              l = l\<lparr>num_readers := num_readers l - 1\<rparr>;
              s = (if last then snd (uacpi_release_native_mutex A (write_mutex l) s) else s)
          in (ret, l, kernel_release_mutex A (read_mutex l) s))"

definition uacpi_rw_lock_write :: "'s lock_api \<Rightarrow> uacpi_rw_lock \<Rightarrow> 's \<Rightarrow> uacpi_status \<times> 's" where
  "uacpi_rw_lock_write A l s = uacpi_acquire_native_mutex A (write_mutex l) s"

definition uacpi_rw_unlock_write :: "'s lock_api \<Rightarrow> uacpi_rw_lock \<Rightarrow> 's \<Rightarrow> uacpi_status \<times> 's" where
  "uacpi_rw_unlock_write A l s = uacpi_release_native_mutex A (write_mutex l) s"

text \<open>The namespace lock, \<^verbatim>\<open>src/kern/acpi/namespace.c\<close>, is one such lock.\<close>

definition uacpi_namespace_read_lock :: "'s lock_api \<Rightarrow> uacpi_rw_lock \<Rightarrow> 's \<Rightarrow> uacpi_status \<times> uacpi_rw_lock \<times> 's" where
  "uacpi_namespace_read_lock = uacpi_rw_lock_read"

definition uacpi_namespace_read_unlock :: "'s lock_api \<Rightarrow> uacpi_rw_lock \<Rightarrow> 's \<Rightarrow> uacpi_status \<times> uacpi_rw_lock \<times> 's" where
  "uacpi_namespace_read_unlock = uacpi_rw_unlock_read"

definition uacpi_namespace_write_lock :: "'s lock_api \<Rightarrow> uacpi_rw_lock \<Rightarrow> 's \<Rightarrow> uacpi_status \<times> 's" where
  "uacpi_namespace_write_lock = uacpi_rw_lock_write"

definition uacpi_namespace_write_unlock :: "'s lock_api \<Rightarrow> uacpi_rw_lock \<Rightarrow> 's \<Rightarrow> uacpi_status \<times> 's" where
  "uacpi_namespace_write_unlock = uacpi_rw_unlock_write"

section \<open>AML mutexes\<close>

record aml_mutex =
  mutex_handle :: u64
  mutex_owner :: u64
  mutex_depth :: u16

definition uacpi_this_thread_owns_aml_mutex :: "'s lock_api \<Rightarrow> aml_mutex \<Rightarrow> 's \<Rightarrow> bool" where
  "uacpi_this_thread_owns_aml_mutex A m s \<longleftrightarrow> mutex_owner m = kernel_thread_id A s"

definition uacpi_acquire_aml_mutex ::
  "'s lock_api \<Rightarrow> (nat \<Rightarrow> u32 list) \<Rightarrow> uacpi_rw_lock \<Rightarrow> u16 \<Rightarrow> aml_mutex \<Rightarrow> global_lock \<Rightarrow> 's \<Rightarrow>
   uacpi_status \<times> aml_mutex \<times> global_lock \<times> 's" where
  "uacpi_acquire_aml_mutex A fw namespace timeout m g s =
     (let this_id = kernel_thread_id A s in
      if mutex_owner m = this_id then
        if mutex_depth m = 0xFFFF then (UACPI_STATUS_DENIED, m, g, s)
        else (UACPI_STATUS_OK, m\<lparr>mutex_depth := mutex_depth m + 1\<rparr>, g, s)
      else
        let s = snd (uacpi_namespace_write_unlock A namespace s);
            (ret, s) = uacpi_acquire_native_mutex_with_timeout A (mutex_handle m) timeout s;
            (ret, m, g, s) =
              (if ret \<noteq> UACPI_STATUS_OK then (ret, m, g, s)
               else
                 let (ret, g, s) =
                   (if mutex_handle m = global_lock_handle g then
                      case uacpi_acquire_global_lock_from_firmware fw g of (ret, g) \<Rightarrow>
                        (ret, g, if ret \<noteq> UACPI_STATUS_OK
                                 then snd (uacpi_release_native_mutex A (mutex_handle m) s) else s)
                    else (ret, g, s))
                 in if ret \<noteq> UACPI_STATUS_OK then (ret, m, g, s)
                    else (ret, m\<lparr>mutex_owner := this_id, mutex_depth := 1\<rparr>, g, s))
        in (ret, m, g, snd (uacpi_namespace_write_lock A namespace s)))"

definition uacpi_release_aml_mutex ::
  "'s lock_api \<Rightarrow> u32 list \<Rightarrow> aml_mutex \<Rightarrow> global_lock \<Rightarrow> 's \<Rightarrow> uacpi_status \<times> aml_mutex \<times> global_lock \<times> 's" where
  "uacpi_release_aml_mutex A fw m g s =
     (let deeper = (mutex_depth m > 1);
          m = m\<lparr>mutex_depth := mutex_depth m - 1\<rparr>
      in if deeper then (UACPI_STATUS_OK, m, g, s)
         else
           let (g, s) = (if mutex_handle m = global_lock_handle g
                         then uacpi_release_global_lock_to_firmware A fw g s else (g, s));
               m = m\<lparr>mutex_owner := UACPI_THREAD_ID_NONE\<rparr>
           in (UACPI_STATUS_OK, m, g, snd (uacpi_release_native_mutex A (mutex_handle m) s)))"

section \<open>Recursive locks\<close>

record uacpi_recursive_lock =
  rl_mutex :: u64
  rl_depth :: u64
  rl_owner :: u64

definition uacpi_recursive_lock_init ::
  "'s lock_api \<Rightarrow> uacpi_recursive_lock \<Rightarrow> 's \<Rightarrow> uacpi_status \<times> uacpi_recursive_lock \<times> 's" where
  "uacpi_recursive_lock_init A l s =
     (case kernel_create_mutex A s of (m, s) \<Rightarrow>
        let l = l\<lparr>rl_mutex := m\<rparr> in
        if m = 0 then (UACPI_STATUS_OUT_OF_MEMORY, l, s)
        else (UACPI_STATUS_OK, l\<lparr>rl_owner := UACPI_THREAD_ID_NONE, rl_depth := 0\<rparr>, s))"

definition uacpi_recursive_lock_deinit ::
  "'s lock_api \<Rightarrow> uacpi_recursive_lock \<Rightarrow> 's \<Rightarrow> uacpi_status \<times> uacpi_recursive_lock \<times> 's" where
  "uacpi_recursive_lock_deinit A l s =
     (let l = (if rl_depth l \<noteq> 0 then l\<lparr>rl_depth := 0\<rparr> else l);
          l = l\<lparr>rl_owner := UACPI_THREAD_ID_NONE\<rparr>
      in if rl_mutex l \<noteq> 0
         then (UACPI_STATUS_OK, l\<lparr>rl_mutex := 0\<rparr>, kernel_free_mutex A (rl_mutex l) s)
         else (UACPI_STATUS_OK, l, s))"

definition uacpi_recursive_lock_acquire ::
  "'s lock_api \<Rightarrow> uacpi_recursive_lock \<Rightarrow> 's \<Rightarrow> uacpi_status \<times> uacpi_recursive_lock \<times> 's" where
  "uacpi_recursive_lock_acquire A l s =
     (let this_id = kernel_thread_id A s in
      if rl_owner l = this_id then (UACPI_STATUS_OK, l\<lparr>rl_depth := rl_depth l + 1\<rparr>, s)
      else case uacpi_acquire_native_mutex A (rl_mutex l) s of (ret, s) \<Rightarrow>
        if ret \<noteq> UACPI_STATUS_OK then (ret, l, s)
        else (ret, l\<lparr>rl_owner := this_id, rl_depth := 1\<rparr>, s))"

definition uacpi_recursive_lock_release ::
  "'s lock_api \<Rightarrow> uacpi_recursive_lock \<Rightarrow> 's \<Rightarrow> uacpi_status \<times> uacpi_recursive_lock \<times> 's" where
  "uacpi_recursive_lock_release A l s =
     (let deeper = (rl_depth l > 1);
          l = l\<lparr>rl_depth := rl_depth l - 1\<rparr>
      in if deeper then (UACPI_STATUS_OK, l, s)
         else
           let l = l\<lparr>rl_owner := UACPI_THREAD_ID_NONE\<rparr>;
               (ret, s) = uacpi_release_native_mutex A (rl_mutex l) s
           in (ret, l, s))"

section \<open>Nesting\<close>

text \<open>
  What a lock that nests promises to its holder: the first acquisition takes something from
  the host, further ones only count, and the last release gives it back.
\<close>

locale nested_lock =
  fixes acquire release :: "'l \<Rightarrow> 'l"
    and is_free is_held :: "'l \<Rightarrow> bool"
    and depth :: "'l \<Rightarrow> nat"
    and host :: "'l \<Rightarrow> 's"
    and take_host give_host :: "'s \<Rightarrow> 's"
    and limit :: nat
  assumes acquire_first: "is_free l \<Longrightarrow> is_held (acquire l) \<and> depth (acquire l) = 1 \<and> host (acquire l) = take_host (host l)"
    and acquire_more: "is_held l \<Longrightarrow> depth l < limit \<Longrightarrow>
      is_held (acquire l) \<and> depth (acquire l) = depth l + 1 \<and> host (acquire l) = host l"
    and release_more: "is_held l \<Longrightarrow> 1 < depth l \<Longrightarrow>
      is_held (release l) \<and> depth (release l) = depth l - 1 \<and> host (release l) = host l"
    and release_last: "is_held l \<Longrightarrow> depth l = 1 \<Longrightarrow>
      is_free (release l) \<and> host (release l) = give_host (host l)"
begin

lemma acquire_times:
  assumes "is_free l"
  shows "n < limit \<Longrightarrow> is_held ((acquire ^^ Suc n) l) \<and> depth ((acquire ^^ Suc n) l) = Suc n
    \<and> host ((acquire ^^ Suc n) l) = take_host (host l)"
proof (induction n)
  case 0
  with acquire_first [OF assms] show ?case by simp
next
  case (Suc n)
  then show ?case using acquire_more [of "(acquire ^^ Suc n) l"] by simp
qed

lemma release_times:
  "is_held l \<Longrightarrow> depth l = Suc n \<Longrightarrow>
   is_free ((release ^^ Suc n) l) \<and> host ((release ^^ Suc n) l) = give_host (host l)"
proof (induction n arbitrary: l)
  case 0
  with release_last show ?case by simp
next
  case (Suc n)
  have "is_held (release l)" "depth (release l) = Suc n" "host (release l) = host l"
    using release_more [of l] Suc.prems by simp_all
  from Suc.IH [OF this(1,2)] this(3) show ?case by (simp add: funpow_swap1)
qed

lemma nests:
  assumes "is_free l" and "n < limit"
  shows "is_free ((release ^^ Suc n) ((acquire ^^ Suc n) l))
    \<and> host ((release ^^ Suc n) ((acquire ^^ Suc n) l)) = give_host (take_host (host l))"
  using acquire_times [OF assms] release_times [of "(acquire ^^ Suc n) l" n] by metis

end

text \<open>A host that grants every acquisition to the thread \<open>me\<close>.\<close>

definition grants :: "'s lock_api \<Rightarrow> u64 \<Rightarrow> bool" where
  "grants A me \<longleftrightarrow> me \<noteq> UACPI_THREAD_ID_NONE
     \<and> (\<forall>s. kernel_thread_id A s = me) \<and> (\<forall>m t s. fst (kernel_acquire_mutex A m t s) = UACPI_STATUS_OK)"

lemma grantsD:
  assumes "grants A me"
  shows "me \<noteq> UACPI_THREAD_ID_NONE" "kernel_thread_id A s = me"
    "kernel_acquire_mutex A m t s = (UACPI_STATUS_OK, snd (kernel_acquire_mutex A m t s))"
  using assms by (auto simp: grants_def prod_eq_iff)

lemma grants_status: "grants A me \<Longrightarrow> kernel_acquire_mutex A m t s = (r, s') \<Longrightarrow> r = UACPI_STATUS_OK"
  using grantsD(3) [of A me m t s] by simp

definition rl_acquire :: "'s lock_api \<Rightarrow> uacpi_recursive_lock \<times> 's \<Rightarrow> uacpi_recursive_lock \<times> 's" where
  "rl_acquire A = (\<lambda>(l, s). snd (uacpi_recursive_lock_acquire A l s))"

definition rl_release :: "'s lock_api \<Rightarrow> uacpi_recursive_lock \<times> 's \<Rightarrow> uacpi_recursive_lock \<times> 's" where
  "rl_release A = (\<lambda>(l, s). snd (uacpi_recursive_lock_release A l s))"

lemma unat_succ_u64: "unat (d :: u64) < 2 ^ 64 - 1 \<Longrightarrow> unat (d + 1) = unat d + 1"
  using unat_add_no_wrap [of d 1] by simp

lemma unat_pred_word: "Suc 0 < unat (d :: 'a::len word) \<Longrightarrow> unat (d - 1) = unat d - Suc 0"
  by (cases "d = 0") (simp_all add: unat_minus_one)

interpretation recursive_lock: nested_lock "rl_acquire A" "rl_release A"
    "\<lambda>(l, s). grants A me \<and> rl_mutex l = h \<and> h \<noteq> 0 \<and> rl_owner l \<noteq> me"
    "\<lambda>(l, s). grants A me \<and> rl_mutex l = h \<and> h \<noteq> 0 \<and> rl_owner l = me"
    "\<lambda>(l, s). unat (rl_depth l)" snd
    "\<lambda>s. snd (kernel_acquire_mutex A h 0xFFFF s)" "kernel_release_mutex A h" "2 ^ 64 - 1"
  for A :: "'s lock_api" and me h :: u64
proof (unfold_locales, goal_cases)
  case (1 l)
  then show ?case
    using grantsD(2) [of A me] by (auto simp: rl_acquire_def uacpi_recursive_lock_acquire_def
        uacpi_acquire_native_mutex_def Let_def dest: grants_status split: prod.splits)
next
  case (2 l)
  then show ?case
    using grantsD [of A me] by (auto simp: rl_acquire_def uacpi_recursive_lock_acquire_def unat_succ_u64)
next
  case (3 l)
  then show ?case
    by (auto simp: rl_release_def uacpi_recursive_lock_release_def word_less_nat_alt intro!: unat_pred_word)
next
  case (4 l)
  then have "\<not> 1 < rl_depth (fst l)" by (auto simp: word_less_nat_alt split: prod.splits)
  with 4 grantsD(1) [of A me] show ?case
    by (auto simp: rl_release_def uacpi_recursive_lock_release_def uacpi_release_native_mutex_def Let_def)
qed

text \<open>The AML mutex, with the namespace lock given up while the thread may block.\<close>

type_synonym 's aml_state = "aml_mutex \<times> global_lock \<times> 's"

definition aml_acquire ::
  "'s lock_api \<Rightarrow> (nat \<Rightarrow> u32 list) \<Rightarrow> uacpi_rw_lock \<Rightarrow> u16 \<Rightarrow> 's aml_state \<Rightarrow> 's aml_state" where
  "aml_acquire A fw namespace timeout = (\<lambda>(m, g, s). snd (uacpi_acquire_aml_mutex A fw namespace timeout m g s))"

definition aml_release :: "'s lock_api \<Rightarrow> u32 list \<Rightarrow> 's aml_state \<Rightarrow> 's aml_state" where
  "aml_release A fw = (\<lambda>(m, g, s). snd (uacpi_release_aml_mutex A fw m g s))"

definition aml_take :: "'s lock_api \<Rightarrow> uacpi_rw_lock \<Rightarrow> u64 \<Rightarrow> u16 \<Rightarrow> 's \<Rightarrow> 's" where
  "aml_take A namespace h timeout s =
     snd (uacpi_namespace_write_lock A namespace
       (snd (kernel_acquire_mutex A h timeout (snd (uacpi_namespace_write_unlock A namespace s)))))"

lemma unat_succ_u16: "unat (d :: u16) < 0xFFFF \<Longrightarrow> unat (d + 1) = unat d + 1"
  using unat_plus_simple [of d 1] by (simp add: no_olen_add_nat unat_word_ariths)

interpretation aml_mutex: nested_lock "aml_acquire A fw namespace timeout" "aml_release A fw'"
    "\<lambda>(m, g, s). grants A me \<and> mutex_handle m = h \<and> h \<noteq> 0 \<and> h \<noteq> global_lock_handle g \<and> mutex_owner m \<noteq> me"
    "\<lambda>(m, g, s). grants A me \<and> mutex_handle m = h \<and> h \<noteq> 0 \<and> h \<noteq> global_lock_handle g \<and> mutex_owner m = me"
    "\<lambda>(m, g, s). unat (mutex_depth m)" "\<lambda>(m, g, s). s"
    "aml_take A namespace h timeout" "kernel_release_mutex A h" "0xFFFF"
  for A :: "'s lock_api" and fw fw' namespace timeout me h
proof (unfold_locales, goal_cases)
  case (1 l)
  then show ?case
    using grantsD(2) [of A me] by (auto simp: aml_acquire_def aml_take_def uacpi_acquire_aml_mutex_def
        uacpi_acquire_native_mutex_with_timeout_def Let_def dest: grants_status split: prod.splits)
next
  case (2 l)
  then have "\<forall>m g s. l = (m, g, s) \<longrightarrow> mutex_depth m \<noteq> 0xFFFF" by auto
  with 2 show ?case
    using grantsD(2) [of A me] by (auto simp: aml_acquire_def uacpi_acquire_aml_mutex_def unat_succ_u16)
next
  case (3 l)
  then show ?case
    by (auto simp: aml_release_def uacpi_release_aml_mutex_def word_less_nat_alt intro!: unat_pred_word)
next
  case (4 l)
  then have "\<not> 1 < mutex_depth (fst l)" by (auto simp: word_less_nat_alt split: prod.splits)
  with 4 grantsD(1) [of A me] show ?case
    by (auto simp: aml_release_def uacpi_release_aml_mutex_def uacpi_release_native_mutex_def Let_def)
qed

section \<open>Lemmas on the lock word\<close>

lemma cmpxchg_loop_seen:
  "\<exists>w \<in> set (lock # fw). cmpxchg_loop f fw lock v = (w, f w)"
proof (induction f fw lock v rule: cmpxchg_loop.induct)
  case (1 f fw lock v)
  show ?case
  proof (cases fw)
    case Nil
    then show ?thesis using 1 by (subst (1) cmpxchg_loop.simps) auto
  next
    case (Cons w ws)
    show ?thesis
    proof (cases "w = v")
      case True
      with Cons show ?thesis by (subst (1) cmpxchg_loop.simps) simp
    next
      case False
      with 1 Cons have "\<exists>x \<in> set (w # ws). cmpxchg_loop f ws w w = (x, f x)" by simp
      with Cons False show ?thesis by (subst (1) cmpxchg_loop.simps) auto
    qed
  qed
qed

lemma bit_3: "bit (3 :: u32) n \<longleftrightarrow> n < 2"
proof -
  have "(3 :: u32) = mask 2" by (simp add: mask_eq_exp_minus_1)
  then show ?thesis by (simp only: bit_mask_iff possible_bit_word) auto
qed

lemma lock_was_owned_bit: "lock_was_owned v \<longleftrightarrow> bit v 1"
proof -
  have "lock_was_owned v = (drop_bit 1 (v AND push_bit 1 1) \<noteq> 0)"
    by (simp only: lock_was_owned_def GLOBAL_LOCK_OWNED_BIT_def GLOBAL_LOCK_OWNED_def)
  also have "drop_bit 1 (v AND push_bit 1 1) = of_bool (bit v 1)"
    by (rule bit_word_eqI) (auto simp: bit_drop_bit_eq bit_and_iff bit_push_bit_iff bit_1_iff bit_of_bool_iff)
  finally show ?thesis by simp
qed

lemma try_acquire_seen:
  "\<exists>w \<in> set (lock # fw). \<exists>lock'. try_acquire_global_lock_from_firmware fw lock = (\<not> bit w 1, lock')
     \<and> bit lock' 1 \<and> bit lock' 0 = bit w 1 \<and> (\<forall>n \<ge> 2. bit lock' n = bit w n)"
proof -
  let ?f = "\<lambda>v. let n = v AND NOT GLOBAL_LOCK_MASK;
                 n = n OR GLOBAL_LOCK_OWNED
             in if lock_was_owned v then n OR GLOBAL_LOCK_PENDING else n"
  from cmpxchg_loop_seen [of lock fw ?f lock] obtain w where
    w: "w \<in> set (lock # fw)" "cmpxchg_loop ?f fw lock lock = (w, ?f w)" by blast
  have b: "bit (?f w) n = (n < 32 \<and> (if n = 0 then bit w 1 else if n = 1 then True else bit w n))" for n
    unfolding GLOBAL_LOCK_MASK_def GLOBAL_LOCK_OWNED_def GLOBAL_LOCK_OWNED_BIT_def GLOBAL_LOCK_PENDING_def Let_def
    by (auto simp only: lock_was_owned_bit bit_or_iff bit_and_iff bit_not_iff bit_3 bit_push_bit_iff bit_1_iff
        possible_bit_word split: if_splits) (auto dest: bit_imp_le_length)
  have "try_acquire_global_lock_from_firmware fw lock = (\<not> bit w 1, ?f w)"
    unfolding try_acquire_global_lock_from_firmware_def w(2) by (simp add: lock_was_owned_bit)
  moreover have "bit (?f w) 1 \<and> bit (?f w) 0 = bit w 1 \<and> (\<forall>n \<ge> 2. bit (?f w) n = bit w n)"
    unfolding b by (auto dest: bit_imp_le_length)
  ultimately show ?thesis using w(1) by blast
qed

lemma do_release_seen:
  "\<exists>w \<in> set (lock # fw). \<exists>lock'. do_release_global_lock_to_firmware fw lock = (bit w 0, lock')
     \<and> \<not> bit lock' 0 \<and> \<not> bit lock' 1 \<and> (\<forall>n \<ge> 2. bit lock' n = bit w n)"
proof -
  let ?f = "\<lambda>v. v AND NOT GLOBAL_LOCK_MASK"
  from cmpxchg_loop_seen [of lock fw ?f lock] obtain w where
    w: "w \<in> set (lock # fw)" "cmpxchg_loop ?f fw lock lock = (w, ?f w)" by blast
  have b: "bit (?f w) n = (2 \<le> n \<and> bit w n)" for n
    unfolding GLOBAL_LOCK_MASK_def
    by (auto simp only: bit_and_iff bit_not_iff bit_3 possible_bit_word) (auto dest: bit_imp_le_length)
  have "(w AND GLOBAL_LOCK_PENDING \<noteq> 0) = bit w 0"
    by (simp add: GLOBAL_LOCK_PENDING_def and_one_eq odd_iff_mod_2_eq_one bit_0)
  then have "do_release_global_lock_to_firmware fw lock = (bit w 0, ?f w)"
    unfolding do_release_global_lock_to_firmware_def w(2) by simp
  then show ?thesis using w(1) b by auto
qed

lemma spin_result:
  assumes "global_lock_spin fw spins g = (ok, g')"
  shows "bit (facs_global_lock g') 1 \<and> bit (facs_global_lock g') 0 = (\<not> ok)
    \<and> g' = g\<lparr>facs_global_lock := facs_global_lock g', global_lock_pending := global_lock_pending g'\<rparr>"
  using assms
proof (induction fw spins g rule: global_lock_spin.induct)
  case (1 fw spins g)
  let ?lock = "case fw (spins + 1) of [] \<Rightarrow> facs_global_lock g | w # _ \<Rightarrow> w"
  obtain success lock where t: "try_acquire_global_lock_from_firmware (tl (fw (spins + 1))) ?lock = (success, lock)"
    by fastforce
  from try_acquire_seen [of ?lock "tl (fw (spins + 1))"] t
  have l: "bit lock 1" "bit lock 0 = (\<not> success)" by auto
  show ?case
  proof (cases "success \<or> 0xFFFF \<le> spins + 1")
    case True
    with 1(2) t l show ?thesis by (subst (asm) global_lock_spin.simps) (auto simp: Let_def split: if_splits)
  next
    case False
    with 1(2) t have "global_lock_spin fw (spins + 1) (g\<lparr>facs_global_lock := lock, global_lock_pending := True\<rparr>) = (ok, g')"
      by (subst (asm) global_lock_spin.simps) (auto simp: Let_def)
    from 1(1) [OF refl refl t [symmetric] refl refl _ _ ] False this show ?thesis
      by (cases g, cases g') auto
  qed
qed

lemma spin_obtains:
  assumes "spins < n" and "n \<le> 0xFFFF" and "fw n \<noteq> []" and "\<forall>w \<in> set (fw n). \<not> bit w 1"
  shows "fst (global_lock_spin fw spins g)"
  using assms(1)
proof (induction "n - spins" arbitrary: spins g)
  case (Suc k)
  let ?lock = "case fw (spins + 1) of [] \<Rightarrow> facs_global_lock g | w # _ \<Rightarrow> w"
  obtain success lock where t: "try_acquire_global_lock_from_firmware (tl (fw (spins + 1))) ?lock = (success, lock)"
    by fastforce
  show ?case
  proof (cases "spins + 1 = n")
    case True
    then have "set (?lock # tl (fw (spins + 1))) = set (fw n)" using assms(3) by (cases "fw n") auto
    with try_acquire_seen [of ?lock "tl (fw (spins + 1))"] t assms(4) have success by auto
    with t show ?thesis by (subst global_lock_spin.simps) (simp add: Let_def)
  next
    case False
    with Suc(2,3) have "k = n - (spins + 1)" "spins + 1 < n" by auto
    from Suc(1) [OF this] show ?thesis
      using t assms(2) \<open>spins + 1 < n\<close> by (subst global_lock_spin.simps) (simp add: Let_def)
  qed
qed simp

lemma firmware_lock_result:
  assumes "has_global_lock g" and "uacpi_acquire_global_lock_from_firmware fw g = (st, g')"
  shows "(st = UACPI_STATUS_OK \<or> st = UACPI_STATUS_HARDWARE_TIMEOUT)
    \<and> bit (facs_global_lock g') 1 \<and> bit (facs_global_lock g') 0 = (st = UACPI_STATUS_HARDWARE_TIMEOUT)
    \<and> g' = g\<lparr>facs_global_lock := facs_global_lock g', global_lock_pending := False\<rparr>"
proof -
  obtain ok g1 where "global_lock_spin fw 0 g = (ok, g1)" by fastforce
  with spin_result [OF this] assms show ?thesis
    by (cases g, cases g1) (auto simp: uacpi_acquire_global_lock_from_firmware_def Let_def split: if_splits)
qed

text \<open>A free lock word, and a host that grants everything and records what it did.\<close>

definition example_lock :: global_lock where
  "example_lock = \<lparr>subsystem_initialized = True, global_lock_handle = 7, global_lock_seq_num = 4,
     global_lock_acquired = False, has_global_lock = True, global_lock_pending = False, facs_global_lock = 0\<rparr>"

definition example_locks :: "string list lock_api" where
  "example_locks = \<lparr>kernel_create_mutex = (\<lambda>s. (1, s)), kernel_free_mutex = (\<lambda>m s. s),
     kernel_acquire_mutex = (\<lambda>m t s. (UACPI_STATUS_OK, ''acquire'' # s)),
     kernel_release_mutex = (\<lambda>m s. ''release'' # s), kernel_thread_id = (\<lambda>s. 1),
     kernel_global_release = (\<lambda>s. ''signal'' # s)\<rparr>"

lemma example_lock_run:
  "fst (uacpi_acquire_global_lock_from_firmware (\<lambda>_. []) example_lock) = UACPI_STATUS_OK"
proof -
  obtain success lock where t: "try_acquire_global_lock_from_firmware [] 0 = (success, lock)" by fastforce
  with try_acquire_seen [of 0 "[]"] have success by auto
  with t show ?thesis
    by (simp add: uacpi_acquire_global_lock_from_firmware_def example_lock_def global_lock_spin.simps Let_def case_prod_beta')
qed

section \<open>Properties\<close>



text \<open>C13: the lock is obtained once the firmware gives it up.  If throughout some attempt
  among the 65535 the owned bit is clear in every value the firmware gives the word, the
  acquisition succeeds.\<close>

theorem firmware_lock_obtained:
  assumes "has_global_lock g" and "1 \<le> n" and "n \<le> 0xFFFF" and "fw n \<noteq> []" and "\<forall>w \<in> set (fw n). \<not> bit w 1"
  shows "fst (uacpi_acquire_global_lock_from_firmware fw g) = UACPI_STATUS_OK"
  using spin_obtains [of 0 n fw g] assms
  by (simp add: uacpi_acquire_global_lock_from_firmware_def Let_def case_prod_beta')

theorem firmware_lock_obtained_witness:
  "fst (uacpi_acquire_global_lock_from_firmware (\<lambda>n. if n = 3 then [0] else [2])
     (example_lock\<lparr>facs_global_lock := 2\<rparr>)) = UACPI_STATUS_OK"
  using firmware_lock_obtained [of "example_lock\<lparr>facs_global_lock := 2\<rparr>" 3 "\<lambda>n. if n = 3 then [0] else [2]"]
  by (simp add: example_lock_def)

text \<open>C26: a sequence number is never the right one.  \<open>uacpi_acquire_global_lock\<close> hands out
  the number before it counts on, \<open>uacpi_release_global_lock\<close> compares with the number after:
  releasing with the number just received is refused and changes nothing, releasing with its
  successor is accepted.\<close>

theorem global_lock_seq_rejected:
  assumes "uacpi_acquire_global_lock A fw timeout True g s = ((UACPI_STATUS_OK, Some seq), g', s')"
  shows "uacpi_release_global_lock A fw' seq g' s' = (UACPI_STATUS_INVALID_ARGUMENT, g', s')
    \<and> fst (uacpi_release_global_lock A fw' (seq + 1) g' s') = UACPI_STATUS_OK"
proof -
  obtain ret s1 where n: "uacpi_acquire_native_mutex_with_timeout A (global_lock_handle g) timeout s = (ret, s1)" by fastforce
  obtain st g1 where f: "uacpi_acquire_global_lock_from_firmware fw g = (st, g1)" by fastforce
  have "subsystem_initialized g1 = subsystem_initialized g"
  proof (cases "has_global_lock g")
    case True
    from firmware_lock_result [OF True f] obtain w where "g1 = g\<lparr>facs_global_lock := w, global_lock_pending := False\<rparr>" by blast
    then show ?thesis by simp
  qed (use f in \<open>simp add: uacpi_acquire_global_lock_from_firmware_def\<close>)
  with assms n f show ?thesis
    by (auto simp: uacpi_acquire_global_lock_def uacpi_release_global_lock_def Let_def
        split: if_splits prod.splits)
qed

theorem global_lock_seq_rejected_witness:
  "\<exists>g' s'. uacpi_acquire_global_lock example_locks (\<lambda>_. []) 0xFFFF True example_lock []
      = ((UACPI_STATUS_OK, Some 4), g', s')
    \<and> fst (uacpi_release_global_lock example_locks [] 4 g' s') = UACPI_STATUS_INVALID_ARGUMENT
    \<and> fst (uacpi_release_global_lock example_locks [] 5 g' s') = UACPI_STATUS_OK"
proof -
  obtain g1 where f: "uacpi_acquire_global_lock_from_firmware (\<lambda>_. []) example_lock = (UACPI_STATUS_OK, g1)"
    using example_lock_run by (metis prod.collapse)
  have "has_global_lock example_lock" by (simp add: example_lock_def)
  from firmware_lock_result [OF this f] obtain w where
    "g1 = example_lock\<lparr>facs_global_lock := w, global_lock_pending := False\<rparr>" by blast
  then have "global_lock_seq_num g1 = 4" by (simp add: example_lock_def)
  moreover have "uacpi_acquire_native_mutex_with_timeout example_locks (global_lock_handle example_lock) 0xFFFF []
      = (UACPI_STATUS_OK, [''acquire''])"
    by (simp add: uacpi_acquire_native_mutex_with_timeout_def example_locks_def example_lock_def)
  moreover have "subsystem_initialized example_lock" by (simp add: example_lock_def)
  ultimately obtain g' s' where r: "uacpi_acquire_global_lock example_locks (\<lambda>_. []) 0xFFFF True example_lock []
      = ((UACPI_STATUS_OK, Some 4), g', s')"
    using f by (simp add: uacpi_acquire_global_lock_def Let_def)
  from global_lock_seq_rejected [OF r, of "[]"] r show ?thesis by auto
qed

text \<open>C27: locks nest.  A thread that the host grants its acquisitions can take a recursive lock
  it does not hold \<open>k\<close> times and release it \<open>k\<close> times, for every \<open>k\<close> from 1 to \<open>2 ^ 64 - 1\<close>,
  and likewise an AML mutex up to 65535 times: the native mutex is taken once, by the first
  acquisition, and given back once, by the last release, after which the thread is not the
  owner.  One more acquisition of an AML mutex at depth 65535 is denied and changes nothing.\<close>

theorem locks_nest:
  assumes "grants A me" and "n < 0xFFFF" and "k < 2 ^ 64 - 1"
    and "rl_mutex l \<noteq> 0" and "rl_owner l \<noteq> me"
    and "mutex_handle m \<noteq> 0" and "mutex_handle m \<noteq> global_lock_handle g" and "mutex_owner m \<noteq> me"
  shows "(case (rl_release A ^^ Suc k) ((rl_acquire A ^^ Suc k) (l, s)) of (l', s') \<Rightarrow>
            rl_owner l' \<noteq> me
          \<and> s' = kernel_release_mutex A (rl_mutex l) (snd (kernel_acquire_mutex A (rl_mutex l) 0xFFFF s)))
    \<and> (case (aml_release A fw' ^^ Suc n) ((aml_acquire A fw namespace timeout ^^ Suc n) (m, g, s)) of (m', g', s') \<Rightarrow>
            mutex_owner m' \<noteq> me
          \<and> s' = kernel_release_mutex A (mutex_handle m) (aml_take A namespace (mutex_handle m) timeout s))
    \<and> uacpi_acquire_aml_mutex A fw namespace timeout (m\<lparr>mutex_owner := me, mutex_depth := 0xFFFF\<rparr>) g s
        = (UACPI_STATUS_DENIED, m\<lparr>mutex_owner := me, mutex_depth := 0xFFFF\<rparr>, g, s)"
proof (intro conjI)
  show "case (rl_release A ^^ Suc k) ((rl_acquire A ^^ Suc k) (l, s)) of (l', s') \<Rightarrow>
            rl_owner l' \<noteq> me
          \<and> s' = kernel_release_mutex A (rl_mutex l) (snd (kernel_acquire_mutex A (rl_mutex l) 0xFFFF s))"
    using recursive_lock.nests [where A = A and me = me and h = "rl_mutex l" and n = k and l = "(l, s)"] assms
    by (auto split: prod.splits)
  show "case (aml_release A fw' ^^ Suc n) ((aml_acquire A fw namespace timeout ^^ Suc n) (m, g, s)) of (m', g', s') \<Rightarrow>
            mutex_owner m' \<noteq> me
          \<and> s' = kernel_release_mutex A (mutex_handle m) (aml_take A namespace (mutex_handle m) timeout s)"
    using aml_mutex.nests [where A = A and me = me and h = "mutex_handle m" and n = n and l = "(m, g, s)"
        and fw = fw and fw' = fw' and namespace = namespace and timeout = timeout] assms
    by (auto split: prod.splits)
  show "uacpi_acquire_aml_mutex A fw namespace timeout (m\<lparr>mutex_owner := me, mutex_depth := 0xFFFF\<rparr>) g s
        = (UACPI_STATUS_DENIED, m\<lparr>mutex_owner := me, mutex_depth := 0xFFFF\<rparr>, g, s)"
    using grantsD(2) [OF assms(1)] by (simp add: uacpi_acquire_aml_mutex_def Let_def)
qed

theorem locks_nest_witness:
  "snd ((rl_release example_locks ^^ 2) ((rl_acquire example_locks ^^ 2) (\<lparr>rl_mutex = 5, rl_depth = 0, rl_owner = - 1\<rparr>, [])))
   = [''release'', ''acquire'']"
proof -
  have "grants example_locks 1" by (simp add: grants_def example_locks_def UACPI_THREAD_ID_NONE_def)
  from locks_nest [OF this, where n = 1 and k = 1 and s = "[]" and l = "\<lparr>rl_mutex = 5, rl_depth = 0, rl_owner = - 1\<rparr>"
      and m = "\<lparr>mutex_handle = 6, mutex_owner = - 1, mutex_depth = 0\<rparr>" and g = example_lock]
  have "case (rl_release example_locks ^^ Suc 1) ((rl_acquire example_locks ^^ Suc 1)
      (\<lparr>rl_mutex = 5, rl_depth = 0, rl_owner = - 1\<rparr>, [])) of (l', s') \<Rightarrow> s' = [''release'', ''acquire'']"
    by (simp add: example_locks_def example_lock_def case_prod_beta' del: funpow.simps)
  then show ?thesis by (simp add: case_prod_beta' numeral_2_eq_2 del: funpow.simps)
qed

end
