(* ===== verification/Rw_Lock.thy ===== *)
theory Rw_Lock
  imports Mutex
begin

text \<open>
  The reader-writer lock of \<^verbatim>\<open>src/kern/acpi/mutex.c\<close> under concurrency.  The functions
  \<open>uacpi_rw_lock_read\<close>, \<open>uacpi_rw_unlock_read\<close>, \<open>uacpi_rw_lock_write\<close> and
  \<open>uacpi_rw_unlock_write\<close> are cut into their atomic steps, which any number of threads execute
  in any order.  A step that acquires a native mutex is possible when that mutex is free; the
  host may also fail the acquisition of the write mutex by the first reader.  A thread unlocks
  only what it has locked.
\<close>

section \<open>Threads and their steps\<close>

text \<open>
  Where a thread is: outside; in \<open>uacpi_rw_lock_read\<close> with the read mutex, before the count,
  before taking the write mutex, before releasing the read mutex with success or failure;
  reading; in \<open>uacpi_rw_unlock_read\<close> with the read mutex, before the count, before giving the
  write mutex back, before releasing the read mutex; writing.
\<close>

datatype rw_pc = Idle | Lock_Count | Lock_Write | Lock_Done | Lock_Failed
  | Reading | Unlock_Count | Unlock_Write | Unlock_Done | Writing

record rw_state =
  rw_pcs :: "nat \<Rightarrow> rw_pc"
  rw_readers :: u64
  read_held :: bool
  write_held :: bool

definition at :: "nat \<Rightarrow> rw_pc \<Rightarrow> rw_state \<Rightarrow> rw_state" where
  "at t p s = s\<lparr>rw_pcs := (rw_pcs s)(t := p)\<rparr>"

inductive rw_step :: "nat \<Rightarrow> rw_state \<Rightarrow> rw_state \<Rightarrow> bool" for n where
  lock_read: "rw_step n s ((at t Lock_Count s)\<lparr>read_held := True\<rparr>)"
    if "t < n" and "rw_pcs s t = Idle" and "\<not> read_held s"
| count_first: "rw_step n s ((at t Lock_Write s)\<lparr>rw_readers := rw_readers s + 1\<rparr>)"
    if "t < n" and "rw_pcs s t = Lock_Count" and "rw_readers s = 0"
| count_more: "rw_step n s ((at t Lock_Done s)\<lparr>rw_readers := rw_readers s + 1\<rparr>)"
    if "t < n" and "rw_pcs s t = Lock_Count" and "rw_readers s \<noteq> 0"
| take_write: "rw_step n s ((at t Lock_Done s)\<lparr>write_held := True\<rparr>)"
    if "t < n" and "rw_pcs s t = Lock_Write" and "\<not> write_held s"
| write_failed: "rw_step n s ((at t Lock_Failed s)\<lparr>rw_readers := 0\<rparr>)"
    if "t < n" and "rw_pcs s t = Lock_Write"
| lock_read_done: "rw_step n s ((at t Reading s)\<lparr>read_held := False\<rparr>)"
    if "t < n" and "rw_pcs s t = Lock_Done"
| lock_read_failed: "rw_step n s ((at t Idle s)\<lparr>read_held := False\<rparr>)"
    if "t < n" and "rw_pcs s t = Lock_Failed"
| unlock_read: "rw_step n s ((at t Unlock_Count s)\<lparr>read_held := True\<rparr>)"
    if "t < n" and "rw_pcs s t = Reading" and "\<not> read_held s"
| count_last: "rw_step n s ((at t Unlock_Write s)\<lparr>rw_readers := rw_readers s - 1\<rparr>)"
    if "t < n" and "rw_pcs s t = Unlock_Count" and "rw_readers s = 1"
| count_fewer: "rw_step n s ((at t Unlock_Done s)\<lparr>rw_readers := rw_readers s - 1\<rparr>)"
    if "t < n" and "rw_pcs s t = Unlock_Count" and "rw_readers s \<noteq> 1"
| give_write: "rw_step n s ((at t Unlock_Done s)\<lparr>write_held := False\<rparr>)"
    if "t < n" and "rw_pcs s t = Unlock_Write"
| unlock_read_done: "rw_step n s ((at t Idle s)\<lparr>read_held := False\<rparr>)"
    if "t < n" and "rw_pcs s t = Unlock_Done"
| lock_write: "rw_step n s ((at t Writing s)\<lparr>write_held := True\<rparr>)"
    if "t < n" and "rw_pcs s t = Idle" and "\<not> write_held s"
| unlock_write: "rw_step n s ((at t Idle s)\<lparr>write_held := False\<rparr>)"
    if "t < n" and "rw_pcs s t = Writing"

text \<open>The state after \<open>uacpi_rw_lock_init\<close>, and the states threads can lead to from there.\<close>

definition rw_init :: rw_state where
  "rw_init = \<lparr>rw_pcs = (\<lambda>_. Idle), rw_readers = 0, read_held = False, write_held = False\<rparr>"

inductive rw_reachable :: "nat \<Rightarrow> rw_state \<Rightarrow> bool" for n where
  start: "rw_reachable n rw_init"
| step: "rw_reachable n s \<Longrightarrow> rw_step n s s' \<Longrightarrow> rw_reachable n s'"

inductive_cases rw_stepE: "rw_step n s s'"

section \<open>Invariant\<close>

definition has_read_mutex :: "rw_pc \<Rightarrow> bool" where
  "has_read_mutex p \<longleftrightarrow>
     p \<in> {Lock_Count, Lock_Write, Lock_Done, Lock_Failed, Unlock_Count, Unlock_Write, Unlock_Done}"

definition counted :: "rw_pc \<Rightarrow> bool" where
  "counted p \<longleftrightarrow> p \<in> {Lock_Write, Lock_Done, Reading, Unlock_Count}"

definition shares_write_mutex :: "rw_pc \<Rightarrow> bool" where
  "shares_write_mutex p \<longleftrightarrow> p \<in> {Lock_Done, Reading, Unlock_Count, Unlock_Write}"

definition excludes :: "(rw_pc \<Rightarrow> bool) \<Rightarrow> (rw_pc \<Rightarrow> bool) \<Rightarrow> (nat \<Rightarrow> rw_pc) \<Rightarrow> bool" where
  "excludes P Q f \<longleftrightarrow> (\<forall>t u. P (f t) \<longrightarrow> Q (f u) \<longrightarrow> t = u)"

definition owns_write_mutex :: "rw_pc \<Rightarrow> bool" where
  "owns_write_mutex p \<longleftrightarrow> p = Writing \<or> shares_write_mutex p"

definition switching :: "rw_pc \<Rightarrow> bool" where
  "switching p \<longleftrightarrow> p \<in> {Lock_Write, Unlock_Write}"

definition rw_inv :: "nat \<Rightarrow> rw_state \<Rightarrow> bool" where
  "rw_inv n s \<longleftrightarrow>
     (\<forall>t. n \<le> t \<longrightarrow> rw_pcs s t = Idle)
   \<and> excludes has_read_mutex has_read_mutex (rw_pcs s)
   \<and> (read_held s \<longleftrightarrow> (\<exists>t. has_read_mutex (rw_pcs s t)))
   \<and> unat (rw_readers s) = card {t. counted (rw_pcs s t)}
   \<and> (write_held s \<longleftrightarrow> (\<exists>t. owns_write_mutex (rw_pcs s t)))
   \<and> excludes (\<lambda>p. p = Writing) owns_write_mutex (rw_pcs s)
   \<and> excludes switching counted (rw_pcs s)"

lemmas pc_classes = has_read_mutex_def counted_def shares_write_mutex_def owns_write_mutex_def switching_def

text \<open>How a step of one thread changes the number of counted threads.\<close>

lemma counted_below: "\<forall>t. (n::nat) \<le> t \<longrightarrow> f t = Idle \<Longrightarrow> {t. counted (f t)} \<subseteq> {..<n}"
proof
  fix t assume "\<forall>t. n \<le> t \<longrightarrow> f t = Idle" "t \<in> {t. counted (f t)}"
  then have "f t \<noteq> Idle" by (auto simp: counted_def)
  with \<open>\<forall>t. n \<le> t \<longrightarrow> f t = Idle\<close> show "t \<in> {..<n}" by (meson lessThan_iff not_le)
qed

lemma counted_finite: "\<forall>t. (n::nat) \<le> t \<longrightarrow> f t = Idle \<Longrightarrow> finite {t. counted (f t)}"
  using counted_below [of n f] finite_subset by blast

lemma counted_card_le: "\<forall>t. (n::nat) \<le> t \<longrightarrow> f t = Idle \<Longrightarrow> card {t. counted (f t)} \<le> n"
  using card_mono [OF finite_lessThan counted_below, of n f] by simp

lemma counted_enter:
  assumes "finite {t. counted (f t)}" and "\<not> counted (f t)" and "counted p"
  shows "card {u. counted ((f(t := p)) u)} = Suc (card {t. counted (f t)})"
proof -
  have "{u. counted ((f(t := p)) u)} = insert t {t. counted (f t)}" using assms(3) by auto
  then show ?thesis using assms(1,2) by simp
qed

lemma counted_leave:
  assumes "counted (f t)" and "\<not> counted p"
  shows "card {u. counted ((f(t := p)) u)} = card {t. counted (f t)} - 1"
proof -
  have "{u. counted ((f(t := p)) u)} = {t. counted (f t)} - {t}" using assms by auto
  then show ?thesis using assms by simp
qed

lemma counted_same:
  assumes "counted (f t) = counted p"
  shows "{u. counted ((f(t := p)) u)} = {t. counted (f t)}"
  using assms by auto

text \<open>How it changes which threads are where.\<close>

lemma excludes_update:
  assumes "excludes P Q f"
    and "P p \<Longrightarrow> P (f t) \<or> (\<forall>u. u \<noteq> t \<longrightarrow> \<not> Q (f u))"
    and "Q p \<Longrightarrow> Q (f t) \<or> (\<forall>u. u \<noteq> t \<longrightarrow> \<not> P (f u))"
  shows "excludes P Q (f(t := p))"
  using assms unfolding excludes_def by (metis fun_upd_apply)

lemma some_update: "(\<exists>u. P ((f(t := p)) u)) \<longleftrightarrow> P p \<or> (\<exists>u. u \<noteq> t \<and> P (f u))"
  by auto

lemma some_other: "\<not> P (f t) \<Longrightarrow> (\<exists>u. u \<noteq> t \<and> P (f u)) \<longleftrightarrow> (\<exists>u. P (f u))"
  by metis

lemma rw_inv_init: "rw_inv n rw_init"
  by (simp add: rw_inv_def excludes_def rw_init_def pc_classes)

lemma rw_inv_count:
  assumes "rw_inv n s" and "n < 2 ^ 64"
  shows "t < n \<Longrightarrow> \<not> counted (rw_pcs s t) \<Longrightarrow> counted p \<Longrightarrow>
      unat (rw_readers s + 1) = card {u. counted (((rw_pcs s)(t := p)) u)}"
    and "counted (rw_pcs s t) \<Longrightarrow> \<not> counted p \<Longrightarrow>
      unat (rw_readers s - 1) = card {u. counted (((rw_pcs s)(t := p)) u)}"
    and "rw_readers s = 0 \<Longrightarrow> \<not> counted (rw_pcs s u)"
    and "rw_readers s = 1 \<Longrightarrow> counted (rw_pcs s t) \<Longrightarrow> counted (rw_pcs s u) \<Longrightarrow> t = u"
    and "counted (rw_pcs s t) \<Longrightarrow> rw_readers s \<noteq> 1 \<Longrightarrow> \<exists>u. u \<noteq> t \<and> counted (rw_pcs s u)"
    and "rw_readers s \<noteq> 0 \<Longrightarrow> \<exists>u. counted (rw_pcs s u)"
proof -
  let ?C = "{t. counted (rw_pcs s t)}"
  have out: "\<forall>t. n \<le> t \<longrightarrow> rw_pcs s t = Idle" and card: "unat (rw_readers s) = card ?C"
    using assms(1) by (simp_all add: rw_inv_def)
  have fin: "finite ?C" by (rule counted_finite [OF out])
  show "unat (rw_readers s + 1) = card {u. counted (((rw_pcs s)(t := p)) u)}"
    if "t < n" "\<not> counted (rw_pcs s t)" "counted p"
  proof -
    have "\<forall>u. n \<le> u \<longrightarrow> ((rw_pcs s)(t := p)) u = Idle" using out that(1) by simp
    then have "card {u. counted (((rw_pcs s)(t := p)) u)} \<le> n" by (rule counted_card_le)
    moreover have "card {u. counted (((rw_pcs s)(t := p)) u)} = Suc (card ?C)" using counted_enter [of "rw_pcs s"] fin that by simp
    ultimately have "card ?C < 2 ^ 64 - 1" "card {u. counted (((rw_pcs s)(t := p)) u)} = Suc (card ?C)"
      using assms(2) by linarith+
    then show ?thesis using card unat_succ_u64 [of "rw_readers s"] by simp
  qed
  show "unat (rw_readers s - 1) = card {u. counted (((rw_pcs s)(t := p)) u)}"
    if "counted (rw_pcs s t)" "\<not> counted p"
  proof -
    have "0 < card ?C" using that(1) fin by (auto simp: card_gt_0_iff)
    then have "rw_readers s \<noteq> 0" using card by auto
    then show ?thesis using counted_leave [of "rw_pcs s" t p] that card by (simp add: unat_minus_one)
  qed
  show "\<not> counted (rw_pcs s u)" if "rw_readers s = 0"
    using that card fin by auto
  show "t = u" if "rw_readers s = 1" "counted (rw_pcs s t)" "counted (rw_pcs s u)"
  proof -
    have "card ?C = 1" using that(1) card by simp
    then obtain x where "?C = {x}" by (auto simp: card_1_singleton_iff)
    with that(2,3) show ?thesis by (metis mem_Collect_eq singletonD)
  qed
  show "\<exists>u. u \<noteq> t \<and> counted (rw_pcs s u)" if "counted (rw_pcs s t)" "rw_readers s \<noteq> 1"
  proof (rule ccontr)
    assume "\<not> (\<exists>u. u \<noteq> t \<and> counted (rw_pcs s u))"
    then have "?C = {t}" using that(1) by auto
    then have "unat (rw_readers s) = 1" using card by simp
    then show False using that(2) by (simp add: word_unat_eq_iff)
  qed
  show "\<exists>u. counted (rw_pcs s u)" if "rw_readers s \<noteq> 0"
  proof (rule ccontr)
    assume "\<nexists>u. counted (rw_pcs s u)"
    then have "unat (rw_readers s) = 0" using card by simp
    then show False using that by (simp add: word_unat_eq_iff)
  qed
qed

lemma rw_invD:
  assumes "rw_inv n s"
  shows "n \<le> t \<Longrightarrow> rw_pcs s t = Idle"
    and "has_read_mutex (rw_pcs s t) \<Longrightarrow> u \<noteq> t \<Longrightarrow> \<not> has_read_mutex (rw_pcs s u)"
    and "\<not> read_held s \<Longrightarrow> \<not> has_read_mutex (rw_pcs s u)"
    and "has_read_mutex (rw_pcs s t) \<Longrightarrow> read_held s"
    and "\<not> write_held s \<Longrightarrow> \<not> owns_write_mutex (rw_pcs s u)"
    and "owns_write_mutex (rw_pcs s t) \<Longrightarrow> write_held s"
    and "rw_pcs s t = Writing \<Longrightarrow> u \<noteq> t \<Longrightarrow> \<not> owns_write_mutex (rw_pcs s u)"
    and "switching (rw_pcs s t) \<Longrightarrow> u \<noteq> t \<Longrightarrow> \<not> counted (rw_pcs s u)"
  using assms by (auto simp: rw_inv_def excludes_def)

text \<open>
  A step moves one thread from its place \<open>q\<close> to \<open>p\<close>: what it has to establish, the rest
  following from the invariant before it.
\<close>

lemma rw_inv_at:
  assumes inv: "rw_inv n s" and "t < n" and q: "rw_pcs s t = q" and pcs: "rw_pcs s' = (rw_pcs s)(t := p)"
    and read: "read_held s' \<longleftrightarrow> has_read_mutex p \<or> \<not> has_read_mutex q \<and> read_held s"
    and excl: "has_read_mutex p \<Longrightarrow> has_read_mutex q \<or> \<not> read_held s"
    and count: "unat (rw_readers s') = card {u. counted (((rw_pcs s)(t := p)) u)}"
    and shared: "\<not> owns_write_mutex q \<or> owns_write_mutex p \<Longrightarrow> write_held s' \<longleftrightarrow> owns_write_mutex p \<or> write_held s"
    and alone: "owns_write_mutex q \<Longrightarrow> \<not> owns_write_mutex p \<Longrightarrow> write_held s' \<longleftrightarrow> (\<exists>u. u \<noteq> t \<and> owns_write_mutex (rw_pcs s u))"
    and writer: "p = Writing \<Longrightarrow> \<not> write_held s"
    and owner: "owns_write_mutex p \<Longrightarrow> \<not> owns_write_mutex q \<Longrightarrow> write_held s \<Longrightarrow> owns_write_mutex (rw_pcs s v) \<and> rw_pcs s v \<noteq> Writing"
    and switch: "switching p \<Longrightarrow> \<forall>u. u \<noteq> t \<longrightarrow> \<not> counted (rw_pcs s u)"
    and enter: "counted p \<Longrightarrow> counted q \<or> has_read_mutex q"
  shows "rw_inv n s'"
proof -
  note invD = rw_invD [OF inv]
  have "(\<exists>u. u \<noteq> t \<and> has_read_mutex (rw_pcs s u)) \<longleftrightarrow> \<not> has_read_mutex q \<and> read_held s"
  proof (cases "has_read_mutex q")
    case True
    then have "has_read_mutex (rw_pcs s t)" using q by simp
    from invD(2) [OF this] True show ?thesis by auto
  next
    case False then show ?thesis
      using inv q some_other [of has_read_mutex "rw_pcs s" t] by (simp add: rw_inv_def)
  qed
  moreover have "excludes has_read_mutex has_read_mutex ((rw_pcs s)(t := p))"
  proof (rule excludes_update)
    show "excludes has_read_mutex has_read_mutex (rw_pcs s)" using inv by (simp add: rw_inv_def)
    show "has_read_mutex (rw_pcs s t) \<or> (\<forall>u. u \<noteq> t \<longrightarrow> \<not> has_read_mutex (rw_pcs s u))"
      if "has_read_mutex p" using excl [OF that] invD(3) q by auto
    then show "has_read_mutex (rw_pcs s t) \<or> (\<forall>u. u \<noteq> t \<longrightarrow> \<not> has_read_mutex (rw_pcs s u))"
      if "has_read_mutex p" using that .
  qed
  moreover have "write_held s' \<longleftrightarrow> owns_write_mutex p \<or> (\<exists>u. u \<noteq> t \<and> owns_write_mutex (rw_pcs s u))"
  proof (cases "owns_write_mutex q")
    case True then show ?thesis using shared alone by blast
  next
    case False
    then have "(\<exists>u. u \<noteq> t \<and> owns_write_mutex (rw_pcs s u)) \<longleftrightarrow> write_held s"
      using inv q some_other [of owns_write_mutex "rw_pcs s" t] by (simp add: rw_inv_def)
    with False show ?thesis using shared by simp
  qed
  moreover have "excludes (\<lambda>p. p = Writing) owns_write_mutex ((rw_pcs s)(t := p))"
  proof (rule excludes_update)
    show "excludes (\<lambda>p. p = Writing) owns_write_mutex (rw_pcs s)" using inv by (simp add: rw_inv_def)
    show "rw_pcs s t = Writing \<or> (\<forall>u. u \<noteq> t \<longrightarrow> \<not> owns_write_mutex (rw_pcs s u))" if "p = Writing"
      using writer [OF that] invD(5) by simp
    show "owns_write_mutex (rw_pcs s t) \<or> (\<forall>u. u \<noteq> t \<longrightarrow> rw_pcs s u \<noteq> Writing)" if "owns_write_mutex p"
    proof (cases "owns_write_mutex q")
      case True with q show ?thesis by simp
    next
      case False
      show ?thesis
      proof (cases "write_held s")
        case True
        with owner [OF that \<open>\<not> owns_write_mutex q\<close>] invD(7) show ?thesis by metis
      qed (use invD(5) in \<open>auto simp: owns_write_mutex_def\<close>)
    qed
  qed
  moreover have "excludes switching counted ((rw_pcs s)(t := p))"
  proof (rule excludes_update)
    show "excludes switching counted (rw_pcs s)" using inv by (simp add: rw_inv_def)
    show "switching (rw_pcs s t) \<or> (\<forall>u. u \<noteq> t \<longrightarrow> \<not> counted (rw_pcs s u))" if "switching p"
      using switch [OF that] by simp
    show "counted (rw_pcs s t) \<or> (\<forall>u. u \<noteq> t \<longrightarrow> \<not> switching (rw_pcs s u))" if "counted p"
      using enter [OF that] invD(2) [of t] q by (auto simp: switching_def has_read_mutex_def)
  qed
  moreover have "\<forall>u. n \<le> u \<longrightarrow> ((rw_pcs s)(t := p)) u = Idle" using assms(2) invD(1) by simp
  ultimately show ?thesis
    using read count by (simp add: rw_inv_def pcs some_update del: fun_upd_apply)
qed

lemma rw_inv_step:
  assumes "rw_step n s s'" and "rw_inv n s" and "n < 2 ^ 64"
  shows "rw_inv n s'"
proof -
  note cnt = rw_inv_count [OF assms(2,3)]
  note at = rw_inv_at [OF assms(2)] and invD = rw_invD [OF assms(2)]
  have reader: "rw_pcs s u = Reading" if "has_read_mutex (rw_pcs s t)" "counted (rw_pcs s u)" "u \<noteq> t" for t u
    using that invD(2) [OF that(1,3)] by (auto simp: pc_classes)
  show ?thesis
    using assms(1)
  proof cases
    case (lock_read t)
    then have "unat (rw_readers s) = card {u. counted (((rw_pcs s)(t := Lock_Count)) u)}"
      using assms(2) counted_same [of "rw_pcs s" t Lock_Count] by (simp add: rw_inv_def counted_def)
    then show ?thesis
      using assms at [of t Idle s' Lock_Count] lock_read by (simp add: at_def pc_classes)
  next
    case (count_first t)
    then have "unat (rw_readers s + 1) = card {u. counted (((rw_pcs s)(t := Lock_Write)) u)}"
      by (intro cnt(1)) (simp_all add: counted_def)
    then show ?thesis
      using invD(4) [of t] cnt(3) at [of t Lock_Count s' Lock_Write] count_first by (simp add: at_def pc_classes)
  next
    case (count_more t)
    then have "unat (rw_readers s + 1) = card {u. counted (((rw_pcs s)(t := Lock_Done)) u)}"
      by (intro cnt(1)) (simp_all add: counted_def)
    moreover from count_more cnt(6) obtain u where "counted (rw_pcs s u)" by blast
    with count_more reader [of t u] have "rw_pcs s u = Reading"
      by (cases "u = t") (auto simp: counted_def has_read_mutex_def)
    ultimately show ?thesis
      using invD(4) [of t] invD(6) [of u] at [of t Lock_Count s' Lock_Done u] count_more by (simp add: at_def pc_classes)
  next
    case (take_write t)
    then have "unat (rw_readers s) = card {u. counted (((rw_pcs s)(t := Lock_Done)) u)}"
      using assms(2) counted_same [of "rw_pcs s" t Lock_Done] by (simp add: rw_inv_def counted_def)
    then show ?thesis
      using invD(4) [of t] at [of t Lock_Write s' Lock_Done] take_write by (simp add: at_def pc_classes)
  next
    case (write_failed t)
    then have "unat 0 = card {u. counted (((rw_pcs s)(t := Lock_Failed)) u)}"
      using invD(8) [of t] by (auto simp: counted_def switching_def)
    then show ?thesis
      using invD(4) [of t] at [of t Lock_Write s' Lock_Failed] write_failed by (simp add: at_def pc_classes)
  next
    case (lock_read_done t)
    then have "unat (rw_readers s) = card {u. counted (((rw_pcs s)(t := Reading)) u)}"
      using assms(2) counted_same [of "rw_pcs s" t Reading] by (simp add: rw_inv_def counted_def)
    then show ?thesis
      using invD(6) [of t] at [of t Lock_Done s' Reading] lock_read_done by (simp add: at_def pc_classes)
  next
    case (lock_read_failed t)
    then have "unat (rw_readers s) = card {u. counted (((rw_pcs s)(t := Idle)) u)}"
      using assms(2) counted_same [of "rw_pcs s" t Idle] by (simp add: rw_inv_def counted_def)
    then show ?thesis
      using assms at [of t Lock_Failed s' Idle] lock_read_failed by (simp add: at_def pc_classes)
  next
    case (unlock_read t)
    then have "unat (rw_readers s) = card {u. counted (((rw_pcs s)(t := Unlock_Count)) u)}"
      using assms(2) counted_same [of "rw_pcs s" t Unlock_Count] by (simp add: rw_inv_def counted_def)
    then show ?thesis
      using invD(6) [of t] at [of t Reading s' Unlock_Count] unlock_read by (simp add: at_def pc_classes)
  next
    case (count_last t)
    then have "unat (rw_readers s - 1) = card {u. counted (((rw_pcs s)(t := Unlock_Write)) u)}"
      by (intro cnt(2)) (simp_all add: counted_def)
    moreover have "\<not> counted (rw_pcs s u)" if "u \<noteq> t" for u
      using cnt(4) [of t u] count_last that by (auto simp: counted_def)
    ultimately show ?thesis
      using invD(4) [of t] invD(6) [of t] at [of t Unlock_Count s' Unlock_Write] count_last
      by (simp add: at_def pc_classes)
  next
    case (count_fewer t)
    then have "unat (rw_readers s - 1) = card {u. counted (((rw_pcs s)(t := Unlock_Done)) u)}"
      by (intro cnt(2)) (simp_all add: counted_def)
    moreover from count_fewer cnt(5) [of t] obtain u where "u \<noteq> t" "counted (rw_pcs s u)"
      by (auto simp: counted_def)
    with count_fewer reader [of t u] have "\<exists>u. u \<noteq> t \<and> owns_write_mutex (rw_pcs s u)"
      by (auto simp: pc_classes)
    ultimately show ?thesis
      using invD(4) [of t] invD(6) [of t] at [of t Unlock_Count s' Unlock_Done] count_fewer
      by (simp add: at_def pc_classes)
  next
    case (give_write t)
    then have "unat (rw_readers s) = card {u. counted (((rw_pcs s)(t := Unlock_Done)) u)}"
      using assms(2) counted_same [of "rw_pcs s" t Unlock_Done] by (simp add: rw_inv_def counted_def)
    moreover have "\<forall>u. u \<noteq> t \<longrightarrow> \<not> owns_write_mutex (rw_pcs s u)"
    proof (intro allI impI)
      fix u assume that: "u \<noteq> t"
      have "rw_pcs s u \<noteq> Writing" using invD(7) [of u t] give_write that by (auto simp: pc_classes)
      moreover have "\<not> has_read_mutex (rw_pcs s u)" using invD(2) [of t u] give_write that by (simp add: pc_classes)
      moreover have "\<not> counted (rw_pcs s u)" using invD(8) [of t u] give_write that by (simp add: pc_classes)
      ultimately show "\<not> owns_write_mutex (rw_pcs s u)" by (cases "rw_pcs s u") (simp_all add: pc_classes)
    qed
    ultimately show ?thesis
      using invD(4) [of t] at [of t Unlock_Write s' Unlock_Done] give_write by (auto simp: at_def pc_classes)
  next
    case (unlock_read_done t)
    then have "unat (rw_readers s) = card {u. counted (((rw_pcs s)(t := Idle)) u)}"
      using assms(2) counted_same [of "rw_pcs s" t Idle] by (simp add: rw_inv_def counted_def)
    then show ?thesis
      using assms at [of t Unlock_Done s' Idle] unlock_read_done by (simp add: at_def pc_classes)
  next
    case (lock_write t)
    then have "unat (rw_readers s) = card {u. counted (((rw_pcs s)(t := Writing)) u)}"
      using assms(2) counted_same [of "rw_pcs s" t Writing] by (simp add: rw_inv_def counted_def)
    then show ?thesis
      using assms at [of t Idle s' Writing] lock_write by (simp add: at_def pc_classes)
  next
    case (unlock_write t)
    then have "unat (rw_readers s) = card {u. counted (((rw_pcs s)(t := Idle)) u)}"
      using assms(2) counted_same [of "rw_pcs s" t Idle] by (simp add: rw_inv_def counted_def)
    then show ?thesis
      using invD(7) [of t] at [of t Writing s' Idle] unlock_write by (auto simp: at_def pc_classes)
  qed
qed

lemma rw_reachable_inv: "rw_reachable n s \<Longrightarrow> n < 2 ^ 64 \<Longrightarrow> rw_inv n s"
  by (induction rule: rw_reachable.induct) (auto intro: rw_inv_init rw_inv_step)

text \<open>Once every thread is outside, the lock is as after its initialisation.\<close>

lemma rw_idle_free:
  assumes "rw_inv n s" and "\<forall>t. rw_pcs s t = Idle"
  shows "s = rw_init"
proof -
  from assms have "\<not> read_held s" "\<not> write_held s" "unat (rw_readers s) = 0"
    by (simp_all add: rw_inv_def pc_classes)
  moreover from this(3) have "rw_readers s = 0" by (simp add: word_unat_eq_iff)
  moreover have "rw_pcs s = (\<lambda>_. Idle)" using assms(2) by auto
  ultimately show ?thesis by (simp add: rw_init_def)
qed

section \<open>Steps and functions\<close>

text \<open>
  One thread alone runs through the steps of a function without another thread's in between.
  The functions of the theory \<open>Mutex\<close> on a host that keeps the two mutexes as flags are such
  runs.
\<close>

definition flags_api :: "(bool \<times> bool) lock_api" where
  "flags_api = \<lparr>kernel_create_mutex = (\<lambda>s. (1, s)), kernel_free_mutex = (\<lambda>m s. s),
     kernel_acquire_mutex = (\<lambda>m t s. if m = 1
       then (if fst s then (UACPI_STATUS_TIMEOUT, s) else (UACPI_STATUS_OK, (True, snd s)))
       else (if snd s then (UACPI_STATUS_TIMEOUT, s) else (UACPI_STATUS_OK, (fst s, True)))),
     kernel_release_mutex = (\<lambda>m s. if m = 1 then (False, snd s) else (fst s, False)),
     kernel_thread_id = (\<lambda>s. 1), kernel_global_release = (\<lambda>s. s)\<rparr>"

definition rw_view :: "rw_state \<Rightarrow> uacpi_rw_lock \<times> bool \<times> bool" where
  "rw_view s = (\<lparr>read_mutex = 1, write_mutex = 2, num_readers = rw_readers s\<rparr>, read_held s, write_held s)"

text \<open>What one call leads to: the thread's new place, the lock and the mutexes.\<close>

definition rw_runs_to :: "nat \<Rightarrow> nat \<Rightarrow> rw_state \<Rightarrow> rw_pc \<Rightarrow> uacpi_rw_lock \<times> bool \<times> bool \<Rightarrow> bool" where
  "rw_runs_to n t s p v \<longleftrightarrow> (\<exists>s'. (rw_step n)\<^sup>*\<^sup>* s s' \<and> rw_pcs s' = (rw_pcs s)(t := p) \<and> rw_view s' = v)"

lemma rw_runs_toI:
  "(rw_step n)\<^sup>*\<^sup>* s s' \<Longrightarrow> rw_pcs s' = (rw_pcs s)(t := p) \<Longrightarrow> rw_view s' = v \<Longrightarrow> rw_runs_to n t s p v"
  by (auto simp: rw_runs_to_def)

lemmas rw_functions = uacpi_rw_lock_read_def uacpi_rw_unlock_read_def uacpi_rw_lock_write_def
  uacpi_rw_unlock_write_def uacpi_acquire_native_mutex_def uacpi_release_native_mutex_def
  flags_api_def rw_view_def Let_def

lemma rw_lock_read_run:
  assumes "t < n" and "rw_pcs s t = Idle" and "\<not> read_held s"
    and "uacpi_rw_lock_read flags_api (fst (rw_view s)) (snd (rw_view s)) = (st, l, m)"
  shows "rw_runs_to n t s (if st = UACPI_STATUS_OK then Reading else Idle) (l, m)"
proof -
  let ?s1 = "(at t Lock_Count s)\<lparr>read_held := True\<rparr>"
  note steps = rw_step.lock_read [of t n s, OF assms(1-3)]
  show ?thesis
  proof (cases "rw_readers s = 0")
    case True
    let ?s2 = "(at t Lock_Write ?s1)\<lparr>rw_readers := rw_readers ?s1 + 1\<rparr>"
    have two: "(rw_step n)\<^sup>*\<^sup>* s ?s2"
      using steps rw_step.count_first [of t n ?s1] assms True by (simp add: at_def rtranclp.rtrancl_into_rtrancl)
    show ?thesis
    proof (cases "write_held s")
      case held: True
      let ?s3 = "(at t Lock_Failed ?s2)\<lparr>rw_readers := 0\<rparr>"
      let ?s4 = "(at t Idle ?s3)\<lparr>read_held := False\<rparr>"
      have "rw_step n ?s2 ?s3" by (rule rw_step.write_failed) (simp_all add: at_def assms(1))
      moreover have "rw_step n ?s3 ?s4" by (rule rw_step.lock_read_failed) (simp_all add: at_def assms(1))
      ultimately have "(rw_step n)\<^sup>*\<^sup>* s ?s4" using two by (meson rtranclp.rtrancl_into_rtrancl)
      then show ?thesis
        using assms True held by (intro rw_runs_toI) (auto simp: at_def rw_functions)
    next
      case free: False
      let ?s3 = "(at t Lock_Done ?s2)\<lparr>write_held := True\<rparr>"
      let ?s4 = "(at t Reading ?s3)\<lparr>read_held := False\<rparr>"
      have "rw_step n ?s2 ?s3" by (rule rw_step.take_write) (simp_all add: at_def assms(1) free)
      moreover have "rw_step n ?s3 ?s4" by (rule rw_step.lock_read_done) (simp_all add: at_def assms(1))
      ultimately have "(rw_step n)\<^sup>*\<^sup>* s ?s4" using two by (meson rtranclp.rtrancl_into_rtrancl)
      then show ?thesis
        using assms True free by (intro rw_runs_toI) (auto simp: at_def rw_functions)
    qed
  next
    case False
    let ?s2 = "(at t Lock_Done ?s1)\<lparr>rw_readers := rw_readers ?s1 + 1\<rparr>"
    let ?s3 = "(at t Reading ?s2)\<lparr>read_held := False\<rparr>"
    have "rw_step n ?s1 ?s2" by (rule rw_step.count_more) (simp_all add: at_def assms(1) False)
    moreover have "rw_step n ?s2 ?s3" by (rule rw_step.lock_read_done) (simp_all add: at_def assms(1))
    ultimately have "(rw_step n)\<^sup>*\<^sup>* s ?s3"
      using steps by (meson rtranclp.rtrancl_into_rtrancl rtranclp.rtrancl_refl)
    then show ?thesis
      using assms False by (intro rw_runs_toI) (auto simp: at_def rw_functions)
  qed
qed

lemma rw_unlock_read_run:
  assumes "t < n" and "rw_pcs s t = Reading" and "\<not> read_held s"
    and "uacpi_rw_unlock_read flags_api (fst (rw_view s)) (snd (rw_view s)) = (st, l, m)"
  shows "st = UACPI_STATUS_OK \<and> rw_runs_to n t s Idle (l, m)"
proof -
  let ?s1 = "(at t Unlock_Count s)\<lparr>read_held := True\<rparr>"
  note steps = rw_step.unlock_read [of t n s, OF assms(1-3)]
  show ?thesis
  proof (cases "rw_readers s = 1")
    case True
    let ?s2 = "(at t Unlock_Write ?s1)\<lparr>rw_readers := rw_readers ?s1 - 1\<rparr>"
    let ?s3 = "(at t Unlock_Done ?s2)\<lparr>write_held := False\<rparr>"
    let ?s4 = "(at t Idle ?s3)\<lparr>read_held := False\<rparr>"
    have "rw_step n ?s1 ?s2" by (rule rw_step.count_last) (simp_all add: at_def assms(1) True)
    moreover have "rw_step n ?s2 ?s3" by (rule rw_step.give_write) (simp_all add: at_def assms(1))
    moreover have "rw_step n ?s3 ?s4" by (rule rw_step.unlock_read_done) (simp_all add: at_def assms(1))
    ultimately have "(rw_step n)\<^sup>*\<^sup>* s ?s4"
      using steps by (meson rtranclp.rtrancl_into_rtrancl rtranclp.rtrancl_refl)
    then show ?thesis
      using assms True by (intro conjI rw_runs_toI) (auto simp: at_def rw_functions)
  next
    case False
    let ?s2 = "(at t Unlock_Done ?s1)\<lparr>rw_readers := rw_readers ?s1 - 1\<rparr>"
    let ?s3 = "(at t Idle ?s2)\<lparr>read_held := False\<rparr>"
    have "rw_step n ?s1 ?s2" by (rule rw_step.count_fewer) (simp_all add: at_def assms(1) False)
    moreover have "rw_step n ?s2 ?s3" by (rule rw_step.unlock_read_done) (simp_all add: at_def assms(1))
    ultimately have "(rw_step n)\<^sup>*\<^sup>* s ?s3"
      using steps by (meson rtranclp.rtrancl_into_rtrancl rtranclp.rtrancl_refl)
    then show ?thesis
      using assms False by (intro conjI rw_runs_toI) (auto simp: at_def rw_functions)
  qed
qed

section \<open>Property\<close>

text \<open>C11: readers and writers exclude each other.  Whatever fewer than \<open>2 ^ 64\<close> threads do with
  a lock that \<open>uacpi_rw_lock_init\<close> created, in any interleaving and with any acquisitions of the
  write mutex failing: while a thread writes no other thread writes or reads, the number of
  readers is never less than the threads reading, and when every thread is outside the lock is
  back in its initial state, both mutexes free and no reader counted.\<close>

theorem rw_mutual_exclusion:
  assumes "rw_reachable n s" and "n < 2 ^ 64"
  shows "(\<forall>t u. rw_pcs s t = Writing \<and> (rw_pcs s u = Writing \<or> rw_pcs s u = Reading) \<longrightarrow> t = u)
    \<and> card {t. rw_pcs s t = Reading} \<le> unat (rw_readers s)
    \<and> ((\<forall>t. rw_pcs s t = Idle) \<longrightarrow> s = rw_init)"
proof -
  note inv = rw_reachable_inv [OF assms]
  have out: "\<forall>t. n \<le> t \<longrightarrow> rw_pcs s t = Idle" and c: "unat (rw_readers s) = card {t. counted (rw_pcs s t)}"
    using inv by (simp_all add: rw_inv_def)
  have "{t. rw_pcs s t = Reading} \<subseteq> {t. counted (rw_pcs s t)}" by (auto simp: counted_def)
  from card_mono [OF counted_finite [OF out] this] c
  have "card {t. rw_pcs s t = Reading} \<le> unat (rw_readers s)" by simp
  moreover have "\<forall>t u. rw_pcs s t = Writing \<and> (rw_pcs s u = Writing \<or> rw_pcs s u = Reading) \<longrightarrow> t = u"
    using rw_invD(7) [OF inv] by (metis insertCI owns_write_mutex_def shares_write_mutex_def)
  ultimately show ?thesis using rw_idle_free [OF inv] by blast
qed

theorem rw_mutual_exclusion_witness:
  "rw_reachable 2 ((at 1 Writing rw_init)\<lparr>write_held := True\<rparr>)
   \<and> rw_pcs ((at 1 Writing rw_init)\<lparr>write_held := True\<rparr>) 0 \<noteq> Reading"
proof -
  have "rw_step 2 rw_init ((at 1 Writing rw_init)\<lparr>write_held := True\<rparr>)"
    by (rule rw_step.lock_write) (simp_all add: rw_init_def)
  then have r: "rw_reachable 2 ((at 1 Writing rw_init)\<lparr>write_held := True\<rparr>)"
    by (rule rw_reachable.step [OF rw_reachable.start])
  have w: "rw_pcs ((at 1 Writing rw_init)\<lparr>write_held := True\<rparr>) 1 = Writing" by (simp add: at_def)
  have "rw_pcs ((at 1 Writing rw_init)\<lparr>write_held := True\<rparr>) 0 \<noteq> Reading"
  proof
    assume "rw_pcs ((at 1 Writing rw_init)\<lparr>write_held := True\<rparr>) 0 = Reading"
    with rw_mutual_exclusion [OF r] w have "(1::nat) = 0" by simp blast
    then show False by simp
  qed
  with r show ?thesis by simp
qed

end
