(* ===== verification/Osi.thy ===== *)
theory Osi
  imports Stdlib Mutex
begin

text \<open>
  The operating system interfaces of \<^verbatim>\<open>src/kern/acpi/osi.c\<close>: the list of names that
  \<open>_OSI\<close> answers for.  The list starts with the interfaces installed at run time, newest first,
  and ends in the entries of a static array; while they are registered the entries of the list
  are the array's entries, so the array is updated from the list when the list is torn down.
  A name is the bytes before its terminator.  This file is not part of the bare-bones build.
\<close>

section \<open>State\<close>

text \<open>\<open>blocks\<close> is where a dynamic entry and its name were allocated.\<close>

record registered_interface =
  interface_name :: "u8 list"
  weight :: u8
  kind :: u8
  host_type :: u8
  disabled :: bool
  dynamic :: bool
  blocks :: "u64 \<times> u64"

record 's osi_state =
  interface_mutex :: u64
  registered_interfaces :: "registered_interface list"
  predefined_interfaces :: "registered_interface list"
  interface_handler :: "(u8 list \<Rightarrow> bool \<Rightarrow> 's \<Rightarrow> bool \<times> 's) option"
  latest_queried_interface :: u32

record 's heap_api =
  kernel_alloc :: "u64 \<Rightarrow> 's \<Rightarrow> u64 \<times> 's"
  kernel_free :: "u64 \<Rightarrow> 's \<Rightarrow> 's"

definition UACPI_INTERFACE_KIND_VENDOR :: u8 where "UACPI_INTERFACE_KIND_VENDOR = push_bit 0 1"
definition UACPI_INTERFACE_KIND_FEATURE :: u8 where "UACPI_INTERFACE_KIND_FEATURE = push_bit 1 1"

datatype uacpi_interface_action = UACPI_INTERFACE_ACTION_DISABLE | UACPI_INTERFACE_ACTION_ENABLE

text \<open>The static array.  The weights are the positions in \<open>uacpi_vendor_interface\<close>, the types
  those in \<open>uacpi_host_interface\<close>.\<close>

definition WINDOWS :: "string \<Rightarrow> u8 \<Rightarrow> registered_interface" where
  "WINDOWS str interface = \<lparr>interface_name = sig (''Windows '' @ str), weight = interface,
     kind = UACPI_INTERFACE_KIND_VENDOR, host_type = 0, disabled = False, dynamic = False, blocks = (0, 0)\<rparr>"

definition HOST_FEATURE :: "string \<Rightarrow> u8 \<Rightarrow> registered_interface" where
  "HOST_FEATURE str type = \<lparr>interface_name = sig str, weight = 0,
     kind = UACPI_INTERFACE_KIND_FEATURE, host_type = type, disabled = True, dynamic = False, blocks = (0, 0)\<rparr>"

definition predefined_table :: "registered_interface list" where
  "predefined_table =
    [WINDOWS ''2000'' 1, WINDOWS ''2001'' 2, WINDOWS ''2001 SP1'' 3, WINDOWS ''2001.1'' 4,
     WINDOWS ''2001 SP2'' 5, WINDOWS ''2001.1 SP1'' 6, WINDOWS ''2006'' 7, WINDOWS ''2006.1'' 8,
     WINDOWS ''2006 SP1'' 9, WINDOWS ''2006 SP2'' 10, WINDOWS ''2009'' 11, WINDOWS ''2012'' 12,
     WINDOWS ''2013'' 13, WINDOWS ''2015'' 14, WINDOWS ''2016'' 15, WINDOWS ''2017'' 16,
     WINDOWS ''2017.2'' 17, WINDOWS ''2018'' 18, WINDOWS ''2018.2'' 19, WINDOWS ''2019'' 20,
     WINDOWS ''2020'' 21, WINDOWS ''2021'' 22, WINDOWS ''2022'' 23,
     HOST_FEATURE ''Module Device'' 1, HOST_FEATURE ''Processor Device'' 2,
     HOST_FEATURE ''3.0 Thermal Model'' 3, HOST_FEATURE ''3.0 _SCP Extensions'' 4,
     HOST_FEATURE ''Processor Aggregator Device'' 5,
     \<lparr>interface_name = sig ''Extended Address Space Descriptor'', weight = 0, kind = 0, host_type = 0,
       disabled = False, dynamic = False, blocks = (0, 0)\<rparr>]"

section \<open>Start and end\<close>

definition uacpi_initialize_interfaces :: "'s lock_api \<Rightarrow> 's osi_state \<Rightarrow> 's \<Rightarrow> uacpi_status \<times> 's osi_state \<times> 's" where
  "uacpi_initialize_interfaces A x s =
     (let x = x\<lparr>registered_interfaces := take 1 (predefined_interfaces x)\<rparr> in
      case kernel_create_mutex A s of (mtx, s) \<Rightarrow>
        let x = x\<lparr>interface_mutex := mtx\<rparr> in
        if mtx = 0 then (UACPI_STATUS_OUT_OF_MEMORY, x, s)
        else (UACPI_STATUS_OK, x\<lparr>registered_interfaces := predefined_interfaces x\<rparr>, s))"

text \<open>Taking the list apart: the entries that stay, those of the array, and the freed memory.\<close>

fun deinitialize_loop :: "'s heap_api \<Rightarrow> registered_interface list \<Rightarrow> 's \<Rightarrow> registered_interface list \<times> 's" where
  "deinitialize_loop H [] s = ([], s)"
| "deinitialize_loop H (iface # next_iface) s =
     (if dynamic iface then
        deinitialize_loop H next_iface (kernel_free H (fst (blocks iface)) (kernel_free H (snd (blocks iface)) s))
      else case deinitialize_loop H next_iface s of (kept, s) \<Rightarrow>
        (iface\<lparr>disabled := (kind iface = UACPI_INTERFACE_KIND_FEATURE)\<rparr> # kept, s))"

definition uacpi_deinitialize_interfaces :: "'s lock_api \<Rightarrow> 's heap_api \<Rightarrow> 's osi_state \<Rightarrow> 's \<Rightarrow> 's osi_state \<times> 's" where
  "uacpi_deinitialize_interfaces A H x s =
     (case deinitialize_loop H (registered_interfaces x) s of (kept, s) \<Rightarrow>
        let s = (if interface_mutex x \<noteq> 0 then kernel_free_mutex A (interface_mutex x) s else s) in
        (x\<lparr>interface_mutex := 0, interface_handler := None, latest_queried_interface := 0,
           registered_interfaces := [],
           predefined_interfaces := kept @ drop (length kept) (predefined_interfaces x)\<rparr>, s))"

definition uacpi_latest_queried_vendor_interface :: "'s osi_state \<Rightarrow> u32" where
  "uacpi_latest_queried_vendor_interface x = latest_queried_interface x"

section \<open>Searching\<close>

definition same_name :: "u8 list \<Rightarrow> u8 list \<Rightarrow> bool" where
  "same_name a b \<longleftrightarrow> uacpi_strcmp (a @ [0]) (b @ [0]) = Some 0"

text \<open>The position of the entry found.\<close>

fun find_interface_unlocked :: "u8 list \<Rightarrow> registered_interface list \<Rightarrow> nat option" where
  "find_interface_unlocked name [] = None"
| "find_interface_unlocked name (interface # rest) =
     (if same_name (interface_name interface) name then Some 0
      else map_option Suc (find_interface_unlocked name rest))"

fun find_host_interface_unlocked :: "u32 \<Rightarrow> registered_interface list \<Rightarrow> nat option" where
  "find_host_interface_unlocked type [] = None"
| "find_host_interface_unlocked type (interface # rest) =
     (if ucast (host_type interface) = type then Some 0
      else map_option Suc (find_host_interface_unlocked type rest))"

section \<open>Operations\<close>

text \<open>
  The frame the operations share: the level check, the mutex around the body.  \<open>ready\<close> says
  that the initialisation level is reached.
\<close>

definition with_interface_mutex ::
  "'s lock_api \<Rightarrow> ('s osi_state \<Rightarrow> 's \<Rightarrow> uacpi_status \<times> 's osi_state \<times> 's) \<Rightarrow>
   's osi_state \<Rightarrow> 's \<Rightarrow> uacpi_status \<times> 's osi_state \<times> 's" where
  "with_interface_mutex A body x s =
     (case uacpi_acquire_native_mutex A (interface_mutex x) s of (ret, s) \<Rightarrow>
        if ret \<noteq> UACPI_STATUS_OK then (ret, x, s)
        else case body x s of (ret, x, s) \<Rightarrow>
          (ret, x, snd (uacpi_release_native_mutex A (interface_mutex x) s)))"

definition set_interface :: "nat \<Rightarrow> registered_interface \<Rightarrow> 's osi_state \<Rightarrow> 's osi_state" where
  "set_interface i interface x = x\<lparr>registered_interfaces := (registered_interfaces x)[i := interface]\<rparr>"

definition sizeof_registered_interface :: u64 where "sizeof_registered_interface = 24"

definition install_body ::
  "'s heap_api \<Rightarrow> u8 list \<Rightarrow> u32 \<Rightarrow> 's osi_state \<Rightarrow> 's \<Rightarrow> uacpi_status \<times> 's osi_state \<times> 's" where
  "install_body H name k x s =
     (case find_interface_unlocked name (registered_interfaces x) of
        Some i \<Rightarrow>
          let interface = registered_interfaces x ! i;
              x = (if disabled interface then set_interface i (interface\<lparr>disabled := False\<rparr>) x else x)
          in (UACPI_STATUS_ALREADY_EXISTS, x, s)
      | None \<Rightarrow>
          (case kernel_alloc H sizeof_registered_interface s of (p, s) \<Rightarrow>
             if p = 0 then (UACPI_STATUS_OUT_OF_MEMORY, x, s)
             else
               let name_size = the (uacpi_strlen (name @ [0])) + 1 in
               case kernel_alloc H (of_nat name_size) s of (name_copy, s) \<Rightarrow>
                 if name_copy = 0 then (UACPI_STATUS_OUT_OF_MEMORY, x, kernel_free H p s)
                 else
                   (UACPI_STATUS_OK,
                    x\<lparr>registered_interfaces :=
                       \<lparr>interface_name = take (name_size - 1) name, weight = 0, kind = ucast k, host_type = 0,
                         disabled = False, dynamic = True, blocks = (p, name_copy)\<rparr> # registered_interfaces x\<rparr>, s)))"

definition uacpi_install_interface ::
  "'s lock_api \<Rightarrow> 's heap_api \<Rightarrow> bool \<Rightarrow> u8 list \<Rightarrow> u32 \<Rightarrow> 's osi_state \<Rightarrow> 's \<Rightarrow> uacpi_status \<times> 's osi_state \<times> 's" where
  "uacpi_install_interface A H ready name k x s =
     (if \<not> ready then (UACPI_STATUS_INIT_LEVEL_MISMATCH, x, s)
      else with_interface_mutex A (install_body H name k) x s)"

text \<open>The walk of \<open>uacpi_uninstall_interface\<close>: the status, the new list and the entry to free.\<close>

fun uninstall_loop ::
  "u8 list \<Rightarrow> registered_interface list \<Rightarrow> uacpi_status \<times> registered_interface list \<times> registered_interface option" where
  "uninstall_loop name [] = (UACPI_STATUS_NOT_FOUND, [], None)"
| "uninstall_loop name (cur # rest) =
     (if \<not> same_name (interface_name cur) name then
        (case uninstall_loop name rest of (ret, rest, freed) \<Rightarrow> (ret, cur # rest, freed))
      else if dynamic cur then (UACPI_STATUS_OK, rest, Some cur)
      else if \<not> disabled cur then (UACPI_STATUS_OK, cur\<lparr>disabled := True\<rparr> # rest, None)
      else (UACPI_STATUS_NOT_FOUND, cur # rest, None))"

definition uacpi_uninstall_interface ::
  "'s lock_api \<Rightarrow> 's heap_api \<Rightarrow> bool \<Rightarrow> u8 list \<Rightarrow> 's osi_state \<Rightarrow> 's \<Rightarrow> uacpi_status \<times> 's osi_state \<times> 's" where
  "uacpi_uninstall_interface A H ready name x s =
     (if \<not> ready then (UACPI_STATUS_INIT_LEVEL_MISMATCH, x, s)
      else case uacpi_acquire_native_mutex A (interface_mutex x) s of (ret, s) \<Rightarrow>
        if ret \<noteq> UACPI_STATUS_OK then (ret, x, s)
        else case uninstall_loop name (registered_interfaces x) of (ret, l, freed) \<Rightarrow>
          let s = snd (uacpi_release_native_mutex A (interface_mutex x) s);
              s = (case freed of None \<Rightarrow> s
                   | Some cur \<Rightarrow> kernel_free H (fst (blocks cur)) (kernel_free H (snd (blocks cur)) s))
          in (ret, x\<lparr>registered_interfaces := l\<rparr>, s))"

definition configure_host_interface ::
  "'s lock_api \<Rightarrow> bool \<Rightarrow> u32 \<Rightarrow> bool \<Rightarrow> 's osi_state \<Rightarrow> 's \<Rightarrow> uacpi_status \<times> 's osi_state \<times> 's" where
  "configure_host_interface A ready type enabled x s =
     (if \<not> ready then (UACPI_STATUS_INIT_LEVEL_MISMATCH, x, s)
      else with_interface_mutex A
        (\<lambda>x s. case find_host_interface_unlocked type (registered_interfaces x) of
           None \<Rightarrow> (UACPI_STATUS_NOT_FOUND, x, s)
         | Some i \<Rightarrow>
             (UACPI_STATUS_OK, set_interface i ((registered_interfaces x ! i)\<lparr>disabled := \<not> enabled\<rparr>) x, s)) x s)"

definition uacpi_enable_host_interface ::
  "'s lock_api \<Rightarrow> bool \<Rightarrow> u32 \<Rightarrow> 's osi_state \<Rightarrow> 's \<Rightarrow> uacpi_status \<times> 's osi_state \<times> 's" where
  "uacpi_enable_host_interface A ready type = configure_host_interface A ready type True"

definition uacpi_disable_host_interface ::
  "'s lock_api \<Rightarrow> bool \<Rightarrow> u32 \<Rightarrow> 's osi_state \<Rightarrow> 's \<Rightarrow> uacpi_status \<times> 's osi_state \<times> 's" where
  "uacpi_disable_host_interface A ready type = configure_host_interface A ready type False"

definition uacpi_set_interface_query_handler ::
  "'s lock_api \<Rightarrow> bool \<Rightarrow> (u8 list \<Rightarrow> bool \<Rightarrow> 's \<Rightarrow> bool \<times> 's) option \<Rightarrow> 's osi_state \<Rightarrow> 's \<Rightarrow>
   uacpi_status \<times> 's osi_state \<times> 's" where
  "uacpi_set_interface_query_handler A ready handler x s =
     (if \<not> ready then (UACPI_STATUS_INIT_LEVEL_MISMATCH, x, s)
      else with_interface_mutex A
        (\<lambda>x s. if interface_handler x \<noteq> None \<and> handler \<noteq> None then (UACPI_STATUS_ALREADY_EXISTS, x, s)
               else (UACPI_STATUS_OK, x\<lparr>interface_handler := handler\<rparr>, s)) x s)"

definition bulk_one :: "uacpi_interface_action \<Rightarrow> u32 \<Rightarrow> registered_interface \<Rightarrow> registered_interface" where
  "bulk_one action k interface =
     (if k AND ucast (kind interface) \<noteq> 0
      then interface\<lparr>disabled := (action = UACPI_INTERFACE_ACTION_DISABLE)\<rparr> else interface)"

definition uacpi_bulk_configure_interfaces ::
  "'s lock_api \<Rightarrow> bool \<Rightarrow> uacpi_interface_action \<Rightarrow> u32 \<Rightarrow> 's osi_state \<Rightarrow> 's \<Rightarrow>
   uacpi_status \<times> 's osi_state \<times> 's" where
  "uacpi_bulk_configure_interfaces A ready action k x s =
     (if \<not> ready then (UACPI_STATUS_INIT_LEVEL_MISMATCH, x, s)
      else with_interface_mutex A
        (\<lambda>x s. (UACPI_STATUS_OK,
                x\<lparr>registered_interfaces := map (bulk_one action k) (registered_interfaces x)\<rparr>, s)) x s)"

text \<open>The answer is the output parameter, written only on success.\<close>

definition uacpi_handle_osi ::
  "'s lock_api \<Rightarrow> u8 list \<Rightarrow> 's osi_state \<Rightarrow> 's \<Rightarrow> (uacpi_status \<times> bool option) \<times> 's osi_state \<times> 's" where
  "uacpi_handle_osi A str x s =
     (case uacpi_acquire_native_mutex A (interface_mutex x) s of (ret, s) \<Rightarrow>
        if ret \<noteq> UACPI_STATUS_OK then ((ret, None), x, s)
        else
          let (is_supported, x, s) =
            (case find_interface_unlocked str (registered_interfaces x) of
               None \<Rightarrow> (False, x, s)
             | Some i \<Rightarrow>
                 let interface = registered_interfaces x ! i;
                     x = (if ucast (weight interface) > latest_queried_interface x
                          then x\<lparr>latest_queried_interface := ucast (weight interface)\<rparr> else x);
                     is_supported = (\<not> disabled interface)
                 in case interface_handler x of
                      None \<Rightarrow> (is_supported, x, s)
                    | Some handler \<Rightarrow>
                        (case handler str is_supported s of (is_supported, s) \<Rightarrow> (is_supported, x, s)))
          in ((UACPI_STATUS_OK, Some is_supported), x, snd (uacpi_release_native_mutex A (interface_mutex x) s)))"

section \<open>Lemmas\<close>

subsection \<open>Names\<close>

lemma strcmp_equal:
  "0 \<notin> set a \<Longrightarrow> 0 \<notin> set b \<Longrightarrow> uacpi_strcmp (a @ [0]) (b @ [0]) = Some 0 \<longleftrightarrow> a = b"
proof (induction a arbitrary: b)
  case Nil then show ?case by (cases b) (auto simp: word_uint_eq_iff)
next
  case (Cons c a) then show ?case by (cases b) (auto simp: word_uint_eq_iff)
qed

lemma same_name_iff: "0 \<notin> set a \<Longrightarrow> 0 \<notin> set b \<Longrightarrow> same_name a b \<longleftrightarrow> a = b"
  by (simp add: same_name_def strcmp_equal)

lemma strlen_terminated: "0 \<notin> set a \<Longrightarrow> uacpi_strlen (a @ [0]) = Some (length a)"
  by (induction a) auto

definition names_ok :: "registered_interface list \<Rightarrow> bool" where
  "names_ok l \<longleftrightarrow> distinct (map interface_name l) \<and> (\<forall>i \<in> set l. 0 \<notin> set (interface_name i))"

lemma find_some:
  "find_interface_unlocked name l = Some i \<Longrightarrow> i < length l \<and> same_name (interface_name (l ! i)) name"
  by (induction l arbitrary: i) (auto split: if_splits)

lemma find_none:
  "find_interface_unlocked name l = None \<Longrightarrow> \<forall>i \<in> set l. \<not> same_name (interface_name i) name"
  by (induction l) (auto split: if_splits)

lemma find_host_some:
  "find_host_interface_unlocked type l = Some i \<Longrightarrow> i < length l \<and> ucast (host_type (l ! i)) = type"
  by (induction l arbitrary: i) (auto split: if_splits)

lemma find_by_name:
  assumes "names_ok l" and "0 \<notin> set name"
  shows "find_interface_unlocked name l = Some i \<Longrightarrow> i < length l \<and> interface_name (l ! i) = name"
    and "find_interface_unlocked name l = None \<longleftrightarrow> name \<notin> interface_name ` set l"
proof -
  have same: "same_name (interface_name i) name \<longleftrightarrow> interface_name i = name" if "i \<in> set l" for i
    using assms that by (simp add: names_ok_def same_name_iff)
  show "i < length l \<and> interface_name (l ! i) = name" if "find_interface_unlocked name l = Some i"
    using find_some [OF that] same by auto
  show "find_interface_unlocked name l = None \<longleftrightarrow> name \<notin> interface_name ` set l"
  proof (cases "find_interface_unlocked name l")
    case None
    with find_none [OF this] same show ?thesis by auto
  next
    case (Some i)
    with find_some [OF this] same have "l ! i \<in> set l" "interface_name (l ! i) = name" by auto
    with Some show ?thesis by force
  qed
qed

subsection \<open>The supported names\<close>

definition enabled_names :: "registered_interface list \<Rightarrow> u8 list set" where
  "enabled_names l = interface_name ` {i \<in> set l. \<not> disabled i}"

definition supported :: "'s osi_state \<Rightarrow> u8 list set" where
  "supported x = enabled_names (registered_interfaces x)"

lemma enabled_Cons: "enabled_names (i # l) = (if disabled i then {} else {interface_name i}) \<union> enabled_names l"
  by (auto simp: enabled_names_def)

lemma enabled_known: "enabled_names l \<subseteq> interface_name ` set l"
  by (auto simp: enabled_names_def)

lemma names_ok_Cons:
  "names_ok (i # l) \<longleftrightarrow> interface_name i \<notin> interface_name ` set l \<and> 0 \<notin> set (interface_name i) \<and> names_ok l"
  by (auto simp: names_ok_def)

lemma names_ok_cong:
  "map interface_name l' = map interface_name l \<Longrightarrow> names_ok l' = names_ok l"
proof -
  have "names_ok l \<longleftrightarrow> distinct (map interface_name l) \<and> (\<forall>n \<in> set (map interface_name l). 0 \<notin> set n)" for l
    by (simp add: names_ok_def)
  then show "map interface_name l' = map interface_name l \<Longrightarrow> names_ok l' = names_ok l" by metis
qed

text \<open>Changing the flag of one entry.\<close>

lemma set_disabled:
  assumes "names_ok l" and "i < length l"
  shows "enabled_names (l[i := (l ! i)\<lparr>disabled := b\<rparr>])
      = (if b then enabled_names l - {interface_name (l ! i)} else insert (interface_name (l ! i)) (enabled_names l))"
  using assms
proof (induction l arbitrary: i)
  case (Cons a l)
  show ?case
  proof (cases i)
    case 0
    have "interface_name a \<notin> enabled_names l" using Cons.prems(1) enabled_known [of l] by (auto simp: names_ok_Cons)
    with 0 show ?thesis by (auto simp: enabled_Cons)
  next
    case (Suc j)
    with Cons.prems have "interface_name a \<noteq> interface_name (l ! j)" by (auto simp: names_ok_Cons)
    with Suc Cons show ?thesis by (auto simp: enabled_Cons names_ok_Cons)
  qed
qed simp

lemma uninstall_loop_names:
  assumes "names_ok l" and "0 \<notin> set name" and "uninstall_loop name l = (ret, l', freed)"
  shows "names_ok l' \<and> enabled_names l' = enabled_names l - {name} \<and> interface_name ` set l' \<subseteq> interface_name ` set l
    \<and> (name \<in> enabled_names l \<longrightarrow> ret = UACPI_STATUS_OK)
    \<and> (name \<notin> interface_name ` set l \<longrightarrow> ret = UACPI_STATUS_NOT_FOUND \<and> l' = l)"
  using assms
proof (induction l arbitrary: ret l' freed)
  case (Cons a l)
  have same: "same_name (interface_name a) name \<longleftrightarrow> interface_name a = name"
    using Cons.prems by (simp add: names_ok_Cons same_name_iff)
  show ?case
  proof (cases "interface_name a = name")
    case True
    have "name \<notin> enabled_names l" using Cons.prems(1) enabled_known [of l] True by (auto simp: names_ok_Cons)
    with True same Cons.prems show ?thesis
      by (auto simp: enabled_Cons names_ok_Cons split: if_splits)
  next
    case False
    obtain r l2 f where u: "uninstall_loop name l = (r, l2, f)" by (cases "uninstall_loop name l") auto
    from Cons.IH [OF _ Cons.prems(2) u] Cons.prems(1) have
      IH: "names_ok l2" "enabled_names l2 = enabled_names l - {name}" "interface_name ` set l2 \<subseteq> interface_name ` set l"
        "name \<in> enabled_names l \<longrightarrow> r = UACPI_STATUS_OK"
        "name \<notin> interface_name ` set l \<longrightarrow> r = UACPI_STATUS_NOT_FOUND \<and> l2 = l"
      by (simp_all add: names_ok_Cons)
    from u False same Cons.prems(3) have l': "l' = a # l2" "ret = r" by auto
    have "interface_name a \<notin> interface_name ` set l2" using Cons.prems(1) IH(3) by (auto simp: names_ok_Cons)
    with IH Cons.prems(1) False l' show ?thesis by (auto simp: enabled_Cons names_ok_Cons)
  qed
qed (simp add: enabled_names_def)

lemma bulk_names: "map interface_name (map (bulk_one action k) l) = map interface_name l"
  by (simp add: bulk_one_def)

lemma bulk_enabled:
  assumes "names_ok l"
  shows "enabled_names (map (bulk_one action k) l)
      = (let K = interface_name ` {i \<in> set l. k AND ucast (kind i) \<noteq> 0} in
         if action = UACPI_INTERFACE_ACTION_ENABLE then enabled_names l \<union> K else enabled_names l - K)"
  using assms
proof (induction l)
  case (Cons a l)
  have "interface_name a \<notin> enabled_names l" "interface_name a \<notin> interface_name ` {i \<in> set l. k AND ucast (kind i) \<noteq> 0}"
    using Cons.prems enabled_known [of l] by (auto simp: names_ok_Cons)
  with Cons show ?case
    by (cases action) (auto simp: enabled_Cons names_ok_Cons bulk_one_def Let_def image_iff)
qed (simp add: enabled_names_def)

text \<open>A host that grants the mutex and the memory.\<close>

definition host_grants :: "'s lock_api \<Rightarrow> 's heap_api \<Rightarrow> bool" where
  "host_grants A H \<longleftrightarrow>
     (\<forall>m t s. fst (kernel_acquire_mutex A m t s) = UACPI_STATUS_OK) \<and> (\<forall>n s. fst (kernel_alloc H n s) \<noteq> 0)"

lemma mutex_granted:
  assumes "host_grants A H" and "interface_mutex x \<noteq> 0"
  shows "uacpi_acquire_native_mutex A (interface_mutex x) s
      = (UACPI_STATUS_OK, snd (kernel_acquire_mutex A (interface_mutex x) 0xFFFF s))"
    and "with_interface_mutex A body x s
      = (case body x (snd (kernel_acquire_mutex A (interface_mutex x) 0xFFFF s)) of (ret, x, s) \<Rightarrow>
          (ret, x, snd (uacpi_release_native_mutex A (interface_mutex x) s)))"
proof -
  show *: "uacpi_acquire_native_mutex A (interface_mutex x) s
      = (UACPI_STATUS_OK, snd (kernel_acquire_mutex A (interface_mutex x) 0xFFFF s))"
    using assms by (simp add: uacpi_acquire_native_mutex_def host_grants_def prod_eq_iff)
  show "with_interface_mutex A body x s
      = (case body x (snd (kernel_acquire_mutex A (interface_mutex x) 0xFFFF s)) of (ret, x, s) \<Rightarrow>
          (ret, x, snd (uacpi_release_native_mutex A (interface_mutex x) s)))"
    by (simp add: with_interface_mutex_def *)
qed

lemma install_supported:
  assumes "host_grants A H" and "interface_mutex x \<noteq> 0" and "names_ok (registered_interfaces x)" and "0 \<notin> set name"
    and "uacpi_install_interface A H True name k x s = (ret, x', s')"
  shows "names_ok (registered_interfaces x') \<and> supported x' = insert name (supported x)
    \<and> ret = (if name \<in> interface_name ` set (registered_interfaces x) then UACPI_STATUS_ALREADY_EXISTS else UACPI_STATUS_OK)"
proof -
  let ?s1 = "snd (kernel_acquire_mutex A (interface_mutex x) 0xFFFF s)"
  note w = mutex_granted(2) [OF assms(1,2), where s = s]
  note found = find_by_name [OF assms(3,4)]
  let ?l = "registered_interfaces x"
  show ?thesis
  proof (cases "find_interface_unlocked name ?l")
    case None
    obtain p s2 where p: "kernel_alloc H sizeof_registered_interface ?s1 = (p, s2)" "p \<noteq> 0"
      using assms(1) by (metis host_grants_def prod.collapse)
    obtain q s3 where q: "kernel_alloc H (of_nat (Suc (length name))) s2 = (q, s3)" "q \<noteq> 0"
      using assms(1) by (metis host_grants_def prod.collapse)
    have "registered_interfaces x' = \<lparr>interface_name = name, weight = 0, kind = ucast k, host_type = 0,
        disabled = False, dynamic = True, blocks = (p, q)\<rparr> # ?l \<and> ret = UACPI_STATUS_OK"
      using assms(5) None p q strlen_terminated [OF assms(4)]
      by (auto simp: uacpi_install_interface_def w install_body_def Let_def)
    moreover have "name \<notin> interface_name ` set ?l" using None found(2) by simp
    ultimately show ?thesis
      using assms(3,4) by (simp add: names_ok_Cons supported_def enabled_Cons)
  next
    case (Some i)
    from found(1) [OF this] have i: "i < length ?l" "interface_name (?l ! i) = name" by auto
    then have known: "name \<in> interface_name ` set ?l" by auto
    have r: "ret = UACPI_STATUS_ALREADY_EXISTS"
        "registered_interfaces x' = (if disabled (?l ! i) then ?l[i := (?l ! i)\<lparr>disabled := False\<rparr>] else ?l)"
      using assms(5) Some by (auto simp: uacpi_install_interface_def w install_body_def set_interface_def Let_def)
    have "map interface_name (?l[i := (?l ! i)\<lparr>disabled := False\<rparr>]) = map interface_name ?l"
      by (simp add: map_update) (metis i(1) length_map list_update_id nth_map)
    from names_ok_cong [OF this] have "names_ok (registered_interfaces x')" using r(2) assms(3) by simp
    moreover have "name \<in> supported x" if "\<not> disabled (?l ! i)"
      using that i by (auto simp: supported_def enabled_names_def)
    ultimately show ?thesis
      using r known set_disabled [OF assms(3) i(1), of False] i(2) by (auto simp: supported_def)
  qed
qed

lemma uninstall_supported:
  assumes "host_grants A H" and "interface_mutex x \<noteq> 0" and "names_ok (registered_interfaces x)" and "0 \<notin> set name"
    and "uacpi_uninstall_interface A H True name x s = (ret, x', s')"
  shows "names_ok (registered_interfaces x') \<and> supported x' = supported x - {name}
    \<and> (name \<in> supported x \<longrightarrow> ret = UACPI_STATUS_OK)
    \<and> (name \<notin> interface_name ` set (registered_interfaces x) \<longrightarrow> ret = UACPI_STATUS_NOT_FOUND)"
proof -
  note a = mutex_granted(1) [OF assms(1,2), where s = s]
  obtain r l f where u: "uninstall_loop name (registered_interfaces x) = (r, l, f)"
    by (cases "uninstall_loop name (registered_interfaces x)") auto
  from a u assms(5) have "ret = r" "registered_interfaces x' = l"
    by (auto simp: uacpi_uninstall_interface_def Let_def)
  with uninstall_loop_names [OF assms(3,4) u] show ?thesis by (simp add: supported_def)
qed

lemma osi_supported_answer:
  assumes "host_grants A H" and "interface_mutex x \<noteq> 0" and "names_ok (registered_interfaces x)" and "0 \<notin> set name"
    and "uacpi_handle_osi A name x s = ((ret, out), x', s')"
  shows "registered_interfaces x' = registered_interfaces x \<and> ret = UACPI_STATUS_OK
    \<and> (interface_handler x = None \<longrightarrow> out = Some (name \<in> supported x))
    \<and> (name \<notin> interface_name ` set (registered_interfaces x) \<longrightarrow> out = Some False)
    \<and> latest_queried_interface x \<le> latest_queried_interface x'
    \<and> (\<forall>i \<in> set (registered_interfaces x). interface_name i = name \<longrightarrow> ucast (weight i) \<le> latest_queried_interface x')"
proof -
  note a = mutex_granted(1) [OF assms(1,2), where s = s]
  note found = find_by_name [OF assms(3,4)]
  let ?l = "registered_interfaces x"
  show ?thesis
  proof (cases "find_interface_unlocked name ?l")
    case None
    with found(2) have "name \<notin> interface_name ` set ?l" by simp
    moreover from this have "name \<notin> supported x" using enabled_known by (auto simp: supported_def)
    ultimately show ?thesis using None a assms(5) by (auto simp: uacpi_handle_osi_def)
  next
    case (Some i)
    from found(1) [OF this] have i: "i < length ?l" "interface_name (?l ! i) = name" by auto
    have only: "j = ?l ! i" if "j \<in> set ?l" "interface_name j = name" for j
      using assms(3) that i by (auto simp: names_ok_def distinct_map dest!: inj_onD)
    then have "name \<in> supported x \<longleftrightarrow> \<not> disabled (?l ! i)"
      using i by (auto simp: supported_def enabled_names_def)
    moreover have "name \<in> interface_name ` set ?l" using i by auto
    ultimately show ?thesis
      using Some a assms(5) only
      by (auto simp: uacpi_handle_osi_def Let_def split: if_splits option.splits prod.splits del: imageE)
  qed
qed

lemma host_supported:
  assumes "host_grants A H" and "interface_mutex x \<noteq> 0" and "names_ok (registered_interfaces x)"
    and "configure_host_interface A True type b x s = (ret, x', s')"
  shows "names_ok (registered_interfaces x') \<and>
    (case find_host_interface_unlocked type (registered_interfaces x) of
       None \<Rightarrow> ret = UACPI_STATUS_NOT_FOUND \<and> supported x' = supported x
     | Some i \<Rightarrow> ret = UACPI_STATUS_OK \<and>
         supported x' = (if b then insert (interface_name (registered_interfaces x ! i)) (supported x)
                         else supported x - {interface_name (registered_interfaces x ! i)}))"
proof -
  let ?s1 = "snd (kernel_acquire_mutex A (interface_mutex x) 0xFFFF s)"
  note w = mutex_granted(2) [OF assms(1,2), where s = s]
  let ?l = "registered_interfaces x"
  show ?thesis
  proof (cases "find_host_interface_unlocked type ?l")
    case None then show ?thesis using assms(3,4) by (auto simp: configure_host_interface_def w)
  next
    case (Some i)
    from find_host_some [OF this] have i: "i < length ?l" by simp
    have r: "ret = UACPI_STATUS_OK" "registered_interfaces x' = ?l[i := (?l ! i)\<lparr>disabled := \<not> b\<rparr>]"
      using assms(4) Some by (auto simp: configure_host_interface_def w set_interface_def)
    have "map interface_name (?l[i := (?l ! i)\<lparr>disabled := \<not> b\<rparr>]) = map interface_name ?l"
      by (simp add: map_update) (metis i length_map list_update_id nth_map)
    from names_ok_cong [OF this] have "names_ok (registered_interfaces x')" using r(2) assms(3) by simp
    with r Some set_disabled [OF assms(3) i, of "\<not> b"] show ?thesis by (simp add: supported_def)
  qed
qed

lemma bulk_supported:
  assumes "host_grants A H" and "interface_mutex x \<noteq> 0" and "names_ok (registered_interfaces x)"
    and "uacpi_bulk_configure_interfaces A True action k x s = (ret, x', s')"
  shows "names_ok (registered_interfaces x') \<and> ret = UACPI_STATUS_OK \<and>
    supported x' = (let K = interface_name ` {i \<in> set (registered_interfaces x). k AND ucast (kind i) \<noteq> 0} in
      if action = UACPI_INTERFACE_ACTION_ENABLE then supported x \<union> K else supported x - K)"
proof -
  let ?s1 = "snd (kernel_acquire_mutex A (interface_mutex x) 0xFFFF s)"
  note w = mutex_granted(2) [OF assms(1,2), where s = s]
  have r: "ret = UACPI_STATUS_OK" "registered_interfaces x' = map (bulk_one action k) (registered_interfaces x)"
    using assms(4) by (auto simp: uacpi_bulk_configure_interfaces_def w)
  moreover have "names_ok (registered_interfaces x')"
    using names_ok_cong [OF bulk_names] assms(3) r(2) by metis
  ultimately show ?thesis using bulk_enabled [OF assms(3), of action k] by (simp add: supported_def Let_def)
qed

subsection \<open>The static array\<close>

text \<open>
  An entry as tearing down leaves it, and the array as tearing down now would leave it: no
  operation changes that.
\<close>

definition reset_interface :: "registered_interface \<Rightarrow> registered_interface" where
  "reset_interface i = i\<lparr>disabled := (kind i = UACPI_INTERFACE_KIND_FEATURE)\<rparr>"

definition static_part :: "registered_interface list \<Rightarrow> registered_interface list" where
  "static_part l = map reset_interface (filter (\<lambda>i. \<not> dynamic i) l)"

definition array_after :: "'s osi_state \<Rightarrow> registered_interface list" where
  "array_after x = static_part (registered_interfaces x)
     @ drop (length (static_part (registered_interfaces x))) (predefined_interfaces x)"

lemma static_part_map: "static_part l = filter (\<lambda>i. \<not> dynamic i) (map reset_interface l)"
  by (simp add: static_part_def filter_map comp_def reset_interface_def)

lemma static_part_cong: "map reset_interface l' = map reset_interface l \<Longrightarrow> static_part l' = static_part l"
  by (simp add: static_part_map)

lemma static_part_update:
  assumes "reset_interface v = reset_interface (l ! i)"
  shows "static_part (l[i := v]) = static_part l"
proof (rule static_part_cong)
  show "map reset_interface (l[i := v]) = map reset_interface l"
  proof (cases "i < length l")
    case True
    then show ?thesis by (simp add: map_update assms) (metis length_map list_update_id nth_map)
  qed (simp add: list_update_beyond)
qed

lemma deinitialize_loop_kept: "fst (deinitialize_loop H l s) = static_part l"
  by (induction l arbitrary: s) (simp_all add: static_part_def reset_interface_def case_prod_beta')

lemma uninstall_loop_static: "static_part (fst (snd (uninstall_loop name l))) = static_part l"
  by (induction l) (auto simp: static_part_def reset_interface_def split: prod.splits)

lemma deinitialize_array:
  "uacpi_deinitialize_interfaces A H x s = (x', s') \<Longrightarrow>
     predefined_interfaces x' = array_after x \<and> registered_interfaces x' = [] \<and> interface_mutex x' = 0
   \<and> interface_handler x' = None \<and> latest_queried_interface x' = 0"
  using deinitialize_loop_kept [of H "registered_interfaces x" s]
  by (auto simp: uacpi_deinitialize_interfaces_def array_after_def Let_def split: prod.splits)

text \<open>The calls a driver can make between the two, in any order and with any outcome.\<close>

datatype 's osi_call =
    Install "u8 list" u32 | Uninstall "u8 list" | Configure_Host u32 bool
  | Set_Handler "(u8 list \<Rightarrow> bool \<Rightarrow> 's \<Rightarrow> bool \<times> 's) option"
  | Bulk uacpi_interface_action u32 | Query "u8 list"

fun osi_do :: "'s lock_api \<Rightarrow> 's heap_api \<Rightarrow> 's osi_call \<Rightarrow> 's osi_state \<times> 's \<Rightarrow> 's osi_state \<times> 's" where
  "osi_do A H (Install name k) (x, s) = snd (uacpi_install_interface A H True name k x s)"
| "osi_do A H (Uninstall name) (x, s) = snd (uacpi_uninstall_interface A H True name x s)"
| "osi_do A H (Configure_Host type enabled) (x, s) =
     snd (if enabled then uacpi_enable_host_interface A True type x s else uacpi_disable_host_interface A True type x s)"
| "osi_do A H (Set_Handler handler) (x, s) = snd (uacpi_set_interface_query_handler A True handler x s)"
| "osi_do A H (Bulk action k) (x, s) = snd (uacpi_bulk_configure_interfaces A True action k x s)"
| "osi_do A H (Query name) (x, s) = snd (uacpi_handle_osi A name x s)"

lemma with_mutex_array:
  assumes "\<And>s. array_after (fst (snd (body x s))) = array_after x"
  shows "array_after (fst (snd (with_interface_mutex A body x s))) = array_after x"
proof -
  obtain ret s1 where "uacpi_acquire_native_mutex A (interface_mutex x) s = (ret, s1)" by fastforce
  moreover obtain r x2 s2 where "body x s1 = (r, x2, s2)" by (metis prod_cases3)
  ultimately show ?thesis using assms [of s1] by (simp add: with_interface_mutex_def)
qed

lemma array_after_registered:
  "static_part l = static_part (registered_interfaces x) \<Longrightarrow>
     array_after (x\<lparr>registered_interfaces := l\<rparr>) = array_after x"
  by (simp add: array_after_def)

lemma array_after_other [simp]:
  "array_after (x\<lparr>interface_handler := h\<rparr>) = array_after x"
  "array_after (x\<lparr>latest_queried_interface := v\<rparr>) = array_after x"
  by (simp_all add: array_after_def)

lemma array_after_set_disabled [simp]:
  "array_after (set_interface i ((registered_interfaces x ! i)\<lparr>disabled := b\<rparr>) x) = array_after x"
  unfolding set_interface_def by (intro array_after_registered static_part_update) (simp add: reset_interface_def)

lemma osi_do_array: "array_after (fst (osi_do A H c (x, s))) = array_after x"
proof (cases c)
  case (Install name k)
  have "array_after (fst (snd (install_body H name k x s))) = array_after x" for s
    by (auto simp: install_body_def Let_def static_part_def intro!: array_after_registered split: option.splits prod.splits)
  then show ?thesis using with_mutex_array [where body = "install_body H name k"]
    by (simp add: Install uacpi_install_interface_def)
next
  case (Uninstall name)
  have "static_part l = static_part (registered_interfaces x)"
    if "uninstall_loop name (registered_interfaces x) = (ret, l, freed)" for ret l freed
    using uninstall_loop_static [of name "registered_interfaces x"] that by simp
  then show ?thesis
    by (auto simp: Uninstall uacpi_uninstall_interface_def Let_def intro!: array_after_registered split: prod.splits)
next
  case (Configure_Host type enabled)
  have "array_after (fst (snd (configure_host_interface A True type b x s))) = array_after x" for b
    unfolding configure_host_interface_def by (auto intro!: with_mutex_array split: option.splits)
  then show ?thesis
    by (simp add: Configure_Host uacpi_enable_host_interface_def uacpi_disable_host_interface_def)
next
  case (Set_Handler handler)
  show ?thesis
    unfolding Set_Handler by (auto simp: uacpi_set_interface_query_handler_def intro!: with_mutex_array)
next
  case (Bulk action k)
  have "static_part (map (bulk_one action k) l) = static_part l" for l
    by (rule static_part_cong) (simp add: bulk_one_def reset_interface_def)
  then show ?thesis
    unfolding Bulk by (auto simp: uacpi_bulk_configure_interfaces_def intro!: with_mutex_array array_after_registered)
next
  case (Query name)
  show ?thesis
    unfolding Query by (auto simp: uacpi_handle_osi_def Let_def split: option.splits prod.splits if_splits)
qed

lemma osi_calls_array: "array_after (fst (fold (osi_do A H) cs (x, s))) = array_after x"
proof (induction cs arbitrary: x s)
  case (Cons c cs)
  obtain x1 s1 where "osi_do A H c (x, s) = (x1, s1)" by fastforce
  with Cons [of x1 s1] osi_do_array [of A H c x s] show ?case by simp
qed simp

text \<open>The array as it is compiled in.\<close>

lemma predefined_table_reset: "static_part predefined_table = predefined_table"
  by (simp add: static_part_def predefined_table_def WINDOWS_def HOST_FEATURE_def reset_interface_def
      UACPI_INTERFACE_KIND_FEATURE_def UACPI_INTERFACE_KIND_VENDOR_def)

lemma predefined_table_names: "names_ok predefined_table"
  by (simp add: names_ok_def predefined_table_def WINDOWS_def HOST_FEATURE_def sig_def)

lemma initialize_array:
  assumes "predefined_interfaces x = predefined_table"
  shows "array_after (fst (snd (uacpi_initialize_interfaces A x s))) = predefined_table"
proof -
  have "static_part (take 1 predefined_table) = take 1 predefined_table"
    using arg_cong [OF predefined_table_reset, of "take 1"]
    by (simp add: static_part_def predefined_table_def WINDOWS_def)
  moreover have "length (take 1 predefined_table) = 1" by (simp add: predefined_table_def)
  ultimately show ?thesis
    using assms predefined_table_reset append_take_drop_id [of 1 predefined_table]
    by (auto simp: uacpi_initialize_interfaces_def array_after_def Let_def split: prod.splits)
qed

section \<open>Properties\<close>

lemma triple: "r = (fst r, fst (snd r), snd (snd r))"
  by simp

lemma answer_triple: "r = ((fst (fst r), snd (fst r)), fst (snd r), snd (snd r))"
  by simp

text \<open>C28: the interfaces as a set of names.  On a host that grants the mutex and the memory
  the operations of \<^verbatim>\<open>osi.c\<close> act on the set of supported names: installing inserts a name
  (reporting one that is known already as existing), uninstalling removes it, a host interface
  and a bulk action enable or disable the names they select, and \<open>_OSI\<close> answers with
  membership while no handler is set, raising the latest queried interface to the name's weight.
  A name that is not in the list is answered with no, without asking the handler.
  The names stay distinct and free of terminators.\<close>

theorem osi_supported:
  assumes "host_grants A H" and "interface_mutex x \<noteq> 0" and "names_ok (registered_interfaces x)" and "0 \<notin> set name"
  shows "(case uacpi_install_interface A H True name k x s of (ret, x', s') \<Rightarrow>
            names_ok (registered_interfaces x') \<and> supported x' = insert name (supported x)
          \<and> ret = (if name \<in> interface_name ` set (registered_interfaces x)
                   then UACPI_STATUS_ALREADY_EXISTS else UACPI_STATUS_OK))
    \<and> (case uacpi_uninstall_interface A H True name x s of (ret, x', s') \<Rightarrow>
            names_ok (registered_interfaces x') \<and> supported x' = supported x - {name}
          \<and> (name \<in> supported x \<longrightarrow> ret = UACPI_STATUS_OK)
          \<and> (name \<notin> interface_name ` set (registered_interfaces x) \<longrightarrow> ret = UACPI_STATUS_NOT_FOUND))
    \<and> (case configure_host_interface A True type b x s of (ret, x', s') \<Rightarrow>
            names_ok (registered_interfaces x')
          \<and> (case find_host_interface_unlocked type (registered_interfaces x) of
               None \<Rightarrow> ret = UACPI_STATUS_NOT_FOUND \<and> supported x' = supported x
             | Some i \<Rightarrow> ret = UACPI_STATUS_OK
                 \<and> supported x' = (if b then insert (interface_name (registered_interfaces x ! i)) (supported x)
                                   else supported x - {interface_name (registered_interfaces x ! i)})))
    \<and> (case uacpi_bulk_configure_interfaces A True action k x s of (ret, x', s') \<Rightarrow>
            names_ok (registered_interfaces x') \<and> ret = UACPI_STATUS_OK
          \<and> supported x' = (let K = interface_name ` {i \<in> set (registered_interfaces x). k AND ucast (kind i) \<noteq> 0} in
              if action = UACPI_INTERFACE_ACTION_ENABLE then supported x \<union> K else supported x - K))
    \<and> (case uacpi_handle_osi A name x s of ((ret, out), x', s') \<Rightarrow>
            registered_interfaces x' = registered_interfaces x \<and> ret = UACPI_STATUS_OK
          \<and> (interface_handler x = None \<longrightarrow> out = Some (name \<in> supported x))
          \<and> (name \<notin> interface_name ` set (registered_interfaces x) \<longrightarrow> out = Some False)
          \<and> latest_queried_interface x \<le> latest_queried_interface x'
          \<and> (\<forall>i \<in> set (registered_interfaces x). interface_name i = name \<longrightarrow>
               ucast (weight i) \<le> latest_queried_interface x'))"
proof -
  note 1 = install_supported [OF assms triple, of k s] and 2 = uninstall_supported [OF assms triple, of s]
    and 3 = host_supported [OF assms(1-3) triple, of type b s] and 4 = bulk_supported [OF assms(1-3) triple, of action k s]
    and 5 = osi_supported_answer [OF assms answer_triple, of s]
  show ?thesis unfolding case_prod_beta' by (intro conjI 1 2 3 4 5)
qed

text \<open>A host that grants everything, and the interfaces once initialised.\<close>

definition osi_start :: "string list osi_state" where
  "osi_start = \<lparr>interface_mutex = 9, registered_interfaces = predefined_table,
     predefined_interfaces = predefined_table, interface_handler = None, latest_queried_interface = 0\<rparr>"

definition example_heap :: "string list heap_api" where
  "example_heap = \<lparr>kernel_alloc = (\<lambda>n s. (1, s)), kernel_free = (\<lambda>p s. s)\<rparr>"

theorem osi_supported_witness:
  "sig ''Windows 2015'' \<in> supported osi_start
   \<and> snd (fst (uacpi_handle_osi example_locks (sig ''Windows 2015'') osi_start [])) = Some True
   \<and> sig ''Linux'' \<in> supported (fst (snd (uacpi_install_interface example_locks example_heap True (sig ''Linux'') 2 osi_start [])))"
proof -
  have g: "host_grants example_locks example_heap"
    by (simp add: host_grants_def example_locks_def example_heap_def)
  have n: "names_ok (registered_interfaces osi_start)" and m: "interface_mutex osi_start \<noteq> 0"
      and h: "interface_handler osi_start = None"
    by (simp_all add: osi_start_def predefined_table_names)
  have w: "sig ''Windows 2015'' \<in> supported osi_start"
    by (simp add: osi_start_def supported_def enabled_Cons predefined_table_def WINDOWS_def)
  have z: "0 \<notin> set (sig ''Windows 2015'')" "0 \<notin> set (sig ''Linux'')" by (simp_all add: sig_def)
  from osi_supported [OF g m n z(1), where s = "[]"] w h
  have "snd (fst (uacpi_handle_osi example_locks (sig ''Windows 2015'') osi_start [])) = Some True"
    by (simp add: case_prod_beta')
  moreover from osi_supported [OF g m n z(2), where s = "[]" and k = 2]
  have "sig ''Linux'' \<in> supported (fst (snd (uacpi_install_interface example_locks example_heap True (sig ''Linux'') 2 osi_start [])))"
    by (simp add: case_prod_beta')
  ultimately show ?thesis using w by simp
qed

text \<open>C29: tearing down undoes everything.  After \<open>uacpi_initialize_interfaces\<close>, whether or not it
  could create its mutex, and any calls with any outcomes on any host,
  \<open>uacpi_deinitialize_interfaces\<close> leaves the static array exactly as it was compiled in, so that
  a second initialisation starts from the same interfaces as the first.\<close>

theorem osi_teardown:
  assumes "predefined_interfaces x = predefined_table"
    and "uacpi_initialize_interfaces A x s = (ret, x1, s1)" and "fold (osi_do A H) calls (x1, s1) = (x2, s2)"
    and "uacpi_deinitialize_interfaces A H x2 s2 = (x3, s3)"
  shows "predefined_interfaces x3 = predefined_table \<and> registered_interfaces x3 = [] \<and> interface_mutex x3 = 0
    \<and> interface_handler x3 = None \<and> uacpi_latest_queried_vendor_interface x3 = 0"
  using initialize_array [OF assms(1), of A s] assms(2) osi_calls_array [of A H calls x1 s1] assms(3)
    deinitialize_array [OF assms(4)] by (simp add: uacpi_latest_queried_vendor_interface_def)

theorem osi_teardown_witness:
  "(case fold (osi_do example_locks example_heap) [Uninstall (sig ''Windows 2015''), Configure_Host 2 True]
       (snd (uacpi_initialize_interfaces example_locks osi_start [])) of (x2, s2) \<Rightarrow>
     predefined_interfaces (fst (uacpi_deinitialize_interfaces example_locks example_heap x2 s2))) = predefined_table"
proof -
  have "predefined_interfaces osi_start = predefined_table" by (simp add: osi_start_def)
  moreover obtain ret x1 s1 where i: "uacpi_initialize_interfaces example_locks osi_start [] = (ret, x1, s1)" by (metis prod_cases3)
  moreover obtain x2 s2 where f: "fold (osi_do example_locks example_heap)
      [Uninstall (sig ''Windows 2015''), Configure_Host 2 True] (x1, s1) = (x2, s2)" by (metis surj_pair)
  moreover obtain x3 s3 where d: "uacpi_deinitialize_interfaces example_locks example_heap x2 s2 = (x3, s3)" by fastforce
  ultimately have "predefined_interfaces x3 = predefined_table"
    using osi_teardown [of osi_start example_locks "[]" ret x1 s1 example_heap
        "[Uninstall (sig ''Windows 2015''), Configure_Host 2 True]" x2 s2 x3 s3] by blast
  with i f d show ?thesis by (simp del: fold_simps)
qed

end
