(* ===== verification/Bit_Field.thy ===== *)
theory Bit_Field
  imports Stdlib "HOL-Library.Monad_Syntax"
begin

text \<open>
  Bits across bytes: the first part of \<^verbatim>\<open>src/kern/acpi/io.c\<close>, which copies runs of bits
  between byte arrays and reads and writes AML buffer fields with it.  An array is a list of
  bytes; reading or writing outside it has no result.  Bit numbers and lengths, 64-bit in the
  code, are natural numbers: they number bits of objects in memory and do not wrap.  This file is
  not part of the bare-bones build.
\<close>

section \<open>Arrays\<close>

definition get_byte :: "u8 list \<Rightarrow> nat \<Rightarrow> u8 option" where
  "get_byte d i = (if i < length d then Some (d ! i) else None)"

definition put_byte :: "u8 list \<Rightarrow> nat \<Rightarrow> u8 \<Rightarrow> u8 list option" where
  "put_byte d i v = (if i < length d then Some (d[i := v]) else None)"

text \<open>\<open>uacpi_memcpy\<close> and \<open>uacpi_memcpy_zerout\<close> between two arrays, from a position of the
  source to a position of the destination.\<close>

definition array_memcpy :: "u8 list \<Rightarrow> nat \<Rightarrow> u8 list \<Rightarrow> nat \<Rightarrow> nat \<Rightarrow> u8 list option" where
  "array_memcpy dst i src j n =
     (if i + n \<le> length dst \<and> j + n \<le> length src
      then Some (take i dst @ take n (drop j src) @ drop (i + n) dst) else None)"

definition array_memcpy_zerout :: "u8 list \<Rightarrow> nat \<Rightarrow> u8 list \<Rightarrow> nat \<Rightarrow> nat \<Rightarrow> u8 list option" where
  "array_memcpy_zerout dst i src dst_size src_size =
     (let n = (if src_size < dst_size then src_size else dst_size) in
      if i + dst_size \<le> length dst then
        do { dst \<leftarrow> array_memcpy dst i src 0 n;
             Some (take (i + n) dst @ replicate (dst_size - n) 0 @ drop (i + dst_size) dst) }
      else None)"

section \<open>Copying bits\<close>

definition uacpi_round_up_bits_to_bytes :: "nat \<Rightarrow> nat" where
  "uacpi_round_up_bits_to_bytes bit_length = (bit_length + 7) div 8"

definition cut_misaligned_tail :: "u8 list \<Rightarrow> nat \<Rightarrow> nat \<Rightarrow> u8 list option" where
  "cut_misaligned_tail d offset bit_length =
     (let remainder = bit_length mod 8 in
      if remainder = 0 then Some d
      else do { b \<leftarrow> get_byte d offset; put_byte d offset (b AND (push_bit remainder 1 - 1)) })"

record bit_span =
  span_data :: "u8 list"
  span_index :: nat
  span_length :: nat

definition bit_span_offset :: "bit_span \<Rightarrow> nat \<Rightarrow> nat \<times> bit_span" where
  "bit_span_offset span bits =
     (let delta = min (span_length span) bits in
      (delta, span\<lparr>span_index := span_index span + delta, span_length := span_length span - delta\<rparr>))"

text \<open>What one round of \<open>bit_copy\<close> takes from the source: the bits, the pointer and the count
  afterwards.\<close>

definition copy_take :: "u8 list \<Rightarrow> nat \<Rightarrow> nat \<Rightarrow> nat \<Rightarrow> (u8 \<times> nat \<times> nat) option" where
  "copy_take src src_shift src_ptr src_count =
     (if src_count = 0 then Some (0, src_ptr, src_count)
      else do {
        b \<leftarrow> get_byte src src_ptr;
        let bits = drop_bit src_shift b;
        bits \<leftarrow> (if src_shift \<noteq> 0 \<and> src_count > 8 - src_shift
                then map_option (\<lambda>c. bits OR push_bit (8 - src_shift) c) (get_byte src (src_ptr + 1))
                else Some bits);
        Some (if src_count < 8 then (bits AND (push_bit src_count 1 - 1), src_ptr, 0)
              else (bits, src_ptr + 1, src_count - 8)) })"

text \<open>What it does to the destination.\<close>

definition copy_put :: "u8 list \<Rightarrow> nat \<Rightarrow> nat \<Rightarrow> nat \<Rightarrow> u8 \<Rightarrow> u8 list option" where
  "copy_put dst dst_shift dst_ptr dst_count bits =
     (let dst_mask = push_bit dst_shift (if dst_count < 8 then push_bit dst_count 1 - 1 else 0xFF) :: u16 in
      do {
        d \<leftarrow> get_byte dst dst_ptr;
        dst \<leftarrow> put_byte dst dst_ptr
          (ucast ((ucast d AND NOT dst_mask) OR (push_bit dst_shift (ucast bits) AND dst_mask)));
        if dst_shift \<noteq> 0 \<and> dst_count > 8 - dst_shift then
          do { let dst_mask = drop_bit 8 dst_mask;
               d \<leftarrow> get_byte dst (dst_ptr + 1);
               put_byte dst (dst_ptr + 1)
                 (ucast ((ucast d AND NOT dst_mask) OR (ucast (drop_bit (8 - dst_shift) bits) AND dst_mask))) }
        else Some dst })"

fun bit_copy_loop ::
  "u8 list \<Rightarrow> nat \<Rightarrow> nat \<Rightarrow> u8 list \<Rightarrow> nat \<Rightarrow> nat \<Rightarrow> nat \<Rightarrow> nat \<Rightarrow> u8 list option" where
  "bit_copy_loop src src_shift dst_shift dst dst_ptr src_ptr dst_count src_count =
     (if dst_count = 0 then Some dst
      else do {
        (bits, src_ptr, src_count) \<leftarrow> copy_take src src_shift src_ptr src_count;
        dst \<leftarrow> copy_put dst dst_shift dst_ptr dst_count bits;
        bit_copy_loop src src_shift dst_shift dst (dst_ptr + 1) src_ptr
          (if dst_count > 8 then dst_count - 8 else 0) src_count })"

declare bit_copy_loop.simps [simp del]

definition bit_copy :: "bit_span \<Rightarrow> bit_span \<Rightarrow> bit_span option" where
  "bit_copy dst src =
     map_option (\<lambda>d. dst\<lparr>span_data := d\<rparr>)
       (bit_copy_loop (span_data src) (span_index src mod 8) (span_index dst mod 8) (span_data dst)
          (span_index dst div 8) (span_index src div 8) (span_length dst) (span_length src))"

section \<open>Buffer fields\<close>

text \<open>The buffer's bytes stand for the pointer to it; \<open>force_buffer\<close> only matters to the
  interpreter.\<close>

record uacpi_buffer_field =
  backing :: "u8 list"
  bit_index :: nat
  bit_length :: nat

definition do_misaligned_buffer_read :: "uacpi_buffer_field \<Rightarrow> u8 list \<Rightarrow> u8 list option" where
  "do_misaligned_buffer_read field dst =
     map_option span_data
       (bit_copy \<lparr>span_data = dst, span_index = 0,
                  span_length = uacpi_round_up_bits_to_bytes (bit_length field) * 8\<rparr>
                 \<lparr>span_data = backing field, span_index = bit_index field, span_length = bit_length field\<rparr>)"

definition uacpi_read_buffer_field :: "uacpi_buffer_field \<Rightarrow> u8 list \<Rightarrow> u8 list option" where
  "uacpi_read_buffer_field field dst =
     (if bit_index field mod 8 = 0 then
        do { let count = uacpi_round_up_bits_to_bytes (bit_length field);
             dst \<leftarrow> array_memcpy dst 0 (backing field) (bit_index field div 8) count;
             cut_misaligned_tail dst (count - 1) (bit_length field) }
      else do_misaligned_buffer_read field dst)"

definition do_write_misaligned_buffer_field :: "uacpi_buffer_field \<Rightarrow> u8 list \<Rightarrow> nat \<Rightarrow> uacpi_buffer_field option" where
  "do_write_misaligned_buffer_field field src sz =
     map_option (\<lambda>s. field\<lparr>backing := span_data s\<rparr>)
       (bit_copy \<lparr>span_data = backing field, span_index = bit_index field, span_length = bit_length field\<rparr>
                 \<lparr>span_data = src, span_index = 0, span_length = sz * 8\<rparr>)"

text \<open>
  For an aligned field of no bits the code reads the byte before its first, which at the start
  of the buffer is outside.
\<close>

definition uacpi_write_buffer_field :: "uacpi_buffer_field \<Rightarrow> u8 list \<Rightarrow> nat \<Rightarrow> uacpi_buffer_field option" where
  "uacpi_write_buffer_field field src sz =
     (if bit_index field mod 8 = 0 then
        do { let dst = bit_index field div 8;
             let count = uacpi_round_up_bits_to_bytes (bit_length field);
             last_byte \<leftarrow> (if dst + count = 0 then None else get_byte (backing field) (dst + count - 1));
             let tail_shift = bit_length field mod 8;
             d \<leftarrow> array_memcpy_zerout (backing field) dst src count sz;
             if tail_shift \<noteq> 0 then
               do { let last_shift = 8 - tail_shift;
                    b \<leftarrow> get_byte d (dst + count - 1);
                    let b = push_bit last_shift b;
                    let b = drop_bit last_shift b;
                    let b = b OR push_bit tail_shift (drop_bit tail_shift last_byte);
                    d \<leftarrow> put_byte d (dst + count - 1) b;
                    Some (field\<lparr>backing := d\<rparr>) }
             else Some (field\<lparr>backing := d\<rparr>) }
      else do_write_misaligned_buffer_field field src sz)"

section \<open>Lemmas\<close>

text \<open>The bits of an array, numbered through.\<close>

definition bit_at :: "u8 list \<Rightarrow> nat \<Rightarrow> bool" where
  "bit_at d i \<longleftrightarrow> bit (d ! (i div 8)) (i mod 8)"

lemma bit_at_byte: "k < 8 \<Longrightarrow> bit_at d (8 * p + k) = bit (d ! p) k"
  by (simp add: bit_at_def)

lemma bit_at_update:
  "p < length d \<Longrightarrow> bit_at (d[p := v]) i = (if i div 8 = p then bit v (i mod 8) else bit_at d i)"
  by (simp add: bit_at_def)

lemma byte_bits: "bit (v :: u8) k \<Longrightarrow> k < 8"
  using bit_imp_le_length [of v k] by simp

lemma word_bits: "bit (v :: u16) k \<Longrightarrow> k < 16"
  using bit_imp_le_length [of v k] by simp

lemma low_mask_u8: "bit (2 ^ n - 1 :: u8) k \<longleftrightarrow> k < n \<and> k < 8"
proof -
  have "2 ^ n - 1 = (mask n :: u8)" by (simp add: mask_eq_exp_minus_1)
  moreover have "bit (mask n :: u8) k \<longleftrightarrow> k < n \<and> k < LENGTH(8)" by (auto simp: bit_mask_iff)
  ultimately show ?thesis by simp
qed

lemma low_mask_u16: "bit (push_bit n 1 - 1 :: u16) k \<longleftrightarrow> k < n \<and> k < 16"
proof -
  have "push_bit n 1 - 1 = (mask n :: u16)" by (simp add: mask_eq_exp_minus_1)
  moreover have "bit (mask n :: u16) k \<longleftrightarrow> k < n \<and> k < LENGTH(16)" by (auto simp: bit_mask_iff)
  ultimately show ?thesis by simp
qed

lemma full_mask_u16: "bit (0xFF :: u16) k \<longleftrightarrow> k < 8"
proof -
  have "(0xFF :: u16) = mask 8" by (simp add: mask_eq_exp_minus_1)
  moreover have "bit (mask 8 :: u16) k \<longleftrightarrow> k < 8" by (auto simp: bit_mask_iff)
  ultimately show ?thesis by simp
qed

lemma copy_take_bits:
  assumes "sh < 8" and "8 * p + sh + c \<le> 8 * length src"
  shows "\<exists>bits. copy_take src sh p c = Some (bits, if c \<ge> 8 then p + 1 else p, c - 8)
    \<and> (\<forall>k < 8. bit bits k = (k < c \<and> bit_at src (8 * p + sh + k)))"
proof (cases "c = 0")
  case True then show ?thesis by (auto simp: copy_take_def)
next
  case False
  with assms have p: "p < length src" by auto
  let ?two = "sh \<noteq> 0 \<and> c > 8 - sh"
  have p1: "p + 1 < length src" if ?two using assms that by auto
  define bits where "bits = (if ?two then drop_bit sh (src ! p) OR push_bit (8 - sh) (src ! (p + 1)) else drop_bit sh (src ! p))"
  have raw: "bit bits k = bit_at src (8 * p + sh + k)" if "k < 8" "k < c" for k
  proof (cases "sh + k < 8")
    case True
    then have "bit_at src (8 * p + sh + k) = bit (src ! p) (sh + k)" using bit_at_byte [of "sh + k" src p] by (simp add: ac_simps)
    with True that show ?thesis by (auto simp: bits_def bit_simps)
  next
    case over: False
    then have two: ?two using that by auto
    have lt: "sh + k - 8 < 8" and "8 * p + sh + k = 8 * (p + 1) + (sh + k - 8)" using over assms(1) that(1) by auto
    then have "bit_at src (8 * p + sh + k) = bit (src ! (p + 1)) (sh + k - 8)"
      by (simp only: bit_at_byte [OF lt])
    moreover have "\<not> bit (src ! p) (sh + k)" using over byte_bits by blast
    moreover have "sh + k - 8 = k - (8 - sh)" "8 - sh \<le> k" using over assms(1) by auto
    ultimately show ?thesis using two that(1)
      by (simp add: bits_def bit_or_iff bit_drop_bit_eq bit_push_bit_iff)
  qed
  have "copy_take src sh p c = Some (if c < 8 then (bits AND (push_bit c 1 - 1), p, 0) else (bits, p + 1, c - 8))"
    using False p p1 by (simp add: copy_take_def get_byte_def bits_def)
  then show ?thesis
    using raw by (cases "c < 8") (auto simp: bit_and_iff low_mask_u8)
qed

lemma copy_put_bits:
  assumes "sh < 8" and "0 < c" and "8 * p + sh + c \<le> 8 * length dst"
  shows "\<exists>dst'. copy_put dst sh p c bits = Some dst' \<and> length dst' = length dst
    \<and> (\<forall>i. bit_at dst' i = (if 8 * p + sh \<le> i \<and> i < 8 * p + sh + min 8 c
                           then bit bits (i - (8 * p + sh)) else bit_at dst i))"
proof -
  from assms have p: "p < length dst" by auto
  let ?two = "sh \<noteq> 0 \<and> c > 8 - sh"
  have p1: "p + 1 < length dst" if ?two using assms that by auto
  define m where "m = (push_bit sh (if c < 8 then push_bit c 1 - 1 else 0xFF) :: u16)"
  have m: "bit m k = (sh \<le> k \<and> k < sh + min 8 c)" for k
  proof -
    have "bit (if c < 8 then push_bit c 1 - 1 else 0xFF :: u16) j = (j < min 8 c)" for j
    proof (cases "c < 8")
      case True
      have "bit (push_bit c 1 - 1 :: u16) j \<longleftrightarrow> j < c" using low_mask_u16 [of c j] True by auto
      with True show ?thesis by (simp only: if_True min.absorb2 order_less_imp_le)
    next
      case False
      then have "min 8 c = 8" by simp
      with False show ?thesis by (simp only: if_False full_mask_u16)
    qed
    note this [of "k - sh"]
    then show ?thesis using assms(1) unfolding m_def bit_push_bit_iff by auto
  qed
  define lo where "lo = (ucast ((ucast (dst ! p) AND NOT m) OR (push_bit sh (ucast bits) AND m)) :: u8)"
  define hi where "hi = (ucast ((ucast (dst ! (p + 1)) AND NOT (drop_bit 8 m))
      OR (ucast (drop_bit (8 - sh) bits) AND drop_bit 8 m)) :: u8)"
  have lo: "bit lo k = (if sh \<le> k \<and> k < sh + c then bit bits (k - sh) else bit (dst ! p) k)" if "k < 8" for k
    using that assms(1) by (auto simp: lo_def bit_simps m)
  have hi: "bit hi k = (if k + 8 < sh + min 8 c then bit bits (k + 8 - sh) else bit (dst ! (p + 1)) k)" if "k < 8" for k
  proof -
    have "8 - sh + k = k + 8 - sh" using assms(1) by simp
    with that assms(1) show ?thesis by (auto simp: hi_def bit_simps m)
  qed
  have put: "copy_put dst sh p c bits = Some (if ?two then dst[p := lo, p + 1 := hi] else dst[p := lo])"
    using p p1 by (auto simp: copy_put_def get_byte_def put_byte_def lo_def hi_def m_def Let_def)
  have "bit_at (if ?two then dst[p := lo, p + 1 := hi] else dst[p := lo]) i
      = (if 8 * p + sh \<le> i \<and> i < 8 * p + sh + min 8 c then bit bits (i - (8 * p + sh)) else bit_at dst i)" for i
  proof -
    define k where "k = i mod 8"
    have k: "k < 8" by (simp add: k_def)
    have i: "i = 8 * (i div 8) + k" by (simp add: k_def)
    consider "i div 8 = p" | "i div 8 = p + 1" | "i div 8 < p" | "i div 8 > p + 1" by linarith
    then show ?thesis
    proof cases
      case 1
      then have "bit_at (if ?two then dst[p := lo, p + 1 := hi] else dst[p := lo]) i = bit lo k"
        using p p1 by (auto simp: bit_at_def k_def)
      moreover have "bit_at dst i = bit (dst ! p) k" using 1 by (simp add: bit_at_def k_def)
      moreover have "i = 8 * p + k" using i 1 by simp
      ultimately show ?thesis using lo [OF k] k assms(1) by auto
    next
      case 2
      then have "bit_at (if ?two then dst[p := lo, p + 1 := hi] else dst[p := lo]) i
          = (if ?two then bit hi k else bit (dst ! (p + 1)) k)"
        using p p1 by (auto simp: bit_at_def k_def)
      moreover have "bit_at dst i = bit (dst ! (p + 1)) k" using 2 by (simp add: bit_at_def k_def)
      moreover have "i = 8 * p + (k + 8)" using i 2 by simp
      ultimately show ?thesis using hi [OF k] k assms(1) by auto
    next
      case 3
      with i k have "i < 8 * p" by linarith
      with 3 p p1 show ?thesis by (auto simp: bit_at_def)
    next
      case 4
      with i have "8 * p + 16 \<le> i" by linarith
      with 4 p p1 assms(1) show ?thesis by (auto simp: bit_at_def)
    qed
  qed
  with put show ?thesis by (intro exI [of _ "if ?two then dst[p := lo, p + 1 := hi] else dst[p := lo]"]) simp
qed

lemma bit_copy_loop_bits:
  assumes "ssh < 8" and "dsh < 8" and "8 * sp + ssh + sc \<le> 8 * length src" and "8 * p + dsh + c \<le> 8 * length dst"
  shows "\<exists>dst'. bit_copy_loop src ssh dsh dst p sp c sc = Some dst' \<and> length dst' = length dst
    \<and> (\<forall>i. bit_at dst' i = (if 8 * p + dsh \<le> i \<and> i < 8 * p + dsh + c
          then i - (8 * p + dsh) < sc \<and> bit_at src (8 * sp + ssh + (i - (8 * p + dsh))) else bit_at dst i))"
  using assms
proof (induction c arbitrary: dst p sp sc rule: less_induct)
  case (less c)
  show ?case
  proof (cases "c = 0")
    case True then show ?thesis by (auto simp: bit_copy_loop.simps)
  next
    case False
    obtain bits where t: "copy_take src ssh sp sc = Some (bits, if sc \<ge> 8 then sp + 1 else sp, sc - 8)"
      and bits: "\<forall>k < 8. bit bits k = (k < sc \<and> bit_at src (8 * sp + ssh + k))"
      using copy_take_bits [OF less.prems(1,3)] by blast
    obtain d where d: "copy_put dst dsh p c bits = Some d" "length d = length dst"
      and dbits: "\<forall>i. bit_at d i = (if 8 * p + dsh \<le> i \<and> i < 8 * p + dsh + min 8 c
                           then bit bits (i - (8 * p + dsh)) else bit_at dst i)"
      using copy_put_bits [OF less.prems(2) _ less.prems(4), of bits] False by auto
    let ?sp = "if sc \<ge> 8 then sp + 1 else sp"
    have "8 * ?sp + ssh + (sc - 8) \<le> 8 * length src" using less.prems(3) by auto
    moreover have "8 * (p + 1) + dsh + (c - 8) \<le> 8 * length d \<or> c \<le> 8" using less.prems(4) d(2) by auto
    ultimately obtain dst' where r: "bit_copy_loop src ssh dsh d (p + 1) ?sp (c - 8) (sc - 8) = Some dst'"
        "length dst' = length d"
      and rbits: "\<forall>i. bit_at dst' i = (if 8 * (p + 1) + dsh \<le> i \<and> i < 8 * (p + 1) + dsh + (c - 8)
          then i - (8 * (p + 1) + dsh) < sc - 8 \<and> bit_at src (8 * ?sp + ssh + (i - (8 * (p + 1) + dsh))) else bit_at d i)"
    proof (cases "c \<le> 8")
      case True
      show ?thesis by (rule that [of d]) (auto simp: True bit_copy_loop.simps)
    next
      case big: False
      have "c - 8 < c" using big by simp
      moreover have "8 * (p + 1) + dsh + (c - 8) \<le> 8 * length d" using less.prems(4) d(2) big by auto
      ultimately show ?thesis
        using less.IH [of "c - 8" ?sp "sc - 8" "p + 1" d] less.prems(1,2) \<open>8 * ?sp + ssh + (sc - 8) \<le> 8 * length src\<close> that by blast
    qed
    have "bit_copy_loop src ssh dsh dst p sp c sc = Some dst'"
      using False t d r(1) by (subst bit_copy_loop.simps) (auto split: if_splits)
    moreover have "bit_at dst' i = (if 8 * p + dsh \<le> i \<and> i < 8 * p + dsh + c
          then i - (8 * p + dsh) < sc \<and> bit_at src (8 * sp + ssh + (i - (8 * p + dsh))) else bit_at dst i)" for i
    proof -
      consider "i < 8 * p + dsh" | "8 * p + dsh \<le> i" "i < 8 * p + dsh + 8" | "8 * p + dsh + 8 \<le> i" by linarith
      then show ?thesis
      proof cases
        case 2
        then have "bit_at dst' i = bit_at d i" using rbits by auto
        with 2 dbits bits show ?thesis by auto
      next
        case 3
        then have "i - (8 * (p + 1) + dsh) < sc - 8 \<longleftrightarrow> i - (8 * p + dsh) < sc"
          "sc \<ge> 8 \<Longrightarrow> 8 * ?sp + ssh + (i - (8 * (p + 1) + dsh)) = 8 * sp + ssh + (i - (8 * p + dsh))"
          "i < 8 * (p + 1) + dsh + (c - 8) \<longleftrightarrow> i < 8 * p + dsh + c"
          by auto
        with 3 rbits dbits show ?thesis by auto
      qed (use rbits dbits in auto)
    qed
    ultimately show ?thesis using r(2) d(2) by auto
  qed
qed

lemma bit_copy_bits:
  assumes "span_index src + span_length src \<le> 8 * length (span_data src)"
    and "span_index dst + span_length dst \<le> 8 * length (span_data dst)"
  shows "\<exists>d. bit_copy dst src = Some (dst\<lparr>span_data := d\<rparr>) \<and> length d = length (span_data dst)
    \<and> (\<forall>i. bit_at d i = (if span_index dst \<le> i \<and> i < span_index dst + span_length dst
          then i - span_index dst < span_length src \<and> bit_at (span_data src) (span_index src + (i - span_index dst))
          else bit_at (span_data dst) i))"
  using bit_copy_loop_bits [of "span_index src mod 8" "span_index dst mod 8" "span_index src div 8" "span_length src"
      "span_data src" "span_index dst div 8" "span_length dst" "span_data dst"] assms
  by (auto simp: bit_copy_def)

subsection \<open>Whole bytes\<close>

lemma round_up_bounds:
  "n \<le> 8 * uacpi_round_up_bits_to_bytes n" "8 * uacpi_round_up_bits_to_bytes n < n + 8"
  unfolding uacpi_round_up_bits_to_bytes_def by linarith+

lemma round_up_fits: "8 * q + n \<le> 8 * m \<Longrightarrow> q + uacpi_round_up_bits_to_bytes n \<le> m"
  using round_up_bounds(2) [of n] by linarith

lemma round_up_tail: "0 < n mod 8 \<Longrightarrow> 8 * (uacpi_round_up_bits_to_bytes n - 1) + n mod 8 = n \<and> 0 < uacpi_round_up_bits_to_bytes n"
proof -
  assume r: "0 < n mod 8"
  have "n = 8 * (n div 8) + n mod 8" "n mod 8 < 8" by simp_all
  with r have "(n + 7) div 8 = n div 8 + 1" by linarith
  with r show ?thesis by (simp add: uacpi_round_up_bits_to_bytes_def)
qed

lemma round_up_whole: "n mod 8 = 0 \<Longrightarrow> 8 * uacpi_round_up_bits_to_bytes n = n"
  unfolding uacpi_round_up_bits_to_bytes_def by presburger

lemma array_memcpy_bits:
  assumes "i + n \<le> length dst" and "j + n \<le> length src"
  shows "\<exists>d. array_memcpy dst i src j n = Some d \<and> length d = length dst
    \<and> (\<forall>k. bit_at d k = (if 8 * i \<le> k \<and> k < 8 * (i + n) then bit_at src (8 * j + (k - 8 * i)) else bit_at dst k))"
proof -
  let ?d = "take i dst @ take n (drop j src) @ drop (i + n) dst"
  have "bit_at ?d k = (if 8 * i \<le> k \<and> k < 8 * (i + n) then bit_at src (8 * j + (k - 8 * i)) else bit_at dst k)" for k
  proof -
    define b where "b = k div 8"
    define c where "c = k mod 8"
    have k: "k = 8 * b + c" "c < 8" by (simp_all add: b_def c_def)
    consider "b < i" | "i \<le> b" "b < i + n" | "i + n \<le> b" by linarith
    then show ?thesis
    proof cases
      case 1
      then have "?d ! b = dst ! b" using assms by (simp add: nth_append)
      with 1 k show ?thesis by (simp add: bit_at_byte)
    next
      case 2
      then have "b - i < n" by simp
      with 2 have "?d ! b = src ! (j + (b - i))" using assms by (simp add: nth_append)
      moreover have "8 * j + (k - 8 * i) = 8 * (j + (b - i)) + c" using 2 k by (simp add: algebra_simps)
      ultimately show ?thesis using 2 k by (simp add: bit_at_byte)
    next
      case 3
      then have "\<not> b - i < n \<or> n = 0" by auto
      with 3 have "?d ! b = dst ! b" using assms by (auto simp: nth_append)
      with 3 k show ?thesis by (simp add: bit_at_byte)
    qed
  qed
  then show ?thesis using assms by (intro exI [of _ ?d]) (simp add: array_memcpy_def)
qed

lemma bit_at_zeros:
  assumes "a + n \<le> length d"
  shows "bit_at (take a d @ replicate n 0 @ drop (a + n) d) k = (if 8 * a \<le> k \<and> k < 8 * (a + n) then False else bit_at d k)"
proof -
  define b where "b = k div 8"
  define c where "c = k mod 8"
  have k: "k = 8 * b + c" "c < 8" by (simp_all add: b_def c_def)
  consider "b < a" | "a \<le> b" "b < a + n" | "a + n \<le> b" by linarith
  then show ?thesis
  proof cases
    case 1
    then have "(take a d @ replicate n 0 @ drop (a + n) d) ! b = d ! b" using assms by (simp add: nth_append)
    with 1 k show ?thesis by (simp add: bit_at_byte)
  next
    case 2
    then have "b - a < n" by simp
    with 2 have "(take a d @ replicate n 0 @ drop (a + n) d) ! b = 0" using assms by (simp add: nth_append)
    with 2 k show ?thesis by (simp add: bit_at_byte)
  next
    case 3
    then have "\<not> b - a < n \<or> n = 0" by auto
    with 3 have "(take a d @ replicate n 0 @ drop (a + n) d) ! b = d ! b" using assms by (auto simp: nth_append)
    with 3 k show ?thesis by (simp add: bit_at_byte)
  qed
qed

lemma array_memcpy_zerout_bits:
  assumes "i + n \<le> length dst" and "sz \<le> length src"
  shows "\<exists>d. array_memcpy_zerout dst i src n sz = Some d \<and> length d = length dst
    \<and> (\<forall>k. bit_at d k = (if 8 * i \<le> k \<and> k < 8 * (i + n) then k - 8 * i < 8 * sz \<and> bit_at src (k - 8 * i) else bit_at dst k))"
proof -
  let ?m = "if sz < n then sz else n"
  obtain d where d: "array_memcpy dst i src 0 ?m = Some d" "length d = length dst"
    and bits: "\<forall>k. bit_at d k = (if 8 * i \<le> k \<and> k < 8 * (i + ?m) then bit_at src (8 * 0 + (k - 8 * i)) else bit_at dst k)"
  proof -
    have "i + ?m \<le> length dst" "0 + ?m \<le> length src" using assms by auto
    from array_memcpy_bits [OF this] that show ?thesis by blast
  qed
  let ?d = "take (i + ?m) d @ replicate (n - ?m) 0 @ drop (i + n) d"
  have "bit_at ?d k = (if 8 * (i + ?m) \<le> k \<and> k < 8 * (i + n) then False else bit_at d k)" for k
    using bit_at_zeros [of "i + ?m" "n - ?m" d k] assms(1) d(2) by (auto simp: algebra_simps split: if_splits)
  then have "bit_at ?d k = (if 8 * i \<le> k \<and> k < 8 * (i + n) then k - 8 * i < 8 * sz \<and> bit_at src (k - 8 * i) else bit_at dst k)" for k
    using bits by auto
  then show ?thesis
    using assms(1) d by (intro exI [of _ ?d]) (auto simp: array_memcpy_zerout_def Let_def)
qed

lemma cut_misaligned_tail_bits:
  assumes "n mod 8 = 0 \<or> offset < length d"
  shows "\<exists>d'. cut_misaligned_tail d offset n = Some d' \<and> length d' = length d
    \<and> (\<forall>k. bit_at d' k = (bit_at d k \<and> (n mod 8 = 0 \<or> k div 8 \<noteq> offset \<or> k mod 8 < n mod 8)))"
proof (cases "n mod 8 = 0")
  case True then show ?thesis by (simp add: cut_misaligned_tail_def)
next
  case False
  then have o: "offset < length d" using assms by simp
  let ?d = "d[offset := (d ! offset) AND (2 ^ (n mod 8) - 1)]"
  have "cut_misaligned_tail d offset n = Some ?d"
    using False o by (simp add: cut_misaligned_tail_def get_byte_def put_byte_def Let_def)
  moreover have "bit_at ?d k = (bit_at d k \<and> (k div 8 \<noteq> offset \<or> k mod 8 < n mod 8))" for k
    using o by (cases "k div 8 = offset") (auto simp: bit_at_update bit_and_iff low_mask_u8, auto simp: bit_at_def)
  ultimately show ?thesis using False by auto
qed

subsection \<open>Reading and writing fields\<close>

definition field_fits :: "uacpi_buffer_field \<Rightarrow> bool" where
  "field_fits field \<longleftrightarrow> 0 < bit_length field \<and> bit_index field + bit_length field \<le> 8 * length (backing field)"

lemma read_buffer_field_bits:
  assumes "field_fits field" and "uacpi_round_up_bits_to_bytes (bit_length field) \<le> length dst"
  shows "\<exists>d. uacpi_read_buffer_field field dst = Some d \<and> length d = length dst
    \<and> (\<forall>k. bit_at d k = (if k < 8 * uacpi_round_up_bits_to_bytes (bit_length field)
          then k < bit_length field \<and> bit_at (backing field) (bit_index field + k) else bit_at dst k))"
proof (cases "bit_index field mod 8 = 0")
  case False
  let ?n = "uacpi_round_up_bits_to_bytes (bit_length field)"
  let ?s = "\<lparr>span_data = backing field, span_index = bit_index field, span_length = bit_length field\<rparr>"
  let ?t = "\<lparr>span_data = dst, span_index = 0, span_length = ?n * 8\<rparr>"
  have "span_index ?s + span_length ?s \<le> 8 * length (span_data ?s)"
    "span_index ?t + span_length ?t \<le> 8 * length (span_data ?t)"
    using assms by (simp_all add: field_fits_def)
  from bit_copy_bits [OF this] obtain d where "bit_copy ?t ?s = Some (?t\<lparr>span_data := d\<rparr>)" "length d = length dst"
    "\<forall>i. bit_at d i = (if 0 \<le> i \<and> i < 0 + ?n * 8 then i - 0 < bit_length field
        \<and> bit_at (backing field) (bit_index field + (i - 0)) else bit_at dst i)"
    by auto
  with False show ?thesis
    by (intro exI [of _ d]) (simp add: uacpi_read_buffer_field_def do_misaligned_buffer_read_def ac_simps)
next
  case True
  let ?n = "uacpi_round_up_bits_to_bytes (bit_length field)" and ?q = "bit_index field div 8"
  have q: "bit_index field = 8 * ?q" using True by auto
  have "8 * ?q + bit_length field \<le> 8 * length (backing field)" using assms(1) q unfolding field_fits_def by linarith
  note fits = round_up_fits [OF this]
  obtain d where d: "array_memcpy dst 0 (backing field) ?q ?n = Some d" "length d = length dst"
    and bits: "\<forall>k. bit_at d k = (if 8 * 0 \<le> k \<and> k < 8 * (0 + ?n) then bit_at (backing field) (8 * ?q + (k - 8 * 0)) else bit_at dst k)"
  proof -
    have "0 + ?n \<le> length dst" using assms(2) by simp
    from array_memcpy_bits [OF this fits] that show ?thesis by blast
  qed
  have "0 < ?n" using assms(1) round_up_bounds(1) [of "bit_length field"] by (simp add: field_fits_def)
  then have "bit_length field mod 8 = 0 \<or> ?n - 1 < length d" using d(2) assms(2) by linarith
  from cut_misaligned_tail_bits [OF this] obtain d' where d': "cut_misaligned_tail d (?n - 1) (bit_length field) = Some d'" "length d' = length d"
    and cut: "\<forall>k. bit_at d' k = (bit_at d k \<and> (bit_length field mod 8 = 0 \<or> k div 8 \<noteq> ?n - 1 \<or> k mod 8 < bit_length field mod 8))"
    by blast
  have in_field: "bit_length field mod 8 = 0 \<or> k div 8 \<noteq> ?n - 1 \<or> k mod 8 < bit_length field mod 8 \<longleftrightarrow> k < bit_length field"
    if "k < 8 * ?n" for k
  proof (cases "bit_length field mod 8 = 0")
    case True
    then show ?thesis using that round_up_whole [OF True] by simp
  next
    case part: False
    then have e: "8 * (?n - 1) + bit_length field mod 8 = bit_length field" using round_up_tail [of "bit_length field"] by simp
    have k: "k = 8 * (k div 8) + k mod 8" "k mod 8 < 8" by simp_all
    have "k div 8 \<le> ?n - 1" using that by auto
    show ?thesis
    proof (cases "k div 8 = ?n - 1")
      case True
      then have "k = 8 * (?n - 1) + k mod 8" using k(1) by metis
      with e have "k < bit_length field \<longleftrightarrow> k mod 8 < bit_length field mod 8" by linarith
      with True part show ?thesis by simp
    next
      case False
      with \<open>k div 8 \<le> ?n - 1\<close> have "k div 8 + 1 \<le> ?n - 1" by simp
      with k e have "k < bit_length field" by linarith
      with False show ?thesis by simp
    qed
  qed
  have out: "k div 8 \<noteq> ?n - 1" if "\<not> k < 8 * ?n" for k using that \<open>0 < ?n\<close> by linarith
  have "bit_at d' k = (if k < 8 * ?n then k < bit_length field \<and> bit_at (backing field) (bit_index field + k) else bit_at dst k)" for k
    using bits cut in_field [of k] out [of k] q by (cases "k < 8 * ?n") auto
  then show ?thesis using True d d' by (auto simp: uacpi_read_buffer_field_def Let_def)
qed

lemma write_buffer_field_bits:
  assumes "field_fits field" and "sz \<le> length src"
  shows "\<exists>d. uacpi_write_buffer_field field src sz = Some (field\<lparr>backing := d\<rparr>) \<and> length d = length (backing field)
    \<and> (\<forall>i. bit_at d i = (if bit_index field \<le> i \<and> i < bit_index field + bit_length field
          then i - bit_index field < 8 * sz \<and> bit_at src (i - bit_index field) else bit_at (backing field) i))"
proof (cases "bit_index field mod 8 = 0")
  case False
  let ?s = "\<lparr>span_data = src, span_index = 0, span_length = sz * 8\<rparr>"
  let ?t = "\<lparr>span_data = backing field, span_index = bit_index field, span_length = bit_length field\<rparr>"
  have "span_index ?s + span_length ?s \<le> 8 * length (span_data ?s)"
    "span_index ?t + span_length ?t \<le> 8 * length (span_data ?t)"
    using assms by (simp_all add: field_fits_def)
  from bit_copy_bits [OF this] obtain d where "bit_copy ?t ?s = Some (?t\<lparr>span_data := d\<rparr>)" "length d = length (backing field)"
    "\<forall>i. bit_at d i = (if bit_index field \<le> i \<and> i < bit_index field + bit_length field then i - bit_index field < sz * 8
        \<and> bit_at src (0 + (i - bit_index field)) else bit_at (backing field) i)"
    by auto
  with False show ?thesis
    by (intro exI [of _ d]) (simp add: uacpi_write_buffer_field_def do_write_misaligned_buffer_field_def ac_simps)
next
  case True
  let ?n = "uacpi_round_up_bits_to_bytes (bit_length field)" and ?q = "bit_index field div 8" and ?b = "backing field"
  let ?r = "bit_length field mod 8"
  have q: "bit_index field = 8 * ?q" using True by auto
  have fit: "8 * ?q + bit_length field \<le> 8 * length ?b" using assms(1) q unfolding field_fits_def by linarith
  note fits = round_up_fits [OF fit]
  have n: "0 < ?n" using assms(1) round_up_bounds(1) [of "bit_length field"] by (simp add: field_fits_def)
  obtain d where d: "array_memcpy_zerout ?b ?q src ?n sz = Some d" "length d = length ?b"
    and bits: "\<forall>k. bit_at d k = (if 8 * ?q \<le> k \<and> k < 8 * (?q + ?n) then k - 8 * ?q < 8 * sz \<and> bit_at src (k - 8 * ?q) else bit_at ?b k)"
    using array_memcpy_zerout_bits [OF fits assms(2)] by blast
  let ?l = "?q + ?n - 1"
  have l: "?l < length ?b" using fits n by linarith
  show ?thesis
  proof (cases "?r = 0")
    case whole: True
    have "8 * (?q + ?n) = bit_index field + bit_length field" using round_up_whole [OF whole] q by simp
    with d bits q l n True whole show ?thesis
      by (intro exI [of _ d]) (simp add: uacpi_write_buffer_field_def get_byte_def Let_def)
  next
    case part: False
    define v where "v = drop_bit (8 - ?r) (push_bit (8 - ?r) (d ! ?l)) OR push_bit ?r (drop_bit ?r (?b ! ?l))"
    have v: "bit v k = (if k < ?r then bit (d ! ?l) k else bit (?b ! ?l) k)" if "k < 8" for k
    proof -
      have "?r < 8" by simp
      with that show ?thesis by (auto simp: v_def bit_or_iff bit_drop_bit_eq bit_push_bit_iff)
    qed
    have w: "uacpi_write_buffer_field field src sz = Some (field\<lparr>backing := d[?l := v]\<rparr>)"
      using True part d l n by (simp add: uacpi_write_buffer_field_def get_byte_def put_byte_def Let_def v_def)
    have n8: "8 * ?l + 8 = 8 * (?q + ?n)" using n by simp
    have e: "8 * ?l + ?r = bit_index field + bit_length field"
    proof -
      have "8 * (?n - 1) + ?r = bit_length field" using round_up_tail [of "bit_length field"] part by simp
      moreover have "?l = ?q + (?n - 1)" using n by simp
      ultimately show ?thesis using q by simp
    qed
    have "bit_at (d[?l := v]) i = (if bit_index field \<le> i \<and> i < bit_index field + bit_length field
          then i - bit_index field < 8 * sz \<and> bit_at src (i - bit_index field) else bit_at ?b i)" for i
    proof (cases "i div 8 = ?l")
      case True
      define k where "k = i mod 8"
      have "i = 8 * (i div 8) + k" by (simp add: k_def)
      then have i: "i = 8 * ?l + k" "k < 8" unfolding True by (simp_all add: k_def)
      have up: "bit_at (d[?l := v]) i = bit v k" using True l d(2) by (simp add: bit_at_update k_def)
      have di: "bit_at d i = bit (d ! ?l) k" "bit_at ?b i = bit (?b ! ?l) k" using True by (simp_all add: bit_at_def k_def)
      note n8
      moreover have "?q \<le> ?l" using n by simp
      ultimately have range: "8 * ?q \<le> i" "i < 8 * (?q + ?n)" using i by simp_all
      have inside: "bit_index field \<le> i" using range(1) q by metis
      have "8 * ?l + k < 8 * ?l + ?r \<longleftrightarrow> k < ?r" by simp
      then have below: "i < bit_index field + bit_length field \<longleftrightarrow> k < ?r" unfolding e i(1) [symmetric] .
      show ?thesis
        using up v [OF i(2)] di bits [THEN spec, of i] range inside below q by (cases "k < ?r") simp_all
    next
      case other: False
      have up: "bit_at (d[?l := v]) i = bit_at d i" using other l d(2) by (simp add: bit_at_update)
      show ?thesis
      proof (cases "i < 8 * ?l")
        case True
        with e q bits [THEN spec, of i] up n show ?thesis by auto
      next
        case False
        with other have "8 * ?l + 8 \<le> i" by linarith
        moreover from this have "8 * (?q + ?n) \<le> i" unfolding n8 .
        moreover have "?r < 8" by simp
        ultimately show ?thesis using e bits [THEN spec, of i] up by auto
      qed
    qed
    with w d(2) show ?thesis by (intro exI [of _ "d[?l := v]"]) simp
  qed
qed

section \<open>Properties\<close>

text \<open>C25: what a buffer field reads and writes.  For a field of at least one bit inside its buffer
  \<open>uacpi_write_buffer_field\<close> stores the bits of the source in the field, or zeros past its end,
  and leaves every other bit of the buffer alone, wherever the field starts and ends; reading it
  back into any array large enough yields exactly those bits, with zeros up to the next byte, and
  leaves the rest of the array alone.\<close>

theorem buffer_field_roundtrip:
  assumes "field_fits field" and "sz \<le> length src" and "uacpi_round_up_bits_to_bytes (bit_length field) \<le> length dst"
  shows "\<exists>field' d. uacpi_write_buffer_field field src sz = Some field' \<and> uacpi_read_buffer_field field' dst = Some d
    \<and> (\<forall>i. i < bit_index field \<or> bit_index field + bit_length field \<le> i \<longrightarrow>
         bit_at (backing field') i = bit_at (backing field) i)
    \<and> (\<forall>k. bit_at d k = (if k < 8 * uacpi_round_up_bits_to_bytes (bit_length field)
         then k < bit_length field \<and> k < 8 * sz \<and> bit_at src k else bit_at dst k))"
proof -
  obtain b where w: "uacpi_write_buffer_field field src sz = Some (field\<lparr>backing := b\<rparr>)" "length b = length (backing field)"
    and bits: "\<forall>i. bit_at b i = (if bit_index field \<le> i \<and> i < bit_index field + bit_length field
          then i - bit_index field < 8 * sz \<and> bit_at src (i - bit_index field) else bit_at (backing field) i)"
    using write_buffer_field_bits [OF assms(1,2)] by blast
  have "field_fits (field\<lparr>backing := b\<rparr>)" using assms(1) w(2) by (simp add: field_fits_def)
  from read_buffer_field_bits [OF this, of dst] assms(3) obtain d where
    r: "uacpi_read_buffer_field (field\<lparr>backing := b\<rparr>) dst = Some d"
    and d: "\<forall>k. bit_at d k = (if k < 8 * uacpi_round_up_bits_to_bytes (bit_length field)
          then k < bit_length field \<and> bit_at b (bit_index field + k) else bit_at dst k)"
    by auto
  from w(1) r bits d show ?thesis by (intro exI [of _ "field\<lparr>backing := b\<rparr>"] exI [of _ d]) auto
qed

theorem buffer_field_roundtrip_witness:
  "uacpi_write_buffer_field \<lparr>backing = [0xFF, 0xFF, 0xFF], bit_index = 6, bit_length = 11\<rparr> [0x34, 0x12] 2
     = Some \<lparr>backing = [0x3F, 0x8D, 0xFE], bit_index = 6, bit_length = 11\<rparr>
   \<and> (\<exists>d. uacpi_read_buffer_field \<lparr>backing = [0x3F, 0x8D, 0xFE], bit_index = 6, bit_length = 11\<rparr> [0, 0] = Some d
        \<and> bit_at d 2 \<and> \<not> bit_at d 12)"
proof -
  let ?f = "\<lparr>backing = [0xFF, 0xFF, 0xFF], bit_index = 6, bit_length = 11\<rparr>"
  have w: "uacpi_write_buffer_field ?f [0x34, 0x12] 2
     = Some \<lparr>backing = [0x3F, 0x8D, 0xFE], bit_index = 6, bit_length = 11\<rparr>"
    by code_simp
  have "field_fits ?f" "2 \<le> length [0x34, 0x12 :: u8]" "uacpi_round_up_bits_to_bytes (bit_length ?f) \<le> length [0, 0 :: u8]"
    by (simp_all add: field_fits_def uacpi_round_up_bits_to_bytes_def)
  from buffer_field_roundtrip [OF this] w obtain d where
    r: "uacpi_read_buffer_field \<lparr>backing = [0x3F, 0x8D, 0xFE], bit_index = 6, bit_length = 11\<rparr> [0, 0] = Some d"
    and d: "\<forall>k. bit_at d k = (if k < 8 * uacpi_round_up_bits_to_bytes (bit_length ?f)
         then k < bit_length ?f \<and> k < 8 * 2 \<and> bit_at [0x34, 0x12] k else bit_at [0, 0] k)"
    by auto
  have "bit_at d 2" "\<not> bit_at d 12"
    using d [THEN spec, of 2] d [THEN spec, of 12]
    by (simp_all add: uacpi_round_up_bits_to_bytes_def bit_at_def [of "[0x34, 0x12]"])
  with w r show ?thesis by blast
qed

end
