(* ===== verification/Gas_Io.thy ===== *)
theory Gas_Io
  imports Acpi_Base Stdlib "HOL-Library.Monad_Syntax"
begin

text \<open>
  Access to hardware registers through generic addresses: the last part of
  \<^verbatim>\<open>src/kern/acpi/io.c\<close>.  The host's functions and the volatile accesses to mapped
  memory are a record over the state of host and devices.  Results are options where a loop of
  the code could fail to end, \<open>None\<close> being that it does.  This file is not part of the
  bare-bones build.
\<close>

section \<open>The host and its devices\<close>

record 's io_api =
  io_alloc :: "u64 \<Rightarrow> 's \<Rightarrow> u64 \<times> 's"
  io_free :: "u64 \<Rightarrow> 's \<Rightarrow> 's"
  io_kernel_map :: "u64 \<Rightarrow> u64 \<Rightarrow> 's \<Rightarrow> u64 \<times> 's"
  io_kernel_unmap :: "u64 \<Rightarrow> u64 \<Rightarrow> 's \<Rightarrow> 's"
  kernel_io_map :: "u64 \<Rightarrow> u64 \<Rightarrow> 's \<Rightarrow> (uacpi_status \<times> u64) \<times> 's"
  kernel_io_unmap :: "u64 \<Rightarrow> 's \<Rightarrow> 's"
  kernel_io_read :: "u64 \<Rightarrow> u64 \<Rightarrow> nat \<Rightarrow> 's \<Rightarrow> (uacpi_status \<times> u64) \<times> 's"
  kernel_io_write :: "u64 \<Rightarrow> u64 \<Rightarrow> nat \<Rightarrow> u64 \<Rightarrow> 's \<Rightarrow> uacpi_status \<times> 's"
  kernel_pci_read :: "u64 \<Rightarrow> u64 \<Rightarrow> nat \<Rightarrow> 's \<Rightarrow> (uacpi_status \<times> u64) \<times> 's"
  kernel_pci_write :: "u64 \<Rightarrow> u64 \<Rightarrow> nat \<Rightarrow> u64 \<Rightarrow> 's \<Rightarrow> uacpi_status \<times> 's"
  volatile_load :: "u64 \<Rightarrow> nat \<Rightarrow> 's \<Rightarrow> u64 \<times> 's"
  volatile_store :: "u64 \<Rightarrow> nat \<Rightarrow> u64 \<Rightarrow> 's \<Rightarrow> 's"

section \<open>Accessors\<close>

text \<open>The value of a read is the output parameter, not written on an error.  A value of \<open>n\<close>
  bytes is kept in the low bytes of the integer.\<close>

definition low_bytes :: "nat \<Rightarrow> u64 \<Rightarrow> u64" where
  "low_bytes n v = v AND mask (8 * n)"

definition uacpi_system_memory_read :: "'s io_api \<Rightarrow> u64 \<Rightarrow> u64 \<Rightarrow> u8 \<Rightarrow> 's \<Rightarrow> (uacpi_status \<times> u64 option) \<times> 's" where
  "uacpi_system_memory_read A ptr offset width s =
     (if width \<in> {1, 2, 4, 8} then
        (case volatile_load A (ptr + offset) (unat width) s of
           (v, s) \<Rightarrow> ((UACPI_STATUS_OK, Some (low_bytes (unat width) v)), s))
      else ((UACPI_STATUS_INVALID_ARGUMENT, None), s))"

definition uacpi_system_memory_write :: "'s io_api \<Rightarrow> u64 \<Rightarrow> u64 \<Rightarrow> u8 \<Rightarrow> u64 \<Rightarrow> 's \<Rightarrow> uacpi_status \<times> 's" where
  "uacpi_system_memory_write A ptr offset width v s =
     (if width \<in> {1, 2, 4, 8} then
        (UACPI_STATUS_OK, volatile_store A (ptr + offset) (unat width) (low_bytes (unat width) v) s)
      else (UACPI_STATUS_INVALID_ARGUMENT, s))"

definition uacpi_system_io_read :: "'s io_api \<Rightarrow> u64 \<Rightarrow> u64 \<Rightarrow> u8 \<Rightarrow> 's \<Rightarrow> (uacpi_status \<times> u64 option) \<times> 's" where
  "uacpi_system_io_read A handle offset width s =
     (if width \<in> {1, 2, 4} then
        (case kernel_io_read A handle offset (unat width) s of
           ((ret, v), s) \<Rightarrow> ((ret, if ret = UACPI_STATUS_OK then Some (low_bytes (unat width) v) else None), s))
      else ((UACPI_STATUS_INVALID_ARGUMENT, None), s))"

definition uacpi_system_io_write :: "'s io_api \<Rightarrow> u64 \<Rightarrow> u64 \<Rightarrow> u8 \<Rightarrow> u64 \<Rightarrow> 's \<Rightarrow> uacpi_status \<times> 's" where
  "uacpi_system_io_write A handle offset width v s =
     (if width \<in> {1, 2, 4} then kernel_io_write A handle offset (unat width) (low_bytes (unat width) v) s
      else (UACPI_STATUS_INVALID_ARGUMENT, s))"

definition uacpi_pci_read :: "'s io_api \<Rightarrow> u64 \<Rightarrow> u64 \<Rightarrow> u8 \<Rightarrow> 's \<Rightarrow> (uacpi_status \<times> u64 option) \<times> 's" where
  "uacpi_pci_read A handle offset width s =
     (if width \<in> {1, 2, 4} then
        (case kernel_pci_read A handle offset (unat width) s of
           ((ret, v), s) \<Rightarrow> ((ret, if ret = UACPI_STATUS_OK then Some (low_bytes (unat width) v) else None), s))
      else ((UACPI_STATUS_INVALID_ARGUMENT, None), s))"

definition uacpi_pci_write :: "'s io_api \<Rightarrow> u64 \<Rightarrow> u64 \<Rightarrow> u8 \<Rightarrow> u64 \<Rightarrow> 's \<Rightarrow> uacpi_status \<times> 's" where
  "uacpi_pci_write A handle offset width v s =
     (if width \<in> {1, 2, 4} then kernel_pci_write A handle offset (unat width) (low_bytes (unat width) v) s
      else (UACPI_STATUS_INVALID_ARGUMENT, s))"

section \<open>Generic addresses\<close>

definition UACPI_ADDRESS_SPACE_SYSTEM_MEMORY :: u8 where "UACPI_ADDRESS_SPACE_SYSTEM_MEMORY = 0"
definition UACPI_ADDRESS_SPACE_SYSTEM_IO :: u8 where "UACPI_ADDRESS_SPACE_SYSTEM_IO = 1"

definition is_aligned :: "u64 \<Rightarrow> u64 \<Rightarrow> bool" where
  "is_aligned x val \<longleftrightarrow> x AND (val - 1) = 0"

definition align_up :: "u64 \<Rightarrow> u64 \<Rightarrow> u64" where
  "align_up x val = (x + (val - 1)) AND NOT (val - 1)"

text \<open>Backing off to a width the address is aligned to.\<close>

partial_function (option) back_off :: "u64 \<Rightarrow> u8 \<Rightarrow> u8 option" where
  [code]: "back_off address width =
     (if is_aligned address (ucast (width div 8)) then Some width else back_off address (width div 2))"

definition gas_get_access_bit_width :: "acpi_gas \<Rightarrow> u8 option" where
  "gas_get_access_bit_width gas =
     do {
       access_bit_width \<leftarrow>
         (if register_bit_offset gas = 0 \<and> register_bit_width gas AND (register_bit_width gas - 1) = 0
             \<and> register_bit_width gas AND 7 = 0 then Some (register_bit_width gas)
          else if access_size gas \<noteq> 0 then Some (access_size gas * 8)
          else
            let msb = uacpi_bit_scan_backward
                (ucast (register_bit_offset gas) + ucast (register_bit_width gas) - 1);
                access_bit_width = push_bit (unat msb) 1 :: u8
            in if access_bit_width \<le> 8 then Some 8 else back_off (gas_address gas) access_bit_width);
       let limit = (if address_space_id gas = UACPI_ADDRESS_SPACE_SYSTEM_IO then 32 else 64);
       Some (if access_bit_width < limit then access_bit_width else limit) }"

text \<open>On success the access width and the total width.\<close>

definition gas_validate :: "acpi_gas option \<Rightarrow> (uacpi_status \<times> (u8 \<times> u8) option) option" where
  "gas_validate gas =
     (case gas of
        None \<Rightarrow> Some (UACPI_STATUS_INVALID_ARGUMENT, None)
      | Some gas \<Rightarrow>
          if gas_address gas = 0 then Some (UACPI_STATUS_NOT_FOUND, None)
          else if address_space_id gas \<noteq> UACPI_ADDRESS_SPACE_SYSTEM_IO
              \<and> address_space_id gas \<noteq> UACPI_ADDRESS_SPACE_SYSTEM_MEMORY then
            Some (UACPI_STATUS_UNIMPLEMENTED, None)
          else if access_size gas > 4 then Some (UACPI_STATUS_UNIMPLEMENTED, None)
          else do {
            access_bit_width \<leftarrow> gas_get_access_bit_width gas;
            let total_width = ucast (register_bit_offset gas) + ucast (register_bit_width gas);
            let aligned_width = align_up total_width (ucast access_bit_width);
            Some (if aligned_width > 64 then (UACPI_STATUS_UNIMPLEMENTED, None)
                  else (UACPI_STATUS_OK, Some (access_bit_width, ucast total_width))) })"

text \<open>A mapped address.  The three function pointers of the code always come together, from
  memory or from I/O space.\<close>

datatype gas_accessors = Memory_Accessors | Io_Accessors

record uacpi_mapped_gas =
  mapping :: u64
  accessors :: gas_accessors
  access_bit_width :: u8
  total_bit_width :: u8
  bit_offset :: u8

definition gas_read :: "'s io_api \<Rightarrow> uacpi_mapped_gas \<Rightarrow> u64 \<Rightarrow> u8 \<Rightarrow> 's \<Rightarrow> (uacpi_status \<times> u64 option) \<times> 's" where
  "gas_read A gas = (case accessors gas of
     Memory_Accessors \<Rightarrow> uacpi_system_memory_read A (mapping gas)
   | Io_Accessors \<Rightarrow> uacpi_system_io_read A (mapping gas))"

definition gas_write :: "'s io_api \<Rightarrow> uacpi_mapped_gas \<Rightarrow> u64 \<Rightarrow> u8 \<Rightarrow> u64 \<Rightarrow> 's \<Rightarrow> uacpi_status \<times> 's" where
  "gas_write A gas = (case accessors gas of
     Memory_Accessors \<Rightarrow> uacpi_system_memory_write A (mapping gas)
   | Io_Accessors \<Rightarrow> uacpi_system_io_write A (mapping gas))"

definition gas_unmap :: "'s io_api \<Rightarrow> uacpi_mapped_gas \<Rightarrow> u64 \<Rightarrow> 's \<Rightarrow> 's" where
  "gas_unmap A gas sz s = (case accessors gas of
     Memory_Accessors \<Rightarrow> io_kernel_unmap A (mapping gas) sz s
   | Io_Accessors \<Rightarrow> kernel_io_unmap A (mapping gas) s)"

definition access_mask :: "uacpi_mapped_gas \<Rightarrow> u64" where
  "access_mask gas =
     (if access_bit_width gas div 8 < 8 then NOT (push_bit (unat (access_bit_width gas)) (- 1)) else - 1)"

partial_function (option) gas_read_loop ::
  "'s io_api \<Rightarrow> uacpi_mapped_gas \<Rightarrow> u8 \<Rightarrow> u8 \<Rightarrow> u8 \<Rightarrow> u64 \<Rightarrow> u64 \<Rightarrow> 's \<Rightarrow> ((uacpi_status \<times> u64) \<times> 's) option" where
  [code]: "gas_read_loop A gas off bits_left index offset out s =
     (if bits_left = 0 then Some ((UACPI_STATUS_OK, out), s)
      else
        let ((ret, data), s, off) =
          (if off \<ge> access_bit_width gas then ((UACPI_STATUS_OK, Some 0), s, off - access_bit_width gas)
           else case gas_read A gas offset (access_bit_width gas div 8) s of (r, s) \<Rightarrow> (r, s, off))
        in if ret \<noteq> UACPI_STATUS_OK then Some ((ret, out), s)
           else
             let out = out OR push_bit (unat index * unat (access_bit_width gas)) (the data AND access_mask gas)
             in gas_read_loop A gas off (bits_left - min bits_left (access_bit_width gas)) (index + 1)
                  (offset + ucast (access_bit_width gas div 8)) out s)"

definition uacpi_gas_read_mapped ::
  "'s io_api \<Rightarrow> uacpi_mapped_gas \<Rightarrow> 's \<Rightarrow> ((uacpi_status \<times> u64) \<times> 's) option" where
  "uacpi_gas_read_mapped A gas s = gas_read_loop A gas (bit_offset gas) (total_bit_width gas) 0 0 0 s"

partial_function (option) gas_write_loop ::
  "'s io_api \<Rightarrow> uacpi_mapped_gas \<Rightarrow> u64 \<Rightarrow> u8 \<Rightarrow> u8 \<Rightarrow> u8 \<Rightarrow> u64 \<Rightarrow> 's \<Rightarrow> (uacpi_status \<times> 's) option" where
  [code]: "gas_write_loop A gas in_value off bits_left index offset s =
     (if bits_left = 0 then Some (UACPI_STATUS_OK, s)
      else
        let data = drop_bit (unat index * unat (access_bit_width gas)) in_value AND access_mask gas;
            (ret, s, off) =
          (if off \<ge> access_bit_width gas then (UACPI_STATUS_OK, s, off - access_bit_width gas)
           else case gas_write A gas offset (access_bit_width gas div 8) data s of (r, s) \<Rightarrow> (r, s, off))
        in if ret \<noteq> UACPI_STATUS_OK then Some (ret, s)
           else gas_write_loop A gas in_value off (bits_left - min bits_left (access_bit_width gas)) (index + 1)
                  (offset + ucast (access_bit_width gas div 8)) s)"

definition uacpi_gas_write_mapped ::
  "'s io_api \<Rightarrow> uacpi_mapped_gas \<Rightarrow> u64 \<Rightarrow> 's \<Rightarrow> (uacpi_status \<times> 's) option" where
  "uacpi_gas_write_mapped A gas in_value s =
     gas_write_loop A gas in_value (bit_offset gas) (total_bit_width gas) 0 0 s"

text \<open>Mapping and unmapping; the mapped address is the output parameter.\<close>

definition uacpi_map_gas_noalloc ::
  "'s io_api \<Rightarrow> acpi_gas option \<Rightarrow> 's \<Rightarrow> ((uacpi_status \<times> uacpi_mapped_gas option) \<times> 's) option" where
  "uacpi_map_gas_noalloc A gas s =
     do {
       (ret, widths) \<leftarrow> gas_validate gas;
       case (gas, widths) of
         (Some g, Some (access, width)) \<Rightarrow>
           Some (if address_space_id g = UACPI_ADDRESS_SPACE_SYSTEM_MEMORY then
              (case io_kernel_map A (gas_address g) (ucast (width div 8)) s of (p, s) \<Rightarrow>
                 if p = 0 then ((UACPI_STATUS_MAPPING_FAILED, None), s)
                 else ((UACPI_STATUS_OK, Some \<lparr>mapping = p, accessors = Memory_Accessors,
                    access_bit_width = access, total_bit_width = width, bit_offset = register_bit_offset g\<rparr>), s))
            else
              (case kernel_io_map A (gas_address g) (ucast (width div 8)) s of ((ret, p), s) \<Rightarrow>
                 if ret \<noteq> UACPI_STATUS_OK then ((ret, None), s)
                 else ((UACPI_STATUS_OK, Some \<lparr>mapping = p, accessors = Io_Accessors,
                    access_bit_width = access, total_bit_width = width, bit_offset = register_bit_offset g\<rparr>), s)))
       | _ \<Rightarrow> Some ((ret, None), s) }"

definition uacpi_unmap_gas_nofree :: "'s io_api \<Rightarrow> uacpi_mapped_gas \<Rightarrow> 's \<Rightarrow> 's" where
  "uacpi_unmap_gas_nofree A gas s = gas_unmap A gas (ucast (access_bit_width gas div 8)) s"

text \<open>The same in memory of its own: on success the address of the mapping and its value.\<close>

definition sizeof_mapped_gas :: u64 where "sizeof_mapped_gas = 40"

definition uacpi_map_gas ::
  "'s io_api \<Rightarrow> acpi_gas option \<Rightarrow> 's \<Rightarrow> ((uacpi_status \<times> (u64 \<times> uacpi_mapped_gas) option) \<times> 's) option" where
  "uacpi_map_gas A gas s =
     (case io_alloc A sizeof_mapped_gas s of (p, s) \<Rightarrow>
        if p = 0 then Some ((UACPI_STATUS_OUT_OF_MEMORY, None), s)
        else do {
          ((ret, mapped), s) \<leftarrow> uacpi_map_gas_noalloc A gas s;
          Some (case mapped of None \<Rightarrow> ((ret, None), io_free A p s)
                | Some m \<Rightarrow> ((ret, Some (p, m)), s)) })"

definition uacpi_unmap_gas :: "'s io_api \<Rightarrow> u64 \<times> uacpi_mapped_gas \<Rightarrow> 's \<Rightarrow> 's" where
  "uacpi_unmap_gas A gas s = io_free A (fst gas) (uacpi_unmap_gas_nofree A (snd gas) s)"

definition uacpi_gas_read :: "'s io_api \<Rightarrow> acpi_gas option \<Rightarrow> 's \<Rightarrow> ((uacpi_status \<times> u64 option) \<times> 's) option" where
  "uacpi_gas_read A gas s =
     do {
       ((ret, mapped), s) \<leftarrow> uacpi_map_gas_noalloc A gas s;
       case mapped of None \<Rightarrow> Some ((ret, None), s)
       | Some m \<Rightarrow>
           do { ((ret, v), s) \<leftarrow> uacpi_gas_read_mapped A m s;
                Some ((ret, Some v), uacpi_unmap_gas_nofree A m s) } }"

definition uacpi_gas_write :: "'s io_api \<Rightarrow> acpi_gas option \<Rightarrow> u64 \<Rightarrow> 's \<Rightarrow> (uacpi_status \<times> 's) option" where
  "uacpi_gas_write A gas in_value s =
     do {
       ((ret, mapped), s) \<leftarrow> uacpi_map_gas_noalloc A gas s;
       case mapped of None \<Rightarrow> Some (ret, s)
       | Some m \<Rightarrow>
           do { (ret, s) \<leftarrow> uacpi_gas_write_mapped A m in_value s;
                Some (ret, uacpi_unmap_gas_nofree A m s) } }"

section \<open>Widths\<close>

lemma back_off_returns:
  "3 \<le> m \<Longrightarrow> m \<le> 7 \<Longrightarrow> \<exists>j. 3 \<le> j \<and> j \<le> m \<and> back_off address (2 ^ m) = Some (2 ^ j)"
proof (induction m rule: less_induct)
  case (less m)
  show ?case
  proof (cases "is_aligned address (ucast ((2 ^ m :: u8) div 8))")
    case True
    then show ?thesis using less.prems by (subst back_off.simps) auto
  next
    case False
    have "m \<noteq> 3"
    proof
      assume "m = 3"
      with False show False by (simp add: is_aligned_def)
    qed
    with less.prems have m: "m \<in> {4, 5, 6, 7}" by auto
    then have half: "(2 ^ m :: u8) div 2 = 2 ^ (m - 1)" by auto
    from less.IH [of "m - 1"] m obtain j where "3 \<le> j" "j \<le> m - 1" "back_off address (2 ^ (m - 1)) = Some (2 ^ j)"
      by auto
    with False half show ?thesis by (subst back_off.simps) (auto intro!: exI [of _ j])
  qed
qed

text \<open>Accesses of \<open>w\<close> bytes that a mapping supports.\<close>

definition access_ok :: "uacpi_mapped_gas \<Rightarrow> u8 \<Rightarrow> bool" where
  "access_ok g w \<longleftrightarrow> access_bit_width g = 8 * w \<and> (w \<in> {1, 2, 4} \<or> w = 8 \<and> accessors g = Memory_Accessors)"

lemma access_okD:
  assumes "access_ok g w"
  shows "access_bit_width g div 8 = w" "unat (access_bit_width g) = 8 * unat w" "0 < unat w" "unat w \<le> 8"
    "bit (access_mask g) k \<longleftrightarrow> k < 8 * unat w"
proof -
  from assms have w: "w \<in> {1, 2, 4, 8}" and a: "access_bit_width g = 8 * w" by (auto simp: access_ok_def)
  from w show "access_bit_width g div 8 = w" "unat (access_bit_width g) = 8 * unat w" "0 < unat w" "unat w \<le> 8"
    unfolding a by auto
  have "bit (NOT (push_bit n (- 1)) :: u64) k \<longleftrightarrow> k < n" if "n < 64" for n
    using that by (auto simp: bit_not_iff bit_push_bit_iff bit_mask_iff)
  with w show "bit (access_mask g) k \<longleftrightarrow> k < 8 * unat w"
    unfolding access_mask_def a by (auto dest: bit_imp_le_length)
qed

text \<open>The loop state of chunk \<open>i\<close> with \<open>c\<close> chunks to go.\<close>

definition at_chunk :: "uacpi_mapped_gas \<Rightarrow> u8 \<Rightarrow> nat \<Rightarrow> nat \<Rightarrow> u8 \<Rightarrow> bool" where
  "at_chunk g w i c left \<longleftrightarrow> access_ok g w \<and> (i + c) * unat w \<le> 8
     \<and> unat left \<le> c * (8 * unat w) \<and> c * (8 * unat w) < unat left + 8 * unat w"

lemma at_chunk_zero:
  assumes "at_chunk g w i c left"
  shows "left = 0 \<longleftrightarrow> c = 0"
proof -
  have "0 < unat w" using assms access_okD(3) by (auto simp: at_chunk_def)
  have "unat left = 0 \<longleftrightarrow> c = 0"
  proof
    assume "unat left = 0"
    then have "c * (8 * unat w) < 8 * unat w" using assms by (simp add: at_chunk_def)
    then show "c = 0" by (cases c) auto
  qed (use assms in \<open>simp add: at_chunk_def\<close>)
  then show ?thesis by (simp add: unat_eq_0)
qed

lemma at_chunk_next:
  assumes "at_chunk g w i (Suc c) left"
  shows "at_chunk g w (Suc i) c (left - min left (access_bit_width g))"
proof -
  have ok: "access_ok g w" using assms by (simp add: at_chunk_def)
  have "unat (left - min left (access_bit_width g)) = unat left - 8 * unat w"
    using access_okD(2) [OF ok] by (auto simp: min_def unat_sub word_le_nat_alt)
  with assms show ?thesis by (auto simp: at_chunk_def)
qed

lemma at_chunk_step:
  assumes "at_chunk g w i (Suc c) left"
  shows "unat (of_nat i :: u8) = i" "(of_nat i :: u8) + 1 = of_nat (Suc i)"
    "(of_nat (i * unat w) :: u64) + ucast (access_bit_width g div 8) = of_nat (Suc i * unat w)"
proof -
  have ok: "access_ok g w" and "(i + Suc c) * unat w \<le> 8" using assms by (simp_all add: at_chunk_def)
  then have "i \<le> 8" using access_okD(3) [OF ok] by (metis One_nat_def add_leD1 le_trans mult.right_neutral mult_le_mono2 Suc_leI)
  then show "unat (of_nat i :: u8) = i" by (simp add: unat_of_nat take_bit_nat_eq_self)
  show "(of_nat i :: u8) + 1 = of_nat (Suc i)" by simp
  have "(ucast w :: u64) = of_nat (unat w)" by simp
  then show "(of_nat (i * unat w) :: u64) + ucast (access_bit_width g div 8) = of_nat (Suc i * unat w)"
    by (simp add: access_okD(1) [OF ok] algebra_simps)
qed

text \<open>The number of chunks of a mapping.\<close>

definition chunks :: "uacpi_mapped_gas \<Rightarrow> u8 \<Rightarrow> nat" where
  "chunks g w = (unat (total_bit_width g) + 8 * unat w - 1) div (8 * unat w)"

lemma chunks_at:
  assumes "access_ok g w" and "chunks g w * unat w \<le> 8"
  shows "at_chunk g w 0 (chunks g w) (total_bit_width g)"
proof -
  have W: "0 < 8 * unat w" using access_okD(3) [OF assms(1)] by simp
  define t where "t = unat (total_bit_width g)"
  define c where "c = chunks g w"
  have "c = (t + 8 * unat w - 1) div (8 * unat w)" by (simp add: c_def chunks_def t_def)
  then have "c * (8 * unat w) \<le> t + 8 * unat w - 1" "t + 8 * unat w - 1 < (c + 1) * (8 * unat w)"
    using W div_times_less_eq_dividend [of "t + 8 * unat w - 1" "8 * unat w"] dividend_less_div_times [of "8 * unat w" "t + 8 * unat w - 1"]
    by (auto simp: algebra_simps)
  then have "t \<le> c * (8 * unat w)" "c * (8 * unat w) < t + 8 * unat w" using W by (auto simp: algebra_simps)
  then show ?thesis using assms by (simp add: at_chunk_def t_def c_def)
qed

text \<open>A device whose registers keep what is written to them, seen in chunks of \<open>w\<close> bytes.\<close>

locale gas_device =
  fixes A :: "'s io_api"
    and peek :: "uacpi_mapped_gas \<Rightarrow> u8 \<Rightarrow> nat \<Rightarrow> 's \<Rightarrow> u64"
    and poke :: "uacpi_mapped_gas \<Rightarrow> u8 \<Rightarrow> nat \<Rightarrow> u64 \<Rightarrow> 's \<Rightarrow> 's"
  assumes read_chunk: "access_ok g w \<Longrightarrow> gas_read A g (of_nat (i * unat w)) w s = ((UACPI_STATUS_OK, Some (peek g w i s)), s)"
    and write_chunk: "access_ok g w \<Longrightarrow> gas_write A g (of_nat (i * unat w)) w v s = (UACPI_STATUS_OK, poke g w i v s)"
    and peek_same: "access_ok g w \<Longrightarrow> (i + 1) * unat w \<le> 8 \<Longrightarrow> peek g w i (poke g w i v s) = low_bytes (unat w) v"
    and peek_other: "access_ok g w \<Longrightarrow> (i + 1) * unat w \<le> 8 \<Longrightarrow> (j + 1) * unat w \<le> 8 \<Longrightarrow> i \<noteq> j \<Longrightarrow>
      peek g w i (poke g w j v s) = peek g w i s"
begin


lemma read_loop:
  assumes "at_chunk g w i c left"
  shows "\<exists>v. gas_read_loop A g off left (of_nat i) (of_nat (i * unat w)) out s = Some ((UACPI_STATUS_OK, v), s)
    \<and> (\<forall>k. bit v k = (bit out k \<or> i * (8 * unat w) \<le> k \<and> k < (i + c) * (8 * unat w)
         \<and> i + unat off div (8 * unat w) \<le> k div (8 * unat w)
         \<and> bit (peek g w (k div (8 * unat w)) s) (k mod (8 * unat w))))"
  using assms
proof (induction c arbitrary: i left off out)
  case 0
  then have "left = 0" using at_chunk_zero by blast
  then show ?case by (subst gas_read_loop.simps) auto
next
  case (Suc c)
  let ?W = "8 * unat w"
  have ok: "access_ok g w" and fit: "(i + Suc c) * unat w \<le> 8" using Suc.prems by (simp_all add: at_chunk_def)
  note ac = access_okD [OF ok] and st = at_chunk_step [OF Suc.prems] and nx = at_chunk_next [OF Suc.prems]
  have left: "left \<noteq> 0" using at_chunk_zero [OF Suc.prems] by simp
  show ?case
  proof (cases "access_bit_width g \<le> off")
    case True
    have off: "unat (off - access_bit_width g) = unat off - ?W" and ge: "?W \<le> unat off"
      using True ac(2) by (simp_all add: unat_sub word_le_nat_alt)
    then have d: "Suc (unat (off - access_bit_width g) div ?W) = unat off div ?W"
      using ac(3) by (simp add: le_div_geq)
    have "gas_read_loop A g off left (of_nat i) (of_nat (i * unat w)) out s
        = gas_read_loop A g (off - access_bit_width g) (left - min left (access_bit_width g)) (of_nat (Suc i))
            (of_nat (Suc i * unat w)) out s"
      unfolding st(2,3) [symmetric] using True left by (subst gas_read_loop.simps) simp
    moreover obtain v where "gas_read_loop A g (off - access_bit_width g) (left - min left (access_bit_width g)) (of_nat (Suc i))
            (of_nat (Suc i * unat w)) out s = Some ((UACPI_STATUS_OK, v), s)"
      and v: "\<forall>k. bit v k = (bit out k \<or> Suc i * ?W \<le> k \<and> k < (Suc i + c) * ?W
         \<and> Suc i + unat (off - access_bit_width g) div ?W \<le> k div ?W \<and> bit (peek g w (k div ?W) s) (k mod ?W))"
      using Suc.IH [OF nx] by blast
    moreover have "bit v k = (bit out k \<or> i * ?W \<le> k \<and> k < (i + Suc c) * ?W
         \<and> i + unat off div ?W \<le> k div ?W \<and> bit (peek g w (k div ?W) s) (k mod ?W))" for k
    proof -
      have "Suc i * ?W \<le> k" if "i + unat off div ?W \<le> k div ?W"
      proof -
        have "Suc i \<le> k div ?W" using that d by simp
        then show ?thesis using ac(3) by (simp add: less_eq_div_iff_mult_less_eq)
      qed
      then show ?thesis using v [rule_format, of k] d by auto
    qed
    ultimately show ?thesis by auto
  next
    case False
    then have d: "unat off div ?W = 0" using ac(2) by (simp add: word_less_nat_alt not_le)
    let ?out = "out OR push_bit (i * ?W) (peek g w i s AND access_mask g)"
    have "gas_read_loop A g off left (of_nat i) (of_nat (i * unat w)) out s
        = gas_read_loop A g off (left - min left (access_bit_width g)) (of_nat (Suc i)) (of_nat (Suc i * unat w)) ?out s"
      unfolding st(2,3) [symmetric] using False left read_chunk [OF ok, of i s]
      by (subst gas_read_loop.simps) (simp add: st(1) ac(1,2) del: of_nat_mult)
    moreover obtain v where "gas_read_loop A g off (left - min left (access_bit_width g)) (of_nat (Suc i))
            (of_nat (Suc i * unat w)) ?out s = Some ((UACPI_STATUS_OK, v), s)"
      and v: "\<forall>k. bit v k = (bit ?out k \<or> Suc i * ?W \<le> k \<and> k < (Suc i + c) * ?W
         \<and> Suc i + unat off div ?W \<le> k div ?W \<and> bit (peek g w (k div ?W) s) (k mod ?W))"
      using Suc.IH [OF nx] by blast
    moreover have "bit v k = (bit out k \<or> i * ?W \<le> k \<and> k < (i + Suc c) * ?W
         \<and> i + unat off div ?W \<le> k div ?W \<and> bit (peek g w (k div ?W) s) (k mod ?W))" for k
    proof -
      have "(i + Suc c) * ?W \<le> 64" using fit by simp
      moreover have "Suc i * ?W \<le> (i + Suc c) * ?W" by (intro mult_le_mono1) simp
      ultimately have small: "k < 64" if "k < Suc i * ?W" using that by linarith
      have W: "k - i * ?W < ?W \<longleftrightarrow> k < Suc i * ?W" if "i * ?W \<le> k" using that by auto
      have o: "bit ?out k = (bit out k \<or> i * ?W \<le> k \<and> k < Suc i * ?W \<and> bit (peek g w i s) (k - i * ?W))"
      proof (cases "i * ?W \<le> k \<and> k < Suc i * ?W")
        case True
        with small W ac(5) [of "k - i * ?W"] show ?thesis by (simp add: bit_or_iff bit_push_bit_iff bit_and_iff)
      next
        case False
        with W ac(5) [of "k - i * ?W"] show ?thesis by (auto simp only: bit_or_iff bit_push_bit_iff bit_and_iff)
      qed
      have dm: "k div ?W = i \<and> k mod ?W = k - i * ?W" if "i * ?W \<le> k" "k < Suc i * ?W"
      proof -
        have "k div ?W = i" using that by (intro div_nat_eqI) (simp_all add: algebra_simps)
        then show ?thesis by (metis minus_div_mult_eq_mod)
      qed
      show ?thesis
      proof (cases "k < Suc i * ?W")
        case True
        with v [rule_format, of k] o d dm show ?thesis by (auto simp: algebra_simps)
      next
        case False
        then have "Suc i \<le> k div ?W" using ac(3) by (simp add: less_eq_div_iff_mult_less_eq)
        with v [rule_format, of k] o d False show ?thesis by (auto simp: algebra_simps)
      qed
    qed
    ultimately show ?thesis by auto
  qed
qed

lemma write_loop:
  assumes "at_chunk g w i c left"
  shows "\<exists>s'. gas_write_loop A g v off left (of_nat i) (of_nat (i * unat w)) s = Some (UACPI_STATUS_OK, s')
    \<and> (\<forall>j. (j + 1) * unat w \<le> 8 \<longrightarrow> peek g w j s' =
         (if i + unat off div (8 * unat w) \<le> j \<and> j < i + c
          then low_bytes (unat w) (drop_bit (j * (8 * unat w)) v) else peek g w j s))"
  using assms
proof (induction c arbitrary: i left off s)
  case 0
  then have "left = 0" using at_chunk_zero by blast
  then show ?case by (subst gas_write_loop.simps) auto
next
  case (Suc c)
  let ?W = "8 * unat w"
  have ok: "access_ok g w" and fit: "(i + Suc c) * unat w \<le> 8" using Suc.prems by (simp_all add: at_chunk_def)
  note ac = access_okD [OF ok] and st = at_chunk_step [OF Suc.prems] and nx = at_chunk_next [OF Suc.prems]
  have left: "left \<noteq> 0" using at_chunk_zero [OF Suc.prems] by simp
  show ?case
  proof (cases "access_bit_width g \<le> off")
    case True
    have off: "unat (off - access_bit_width g) = unat off - ?W" and ge: "?W \<le> unat off"
      using True ac(2) by (simp_all add: unat_sub word_le_nat_alt)
    then have d: "Suc (unat (off - access_bit_width g) div ?W) = unat off div ?W"
      using ac(3) by (simp add: le_div_geq)
    have "gas_write_loop A g v off left (of_nat i) (of_nat (i * unat w)) s
        = gas_write_loop A g v (off - access_bit_width g) (left - min left (access_bit_width g)) (of_nat (Suc i))
            (of_nat (Suc i * unat w)) s"
      unfolding st(2,3) [symmetric] using True left by (subst gas_write_loop.simps) (simp add: Let_def)
    moreover obtain s' where "gas_write_loop A g v (off - access_bit_width g) (left - min left (access_bit_width g))
            (of_nat (Suc i)) (of_nat (Suc i * unat w)) s = Some (UACPI_STATUS_OK, s')"
      and "\<forall>j. (j + 1) * unat w \<le> 8 \<longrightarrow> peek g w j s' =
         (if Suc i + unat (off - access_bit_width g) div ?W \<le> j \<and> j < Suc i + c
          then low_bytes (unat w) (drop_bit (j * ?W) v) else peek g w j s)"
      using Suc.IH [OF nx] by blast
    ultimately show ?thesis using d by auto
  next
    case False
    then have d: "unat off div ?W = 0" using ac(2) by (simp add: word_less_nat_alt not_le)
    let ?d = "drop_bit (i * ?W) v AND access_mask g" and ?s = "poke g w i (drop_bit (i * ?W) v AND access_mask g) s"
    have low: "low_bytes (unat w) ?d = low_bytes (unat w) (drop_bit (i * ?W) v)"
    proof (rule bit_word_eqI)
      fix n
      have "bit (access_mask g) n \<longleftrightarrow> n < ?W" by (rule ac(5))
      then show "bit (low_bytes (unat w) ?d) n = bit (low_bytes (unat w) (drop_bit (i * ?W) v)) n"
        unfolding low_bytes_def bit_and_iff bit_mask_iff by auto
    qed
    have "gas_write_loop A g v off left (of_nat i) (of_nat (i * unat w)) s
        = gas_write_loop A g v off (left - min left (access_bit_width g)) (of_nat (Suc i)) (of_nat (Suc i * unat w)) ?s"
      unfolding st(2,3) [symmetric] using False left write_chunk [OF ok, of i ?d s]
      by (subst gas_write_loop.simps) (simp add: st(1) ac(1,2) Let_def del: of_nat_mult)
    moreover obtain s' where "gas_write_loop A g v off (left - min left (access_bit_width g)) (of_nat (Suc i))
          (of_nat (Suc i * unat w)) ?s = Some (UACPI_STATUS_OK, s')"
      and p: "\<forall>j. (j + 1) * unat w \<le> 8 \<longrightarrow> peek g w j s' =
         (if Suc i + unat off div ?W \<le> j \<and> j < Suc i + c
          then low_bytes (unat w) (drop_bit (j * ?W) v) else peek g w j ?s)"
      using Suc.IH [OF nx] by blast
    moreover have "(i + 1) * unat w \<le> 8"
    proof -
      have "(i + 1) * unat w \<le> (i + Suc c) * unat w" by (intro mult_le_mono1) simp
      with fit show ?thesis by linarith
    qed
    then have "peek g w j ?s = (if j = i then low_bytes (unat w) (drop_bit (i * ?W) v) else peek g w j s)"
      if "(j + 1) * unat w \<le> 8" for j
      using that low peek_same [OF ok, of i ?d s] peek_other [OF ok, of j i ?d s] by auto
    ultimately show ?thesis using d by (auto simp: le_Suc_eq)
  qed
qed

lemma write_then_read:
  assumes "access_ok g w" and "chunks g w * unat w \<le> 8"
  shows "\<exists>s' v'. uacpi_gas_write_mapped A g v s = Some (UACPI_STATUS_OK, s')
    \<and> uacpi_gas_read_mapped A g s' = Some ((UACPI_STATUS_OK, v'), s')
    \<and> (\<forall>k. bit v' k = (unat (bit_offset g) div (8 * unat w) \<le> k div (8 * unat w)
         \<and> k < chunks g w * (8 * unat w) \<and> bit v k))"
proof -
  let ?W = "8 * unat w" and ?c = "chunks g w"
  note at = chunks_at [OF assms] and ac = access_okD [OF assms(1)]
  obtain s' where wr: "uacpi_gas_write_mapped A g v s = Some (UACPI_STATUS_OK, s')"
    and p: "\<forall>j. (j + 1) * unat w \<le> 8 \<longrightarrow> peek g w j s' =
         (if unat (bit_offset g) div ?W \<le> j \<and> j < ?c then low_bytes (unat w) (drop_bit (j * ?W) v) else peek g w j s)"
    using write_loop [OF at, of v "bit_offset g" s] by (auto simp: uacpi_gas_write_mapped_def)
  obtain v' where rd: "uacpi_gas_read_mapped A g s' = Some ((UACPI_STATUS_OK, v'), s')"
    and v': "\<forall>k. bit v' k = (k < ?c * ?W \<and> unat (bit_offset g) div ?W \<le> k div ?W
         \<and> bit (peek g w (k div ?W) s') (k mod ?W))"
    using read_loop [OF at, of "bit_offset g" 0 s'] by (auto simp: uacpi_gas_read_mapped_def)
  have "bit v' k = (unat (bit_offset g) div ?W \<le> k div ?W \<and> k < ?c * ?W \<and> bit v k)" for k
  proof (cases "k < ?c * ?W \<and> unat (bit_offset g) div ?W \<le> k div ?W")
    case True
    then have j: "k div ?W < ?c" using ac(3) by (simp add: div_less_iff_less_mult)
    then have "(k div ?W + 1) * unat w \<le> ?c * unat w" by (intro mult_le_mono1) simp
    with assms(2) have "(k div ?W + 1) * unat w \<le> 8" by linarith
    with p True j have "peek g w (k div ?W) s' = low_bytes (unat w) (drop_bit (k div ?W * ?W) v)" by auto
    moreover have "k mod ?W < ?W" using ac(3) by simp
    moreover have "k div ?W * ?W + k mod ?W = k" by (rule div_mult_mod_eq)
    ultimately have "bit (peek g w (k div ?W) s') (k mod ?W) = bit v k"
      by (auto simp: low_bytes_def bit_and_iff bit_mask_iff bit_drop_bit_eq dest: bit_imp_le_length)
    with True v' show ?thesis by auto
  next
    case False with v' show ?thesis by auto
  qed
  with wr rd show ?thesis by blast
qed

end

subsection \<open>Memory as a device\<close>

definition ram_load :: "u64 \<Rightarrow> nat \<Rightarrow> mem \<Rightarrow> u64" where
  "ram_load p n m = le_word (read_bytes m p n)"

definition ram_store :: "u64 \<Rightarrow> nat \<Rightarrow> u64 \<Rightarrow> mem \<Rightarrow> mem" where
  "ram_store p n v m = (\<lambda>x. if unat (x - p) < n then le_bytes n v ! unat (x - p) else m x)"

definition ram_api :: "mem io_api" where
  "ram_api = \<lparr>io_alloc = (\<lambda>n m. (1, m)), io_free = (\<lambda>p m. m),
     io_kernel_map = (\<lambda>a n m. (a, m)), io_kernel_unmap = (\<lambda>a n m. m),
     kernel_io_map = (\<lambda>a n m. ((UACPI_STATUS_OK, a), m)), kernel_io_unmap = (\<lambda>a m. m),
     kernel_io_read = (\<lambda>h off n m. ((UACPI_STATUS_OK, ram_load (h + off) n m), m)),
     kernel_io_write = (\<lambda>h off n v m. (UACPI_STATUS_OK, ram_store (h + off) n v m)),
     kernel_pci_read = (\<lambda>h off n m. ((UACPI_STATUS_OK, ram_load (h + off) n m), m)),
     kernel_pci_write = (\<lambda>h off n v m. (UACPI_STATUS_OK, ram_store (h + off) n v m)),
     volatile_load = (\<lambda>p n m. (ram_load p n m, m)), volatile_store = ram_store\<rparr>"

definition ram_peek :: "uacpi_mapped_gas \<Rightarrow> u8 \<Rightarrow> nat \<Rightarrow> mem \<Rightarrow> u64" where
  "ram_peek g w i m = low_bytes (unat w) (ram_load (mapping g + of_nat (i * unat w)) (unat w) m)"

definition ram_poke :: "uacpi_mapped_gas \<Rightarrow> u8 \<Rightarrow> nat \<Rightarrow> u64 \<Rightarrow> mem \<Rightarrow> mem" where
  "ram_poke g w i v m = ram_store (mapping g + of_nat (i * unat w)) (unat w) (low_bytes (unat w) v) m"

lemma ram_load_store_same: "n \<le> 8 \<Longrightarrow> ram_load p n (ram_store p n v m) = v AND mask (8 * n)"
proof -
  assume n: "n \<le> 8"
  have "read_bytes (ram_store p n v m) p n = le_bytes n v"
    using n by (intro nth_equalityI) (auto simp: ram_store_def unat_of_nat_u64)
  with n show ?thesis by (simp add: ram_load_def le_word_le_bytes)
qed

lemma ram_load_store_other:
  assumes "a + n \<le> b \<or> b + n \<le> a" and "a + n \<le> 8" and "b + n \<le> 8"
  shows "ram_load (p + of_nat a) n (ram_store (p + of_nat b) n v m) = ram_load (p + of_nat a) n m"
proof -
  have "\<not> unat (p + of_nat a + of_nat k - (p + of_nat b)) < n" if "k < n" for k
  proof (cases "b \<le> a + k")
    case True
    have "p + of_nat a + of_nat k - (p + of_nat b) = (of_nat (a + k - b) :: u64)" using True by (simp add: of_nat_diff)
    moreover have "n \<le> a + k - b" using assms that True by linarith
    moreover have "a + k - b < 2 ^ 64" using assms(2) that by simp
    ultimately show ?thesis by (simp add: unat_of_nat_u64)
  next
    case False
    have "p + of_nat a + of_nat k - (p + of_nat b) = - (of_nat (b - (a + k)) :: u64)" using False by (simp add: of_nat_diff)
    moreover have d: "0 < b - (a + k)" "b - (a + k) \<le> 8" using False assms(3) by auto
    moreover have "- (of_nat (b - (a + k)) :: u64) = of_nat (2 ^ 64 - (b - (a + k)))"
      using d(2) by (simp add: of_nat_diff)
    moreover have "unat (of_nat (2 ^ 64 - (b - (a + k))) :: u64) = 2 ^ 64 - (b - (a + k))"
      using d by (intro unat_of_nat_u64) simp
    ultimately have "unat (p + of_nat a + of_nat k - (p + of_nat b)) = 2 ^ 64 - (b - (a + k))" by metis
    moreover have "n \<le> 2 ^ 64 - (b - (a + k))" using d(2) assms(3) by simp
    ultimately show ?thesis by linarith
  qed
  then have "read_bytes (ram_store (p + of_nat b) n v m) (p + of_nat a) n = read_bytes m (p + of_nat a) n"
    by (simp add: read_bytes_def ram_store_def)
  then show ?thesis by (simp add: ram_load_def)
qed

lemma low_bytes_idem [simp]: "low_bytes n (low_bytes n v) = low_bytes n v"
  by (simp add: low_bytes_def ac_simps)

interpretation ram: gas_device ram_api ram_peek ram_poke
proof
  fix g :: uacpi_mapped_gas and w :: u8 and i j :: nat and v :: u64 and s :: mem
  assume ok: "access_ok g w"
  then have "w \<le> 8" using access_okD(4) by (simp add: word_le_nat_alt)
  show "gas_read ram_api g (of_nat (i * unat w)) w s = ((UACPI_STATUS_OK, Some (ram_peek g w i s)), s)"
    using ok by (auto simp: gas_read_def access_ok_def uacpi_system_memory_read_def uacpi_system_io_read_def ram_api_def
        ram_peek_def split: gas_accessors.split)
  show "gas_write ram_api g (of_nat (i * unat w)) w v s = (UACPI_STATUS_OK, ram_poke g w i v s)"
    using ok by (auto simp: gas_write_def access_ok_def uacpi_system_memory_write_def uacpi_system_io_write_def ram_api_def
        ram_poke_def split: gas_accessors.split)
  show "ram_peek g w i (ram_poke g w i v s) = low_bytes (unat w) v"
    using access_okD(4) [OF ok] by (simp add: ram_peek_def ram_poke_def ram_load_store_same low_bytes_def ac_simps)
  show "ram_peek g w i (ram_poke g w j v s) = ram_peek g w i s"
    if "(i + 1) * unat w \<le> 8" "(j + 1) * unat w \<le> 8" "i \<noteq> j"
  proof -
    have "i * unat w + unat w \<le> j * unat w \<or> j * unat w + unat w \<le> i * unat w"
    proof (cases "i < j")
      case True
      then have "(i + 1) * unat w \<le> j * unat w" by (intro mult_le_mono1) simp
      then show ?thesis by (simp add: algebra_simps)
    next
      case False
      then have "(j + 1) * unat w \<le> i * unat w" using that(3) by (intro mult_le_mono1) simp
      then show ?thesis by (simp add: algebra_simps)
    qed
    from ram_load_store_other [OF this] that(1,2) show ?thesis
      by (simp add: ram_peek_def ram_poke_def algebra_simps del: of_nat_mult)
  qed
qed

section \<open>Validation\<close>

lemma align_up_ge:
  assumes "unat x + unat (val - 1) < 2 ^ 64"
  shows "x \<le> align_up x val"
proof -
  define m where "m = val - 1"
  define y where "y = x + m"
  have "(y AND m) + (y AND NOT m) = (y AND m) OR (y AND NOT m)"
    by (rule disjunctive_add_eq_or) (rule bit_word_eqI, auto simp: bit_simps)
  also have "\<dots> = y" by (rule bit_word_eqI) (auto simp: bit_simps)
  finally have sum: "(y AND m) + (y AND NOT m) = y" .
  have "unat y = unat x + unat m" using assms by (simp add: y_def m_def unat_word_ariths)
  moreover have "unat (y AND m) \<le> unat m" using word_and_le1 [of y m] by (simp add: word_le_nat_alt ac_simps)
  moreover have "unat y \<le> unat (y AND m) + unat (y AND NOT m)"
    by (subst sum [symmetric]) (simp add: unat_word_ariths mod_le_divisor)
  ultimately have "unat x \<le> unat (y AND NOT m)" by linarith
  then show ?thesis by (simp add: align_up_def y_def m_def word_le_nat_alt)
qed

lemma back_off_width:
  "\<exists>j. 3 \<le> j \<and> j \<le> 7 \<and> back_off address (push_bit n 1) = Some (2 ^ j)"
  if "\<not> (push_bit n 1 :: u8) \<le> 8"
proof -
  have "3 \<le> n"
  proof (rule ccontr)
    assume "\<not> 3 \<le> n"
    then have "n = 0 \<or> n = 1 \<or> n = 2" by auto
    with that show False by auto
  qed
  moreover have "n \<le> 7"
  proof (rule ccontr)
    assume "\<not> n \<le> 7"
    then have "(2 :: u8) ^ n = 0" by (simp add: exp_eq_zero_iff)
    with that show False by simp
  qed
  ultimately show ?thesis using back_off_returns [of n address] by auto
qed

text \<open>The widths of a register that passes the checks.\<close>

lemma access_width_cases:
  "\<exists>W. gas_get_access_bit_width gas = Some W
     \<and> (W \<in> {8, 16, 32, 64} \<or> W = 0 \<and> register_bit_offset gas = 0 \<and> register_bit_width gas = 0
        \<or> access_size gas \<noteq> 0 \<and> W = min (access_size gas * 8) (if address_space_id gas = UACPI_ADDRESS_SPACE_SYSTEM_IO then 32 else 64))
     \<and> W \<le> (if address_space_id gas = UACPI_ADDRESS_SPACE_SYSTEM_IO then 32 else 64)"
proof -
  let ?limit = "if address_space_id gas = UACPI_ADDRESS_SPACE_SYSTEM_IO then 32 else 64 :: u8"
  have cut: "(if w < ?limit then w else ?limit) = min w ?limit" for w by (auto simp: min_def)
  consider (whole) "register_bit_offset gas = 0 \<and> register_bit_width gas AND (register_bit_width gas - 1) = 0
      \<and> register_bit_width gas AND 7 = 0"
    | (given) "\<not> (register_bit_offset gas = 0 \<and> register_bit_width gas AND (register_bit_width gas - 1) = 0
      \<and> register_bit_width gas AND 7 = 0)" "access_size gas \<noteq> 0"
    | (small) "\<not> (register_bit_offset gas = 0 \<and> register_bit_width gas AND (register_bit_width gas - 1) = 0
      \<and> register_bit_width gas AND 7 = 0)" "access_size gas = 0" by blast
  then show ?thesis
  proof cases
    case given
    then show ?thesis by (auto simp: gas_get_access_bit_width_def cut min_def)
  next
    case small
    define n where "n = unat (uacpi_bit_scan_backward (ucast (register_bit_offset gas) + ucast (register_bit_width gas) - 1))"
    show ?thesis
    proof (cases "(push_bit n 1 :: u8) \<le> 8")
      case True
      then have "gas_get_access_bit_width gas = Some (min 8 ?limit)"
        using small unfolding gas_get_access_bit_width_def cut n_def [symmetric] Let_def by auto
      then show ?thesis by auto
    next
      case False
      from back_off_width [OF this] obtain j where j: "3 \<le> j" "j \<le> 7" "back_off (gas_address gas) (push_bit n 1) = Some (2 ^ j)" by blast
      then have "gas_get_access_bit_width gas = Some (min (2 ^ j) ?limit)"
        using small False unfolding gas_get_access_bit_width_def cut n_def [symmetric] Let_def by auto
      moreover from j have "j = 3 \<or> j = 4 \<or> j = 5 \<or> j = 6 \<or> j = 7" by auto
      ultimately show ?thesis by (auto simp: min_def)
    qed
  next
    case whole
    have "register_bit_width gas \<in> {0, 8, 16, 32, 64, 128}"
    proof -
      have "w \<in> {0, 8, 16, 32, 64, 128}" if "w AND (w - 1) = 0" "w AND 7 = 0" for w :: u8
      proof -
        have "list_all (\<lambda>n. of_nat n AND (of_nat n - 1) = (0 :: u8) \<and> of_nat n AND 7 = (0 :: u8) \<longrightarrow>
            n \<in> {0, 8, 16, 32, 64, 128}) [0..<256]"
          by code_simp
        moreover have "unat w < 2 ^ LENGTH(8)" by (rule unsigned_less)
        then have "unat w \<in> set [0..<256]" by simp
        ultimately have "w AND (w - 1) = 0 \<and> w AND 7 = 0 \<longrightarrow> unat w \<in> {0, 8, 16, 32, 64, 128}"
          unfolding list_all_iff by (auto dest!: bspec)
        with that have "unat w \<in> {0, 8, 16, 32, 64, 128}" by simp
        then show ?thesis by (auto simp: word_unat_eq_iff)
      qed
      with whole show ?thesis by blast
    qed
    with whole show ?thesis by (auto simp: gas_get_access_bit_width_def cut min_def)
  qed
qed

lemma total_width_u64:
  "unat (ucast (register_bit_offset gas) + ucast (register_bit_width gas) :: u64)
     = unat (register_bit_offset gas) + unat (register_bit_width gas)"
proof -
  have "unat (register_bit_offset gas) < 2 ^ LENGTH(8)" "unat (register_bit_width gas) < 2 ^ LENGTH(8)"
    by (rule unsigned_less)+
  then show ?thesis by (simp add: unat_word_ariths unsigned_ucast_eq take_bit_nat_eq_self)
qed

lemma gas_validate_ok:
  assumes "gas_validate (Some gas) = Some (UACPI_STATUS_OK, Some (W, T))"
  shows "T \<le> 64 \<and> unat T = unat (register_bit_offset gas) + unat (register_bit_width gas)
    \<and> (W \<in> {8, 16, 32, 64} \<or> W = 24 \<and> access_size gas = 3 \<or> W = 0 \<and> T = 0)
    \<and> (address_space_id gas = UACPI_ADDRESS_SPACE_SYSTEM_IO \<longrightarrow> W \<le> 32)"
proof -
  let ?x = "ucast (register_bit_offset gas) + ucast (register_bit_width gas) :: u64"
  obtain w where w: "gas_get_access_bit_width gas = Some w"
    and cases: "w \<in> {8, 16, 32, 64} \<or> w = 0 \<and> register_bit_offset gas = 0 \<and> register_bit_width gas = 0
        \<or> access_size gas \<noteq> 0 \<and> w = min (access_size gas * 8) (if address_space_id gas = UACPI_ADDRESS_SPACE_SYSTEM_IO then 32 else 64)"
    and io: "w \<le> (if address_space_id gas = UACPI_ADDRESS_SPACE_SYSTEM_IO then 32 else 64)"
    using access_width_cases by blast
  from assms w have W: "W = w" and T: "T = ucast ?x" and ok: "\<not> access_size gas > 4" "align_up ?x (ucast w) \<le> 64"
    by (auto simp: gas_validate_def Let_def split: if_splits)
  have small: "unat ?x \<le> 510"
  proof -
    have "unat (register_bit_offset gas) < 2 ^ LENGTH(8)" "unat (register_bit_width gas) < 2 ^ LENGTH(8)"
      by (rule unsigned_less)+
    then show ?thesis unfolding total_width_u64 by simp
  qed
  have widths: "w \<in> {8, 16, 32, 64} \<or> w = 24 \<and> access_size gas = 3 \<or> w = 0 \<and> ?x = 0"
  proof (cases "access_size gas = 0")
    case True with cases show ?thesis by auto
  next
    case False
    have "unat (access_size gas) \<le> 4" using ok(1) by (simp add: word_le_nat_alt not_less)
    moreover have "unat (access_size gas) \<noteq> 0" using False by (simp add: unat_eq_0)
    ultimately have "unat (access_size gas) \<in> {1, 2, 3, 4}" by auto
    then have a: "access_size gas \<in> {1, 2, 3, 4}" by (auto simp: word_unat_eq_iff)
    then have le: "access_size gas * 8 \<le> 32" by auto
    have "(32 :: u8) \<le> (if address_space_id gas = UACPI_ADDRESS_SPACE_SYSTEM_IO then 32 else 64)" by simp
    from order_trans [OF le this] have m: "min (access_size gas * 8) (if address_space_id gas = UACPI_ADDRESS_SPACE_SYSTEM_IO then 32 else 64)
        = access_size gas * 8"
      by (rule min.absorb1)
    from a have "access_size gas * 8 \<in> {8, 16, 32} \<or> access_size gas * 8 = 24 \<and> access_size gas = 3" by auto
    with cases show ?thesis unfolding m by auto
  qed
  have x: "unat ?x \<le> 64"
  proof (cases "w = 0")
    case True
    with widths show ?thesis by simp
  next
    case False
    with widths have "unat w \<le> 64" by auto
    moreover have "unat (ucast w - 1 :: u64) \<le> unat w" using widths False by auto
    ultimately have "unat ?x + unat (ucast w - 1 :: u64) \<le> 510 + 64"
      using small by (meson add_mono order_trans)
    then have "unat ?x + unat (ucast w - 1 :: u64) < 2 ^ 64" by (rule le_less_trans) simp
    from align_up_ge [OF this] ok(2) show ?thesis by (simp add: word_le_nat_alt)
  qed
  then have "unat T = unat (register_bit_offset gas) + unat (register_bit_width gas)"
    unfolding T total_width_u64 [symmetric] by (simp add: unsigned_ucast_eq take_bit_nat_eq_self)
  moreover from this x have "T \<le> 64" by (simp add: word_le_nat_alt total_width_u64)
  moreover have "w = 0 \<and> ?x = 0 \<Longrightarrow> T = 0" by (simp add: T)
  ultimately show ?thesis using widths io unfolding W by auto
qed

text \<open>Every loop ends, whatever the device answers.\<close>

lemma left_decreases:
  "left \<noteq> 0 \<Longrightarrow> (W :: u8) \<noteq> 0 \<Longrightarrow> unat (left - min left W) < unat left"
  by (auto simp: min_def unat_sub word_le_nat_alt unat_eq_0 not_le word_less_nat_alt neq0_conv [symmetric]
      simp del: neq0_conv)

lemma gas_read_loop_returns:
  "access_bit_width gas \<noteq> 0 \<or> left = 0 \<Longrightarrow> gas_read_loop A gas off left index offset out s \<noteq> None"
proof (induction "unat left" arbitrary: off left index offset out s rule: less_induct)
  case less
  show ?case
  proof (cases "left = 0")
    case True then show ?thesis by (subst gas_read_loop.simps) simp
  next
    case False
    with less.prems have W: "access_bit_width gas \<noteq> 0" by simp
    show ?thesis
      using less.hyps [OF left_decreases [OF False W]] W False
      by (subst gas_read_loop.simps) (auto simp: Let_def split: prod.splits)
  qed
qed

lemma gas_write_loop_returns:
  "access_bit_width gas \<noteq> 0 \<or> left = 0 \<Longrightarrow> gas_write_loop A gas v off left index offset s \<noteq> None"
proof (induction "unat left" arbitrary: off left index offset s rule: less_induct)
  case less
  show ?case
  proof (cases "left = 0")
    case True then show ?thesis by (subst gas_write_loop.simps) simp
  next
    case False
    with less.prems have W: "access_bit_width gas \<noteq> 0" by simp
    show ?thesis
      using less.hyps [OF left_decreases [OF False W]] W False
      by (subst gas_write_loop.simps) (auto simp: Let_def split: prod.splits)
  qed
qed

lemma gas_validate_returns: "gas_validate gas \<noteq> None"
proof (cases gas)
  case (Some g)
  obtain W where "gas_get_access_bit_width g = Some W" using access_width_cases by blast
  with Some show ?thesis by (simp add: gas_validate_def Let_def)
qed (simp add: gas_validate_def)

text \<open>What a successful mapping is.\<close>

lemma map_gas_result:
  assumes "uacpi_map_gas_noalloc A gas s = Some ((ret, Some m), s')"
  shows "ret = UACPI_STATUS_OK \<and> (\<exists>g. gas = Some g \<and> bit_offset m = register_bit_offset g
    \<and> gas_validate gas = Some (UACPI_STATUS_OK, Some (access_bit_width m, total_bit_width m))
    \<and> accessors m = (if address_space_id g = UACPI_ADDRESS_SPACE_SYSTEM_MEMORY then Memory_Accessors else Io_Accessors))"
proof -
  obtain r w where v: "gas_validate gas = Some (r, w)" using gas_validate_returns [of gas] by (metis not_None_eq surj_pair)
  have "r = UACPI_STATUS_OK" if "w \<noteq> None"
    using v that by (auto simp: gas_validate_def Let_def split: option.splits if_splits Option.bind_splits)
  moreover obtain g W T where "gas = Some g" "w = Some (W, T)"
    using v assms by (cases gas; cases w) (auto simp: uacpi_map_gas_noalloc_def)
  ultimately show ?thesis using v assms
    by (cases "address_space_id g = UACPI_ADDRESS_SPACE_SYSTEM_MEMORY")
      (auto simp: uacpi_map_gas_noalloc_def split: prod.splits if_splits)
qed

lemma map_gas_returns: "uacpi_map_gas_noalloc A gas s \<noteq> None"
proof -
  obtain r w where "gas_validate gas = Some (r, w)" using gas_validate_returns [of gas] by (metis not_None_eq surj_pair)
  then show ?thesis by (auto simp: uacpi_map_gas_noalloc_def split: option.splits prod.splits)
qed

lemma mapped_gas_loops_end:
  assumes "uacpi_map_gas_noalloc A gas s = Some ((ret, Some m), s')"
  shows "access_bit_width m \<noteq> 0 \<or> total_bit_width m = 0"
proof -
  from map_gas_result [OF assms] obtain g where
    "gas_validate (Some g) = Some (UACPI_STATUS_OK, Some (access_bit_width m, total_bit_width m))" by auto
  from gas_validate_ok [OF this] show ?thesis by auto
qed

section \<open>Properties\<close>

text \<open>C23: every register access ends, with supported widths.  Whatever the generic address and
  whatever the device answers, \<open>uacpi_gas_read\<close> and \<open>uacpi_gas_write\<close> return.  A mapping they
  obtain covers at most 64 bits, exactly the offset and width of the register, and is accessed
  in units of 8, 16, 32 or 64 bits, at most 32 in I/O space; the exceptions are the empty register
  and the access size 3, which gives units of 24 bits.\<close>

theorem gas_accesses_end:
  "uacpi_gas_read A gas s \<noteq> None \<and> uacpi_gas_write A gas v s \<noteq> None
   \<and> (\<forall>ret m s'. uacpi_map_gas_noalloc A gas s = Some ((ret, Some m), s') \<longrightarrow>
        (\<exists>g. gas = Some g
         \<and> unat (total_bit_width m) = unat (register_bit_offset g) + unat (register_bit_width g) \<and> total_bit_width m \<le> 64
         \<and> (access_bit_width m \<in> {8, 16, 32, 64} \<or> access_bit_width m = 24 \<and> access_size g = 3
            \<or> access_bit_width m = 0 \<and> total_bit_width m = 0)
         \<and> (accessors m = Io_Accessors \<longrightarrow> access_bit_width m \<le> 32)))"
proof (intro conjI allI impI)
  obtain ret m s1 where r: "uacpi_map_gas_noalloc A gas s = Some ((ret, m), s1)"
    using map_gas_returns [of A gas s] by (metis not_None_eq surj_pair)
  show "uacpi_gas_read A gas s \<noteq> None"
  proof (cases m)
    case None with r show ?thesis by (simp add: uacpi_gas_read_def)
  next
    case (Some g)
    with r mapped_gas_loops_end [of A gas s ret g s1]
    have "uacpi_gas_read_mapped A g s1 \<noteq> None"
      unfolding uacpi_gas_read_mapped_def by (intro gas_read_loop_returns) auto
    with r Some show ?thesis by (auto simp: uacpi_gas_read_def)
  qed
  show "uacpi_gas_write A gas v s \<noteq> None"
  proof (cases m)
    case None with r show ?thesis by (simp add: uacpi_gas_write_def)
  next
    case (Some g)
    with r mapped_gas_loops_end [of A gas s ret g s1]
    have "uacpi_gas_write_mapped A g v s1 \<noteq> None"
      unfolding uacpi_gas_write_mapped_def by (intro gas_write_loop_returns) auto
    with r Some show ?thesis by (auto simp: uacpi_gas_write_def)
  qed
next
  fix ret m s' assume "uacpi_map_gas_noalloc A gas s = Some ((ret, Some m), s')"
  from map_gas_result [OF this] obtain g where g: "gas = Some g"
    "gas_validate (Some g) = Some (UACPI_STATUS_OK, Some (access_bit_width m, total_bit_width m))"
    "accessors m = (if address_space_id g = UACPI_ADDRESS_SPACE_SYSTEM_MEMORY then Memory_Accessors else Io_Accessors)"
    by auto
  have "address_space_id g = UACPI_ADDRESS_SPACE_SYSTEM_IO" if "accessors m = Io_Accessors"
    using g(2,3) that by (auto simp: gas_validate_def split: if_splits)
  with gas_validate_ok [OF g(2)] g(1) show "\<exists>g. gas = Some g
         \<and> unat (total_bit_width m) = unat (register_bit_offset g) + unat (register_bit_width g) \<and> total_bit_width m \<le> 64
         \<and> (access_bit_width m \<in> {8, 16, 32, 64} \<or> access_bit_width m = 24 \<and> access_size g = 3
            \<or> access_bit_width m = 0 \<and> total_bit_width m = 0)
         \<and> (accessors m = Io_Accessors \<longrightarrow> access_bit_width m \<le> 32)" by blast
qed

text \<open>An I/O register of 32 bits.\<close>

definition example_gas :: acpi_gas where
  "example_gas = \<lparr>address_space_id = 1, register_bit_width = 32, register_bit_offset = 0, access_size = 0, gas_address = 0x400\<rparr>"

lemma example_gas_mapped:
  "uacpi_map_gas_noalloc ram_api (Some example_gas) m =
     Some ((UACPI_STATUS_OK, Some \<lparr>mapping = 0x400, accessors = Io_Accessors, access_bit_width = 32,
       total_bit_width = 32, bit_offset = 0\<rparr>), m)"
  by (simp add: uacpi_map_gas_noalloc_def gas_validate_def gas_get_access_bit_width_def example_gas_def
      UACPI_ADDRESS_SPACE_SYSTEM_IO_def UACPI_ADDRESS_SPACE_SYSTEM_MEMORY_def align_up_def ram_api_def Let_def)

theorem gas_accesses_end_witness:
  "access_bit_width \<lparr>mapping = 0x400, accessors = Io_Accessors, access_bit_width = 32,
       total_bit_width = 32, bit_offset = 0\<rparr> \<le> 32
   \<and> uacpi_gas_read ram_api (Some example_gas) (\<lambda>_. 0) \<noteq> None"
  using gas_accesses_end [of ram_api "Some example_gas" "\<lambda>_. 0"] example_gas_mapped [of "\<lambda>_. 0"] by simp

text \<open>C24: a register keeps what is written to it.  On registers that are plain memory, for every
  mapping of supported width that fits in 64 bits, reading after a write gives back the bits of
  the value from the first unit the bit offset leaves accessible up to the last unit of the
  register, and zeros elsewhere.\<close>

theorem gas_write_then_read:
  assumes "access_ok g w" and "chunks g w * unat w \<le> 8"
  shows "\<exists>m' v'. uacpi_gas_write_mapped ram_api g v m = Some (UACPI_STATUS_OK, m')
    \<and> uacpi_gas_read_mapped ram_api g m' = Some ((UACPI_STATUS_OK, v'), m')
    \<and> (\<forall>k. bit v' k = (unat (bit_offset g) div (8 * unat w) \<le> k div (8 * unat w)
         \<and> k < chunks g w * (8 * unat w) \<and> bit v k))"
  by (rule ram.write_then_read [OF assms])

theorem gas_write_then_read_witness:
  "\<exists>m' v'. uacpi_gas_write_mapped ram_api \<lparr>mapping = 0x400, accessors = Io_Accessors, access_bit_width = 16,
       total_bit_width = 32, bit_offset = 0\<rparr> 0x12345678 (\<lambda>_. 0) = Some (UACPI_STATUS_OK, m')
    \<and> uacpi_gas_read_mapped ram_api \<lparr>mapping = 0x400, accessors = Io_Accessors, access_bit_width = 16,
       total_bit_width = 32, bit_offset = 0\<rparr> m' = Some ((UACPI_STATUS_OK, v'), m')
    \<and> bit v' 28 \<and> \<not> bit v' 31"
proof -
  let ?g = "\<lparr>mapping = 0x400, accessors = Io_Accessors, access_bit_width = 16, total_bit_width = 32, bit_offset = 0\<rparr>"
  have "access_ok ?g 2" "chunks ?g 2 * unat (2 :: u8) \<le> 8" by (simp_all add: access_ok_def chunks_def)
  from gas_write_then_read [OF this, of "0x12345678" "\<lambda>_. 0"] obtain m' v' where
    w: "uacpi_gas_write_mapped ram_api ?g 0x12345678 (\<lambda>_. 0) = Some (UACPI_STATUS_OK, m')"
    and r: "uacpi_gas_read_mapped ram_api ?g m' = Some ((UACPI_STATUS_OK, v'), m')"
    and bits: "\<forall>k. bit v' k = (unat (bit_offset ?g) div (8 * unat (2 :: u8)) \<le> k div (8 * unat (2 :: u8))
         \<and> k < chunks ?g 2 * (8 * unat (2 :: u8)) \<and> bit (0x12345678 :: u64) k)" by blast
  have "bit v' 28" "\<not> bit v' 31" using bits by (simp_all add: chunks_def)
  with w r show ?thesis by blast
qed

text \<open>An access size of 3, which means accesses of 32 bits, is multiplied by 8 to 24 bits.
  Where the code honours the access size, that is for a register with a bit offset or a width
  that is not a power of two, every read and write of a register with access size 3 (the offset
  below 24) that can be mapped is refused as invalid.\<close>

lemma access_size_three_refused:
  assumes "access_size gas = 3" and "register_bit_offset gas \<noteq> 0" and "register_bit_offset gas < 24"
    and "uacpi_map_gas_noalloc A (Some gas) s = Some ((ret, Some m), s')"
  shows "uacpi_gas_read_mapped A m s' = Some ((UACPI_STATUS_INVALID_ARGUMENT, 0), s')
    \<and> uacpi_gas_write_mapped A m v s' = Some (UACPI_STATUS_INVALID_ARGUMENT, s')"
proof -
  from map_gas_result [OF assms(4)] have v: "bit_offset m = register_bit_offset gas"
    "gas_validate (Some gas) = Some (UACPI_STATUS_OK, Some (access_bit_width m, total_bit_width m))" by auto
  have "gas_get_access_bit_width gas = Some 24"
    using assms(1,2) by (simp add: gas_get_access_bit_width_def)
  with v(2) have W: "access_bit_width m = 24" by (auto simp: gas_validate_def Let_def split: if_splits)
  have "unat (total_bit_width m) \<noteq> 0" using gas_validate_ok [OF v(2)] assms(2) by (simp add: unat_eq_0)
  then have T: "total_bit_width m \<noteq> 0" by (simp add: unat_eq_0)
  have off: "\<not> 24 \<le> bit_offset m" using assms(3) v(1) by simp
  have "gas_read A m off 3 s' = ((UACPI_STATUS_INVALID_ARGUMENT, None), s')"
    and "gas_write A m off 3 x s' = (UACPI_STATUS_INVALID_ARGUMENT, s')" for off x
    by (simp_all add: gas_read_def gas_write_def uacpi_system_memory_read_def uacpi_system_memory_write_def
        uacpi_system_io_read_def uacpi_system_io_write_def split: gas_accessors.split)
  with T W off show ?thesis
    unfolding uacpi_gas_read_mapped_def uacpi_gas_write_mapped_def
    by (subst gas_read_loop.simps, subst gas_write_loop.simps) (simp add: Let_def)
qed

lemma access_size_three_refused_witness:
  "uacpi_gas_read_mapped ram_api \<lparr>mapping = 0x400, accessors = Memory_Accessors, access_bit_width = 24,
       total_bit_width = 32, bit_offset = 4\<rparr> (\<lambda>_. 0) = Some ((UACPI_STATUS_INVALID_ARGUMENT, 0), (\<lambda>_. 0))"
proof -
  let ?gas = "\<lparr>address_space_id = 0, register_bit_width = 28, register_bit_offset = 4, access_size = 3, gas_address = 0x400\<rparr>"
  have "uacpi_map_gas_noalloc ram_api (Some ?gas) (\<lambda>_. 0) = Some ((UACPI_STATUS_OK, Some
      \<lparr>mapping = 0x400, accessors = Memory_Accessors, access_bit_width = 24, total_bit_width = 32, bit_offset = 4\<rparr>), (\<lambda>_. 0))"
    by (simp add: uacpi_map_gas_noalloc_def gas_validate_def gas_get_access_bit_width_def
      UACPI_ADDRESS_SPACE_SYSTEM_IO_def UACPI_ADDRESS_SPACE_SYSTEM_MEMORY_def align_up_def ram_api_def Let_def)
  from access_size_three_refused [OF _ _ _ this] show ?thesis by simp
qed

end
