(* ===== verification/Registers.thy ===== *)
theory Registers
  imports Gas_Io
begin

text \<open>
  The fixed registers of \<^verbatim>\<open>src/kern/acpi/registers.c\<close>, with the numbers and masks of
  \<^verbatim>\<open>include/uacpi/acpi.h\<close> and \<^verbatim>\<open>include/uacpi/registers.h\<close>: registers made of one or two
  generic addresses, mapped on their first use, and the fields in them.  The spinlock is the
  host's.  This file is not part of the bare-bones build.
\<close>

named_theorems register_consts \<open>numbers and masks of the register tables\<close>

section \<open>Numbers\<close>

definition UACPI_REGISTER_PM1_STS :: u8 where [register_consts]: "UACPI_REGISTER_PM1_STS = 0"
definition UACPI_REGISTER_PM1_EN :: u8 where [register_consts]: "UACPI_REGISTER_PM1_EN = 1"
definition UACPI_REGISTER_PM1_CNT :: u8 where [register_consts]: "UACPI_REGISTER_PM1_CNT = 2"
definition UACPI_REGISTER_PM_TMR :: u8 where [register_consts]: "UACPI_REGISTER_PM_TMR = 3"
definition UACPI_REGISTER_PM2_CNT :: u8 where [register_consts]: "UACPI_REGISTER_PM2_CNT = 4"
definition UACPI_REGISTER_SLP_CNT :: u8 where [register_consts]: "UACPI_REGISTER_SLP_CNT = 5"
definition UACPI_REGISTER_SLP_STS :: u8 where [register_consts]: "UACPI_REGISTER_SLP_STS = 6"
definition UACPI_REGISTER_RESET :: u8 where [register_consts]: "UACPI_REGISTER_RESET = 7"
definition UACPI_REGISTER_SMI_CMD :: u8 where [register_consts]: "UACPI_REGISTER_SMI_CMD = 8"
definition UACPI_REGISTER_MAX :: u8 where [register_consts]: "UACPI_REGISTER_MAX = UACPI_REGISTER_SMI_CMD"

definition UACPI_REGISTER_FIELD_TMR_STS :: u32 where [register_consts]: "UACPI_REGISTER_FIELD_TMR_STS = 0"
definition UACPI_REGISTER_FIELD_BM_STS :: u32 where [register_consts]: "UACPI_REGISTER_FIELD_BM_STS = 1"
definition UACPI_REGISTER_FIELD_GBL_STS :: u32 where [register_consts]: "UACPI_REGISTER_FIELD_GBL_STS = 2"
definition UACPI_REGISTER_FIELD_PWRBTN_STS :: u32 where [register_consts]: "UACPI_REGISTER_FIELD_PWRBTN_STS = 3"
definition UACPI_REGISTER_FIELD_SLPBTN_STS :: u32 where [register_consts]: "UACPI_REGISTER_FIELD_SLPBTN_STS = 4"
definition UACPI_REGISTER_FIELD_RTC_STS :: u32 where [register_consts]: "UACPI_REGISTER_FIELD_RTC_STS = 5"
definition UACPI_REGISTER_FIELD_PCIEX_WAKE_STS :: u32 where [register_consts]: "UACPI_REGISTER_FIELD_PCIEX_WAKE_STS = 6"
definition UACPI_REGISTER_FIELD_HWR_WAK_STS :: u32 where [register_consts]: "UACPI_REGISTER_FIELD_HWR_WAK_STS = 7"
definition UACPI_REGISTER_FIELD_WAK_STS :: u32 where [register_consts]: "UACPI_REGISTER_FIELD_WAK_STS = 8"
definition UACPI_REGISTER_FIELD_TMR_EN :: u32 where [register_consts]: "UACPI_REGISTER_FIELD_TMR_EN = 9"
definition UACPI_REGISTER_FIELD_GBL_EN :: u32 where [register_consts]: "UACPI_REGISTER_FIELD_GBL_EN = 10"
definition UACPI_REGISTER_FIELD_PWRBTN_EN :: u32 where [register_consts]: "UACPI_REGISTER_FIELD_PWRBTN_EN = 11"
definition UACPI_REGISTER_FIELD_SLPBTN_EN :: u32 where [register_consts]: "UACPI_REGISTER_FIELD_SLPBTN_EN = 12"
definition UACPI_REGISTER_FIELD_RTC_EN :: u32 where [register_consts]: "UACPI_REGISTER_FIELD_RTC_EN = 13"
definition UACPI_REGISTER_FIELD_PCIEXP_WAKE_DIS :: u32 where [register_consts]: "UACPI_REGISTER_FIELD_PCIEXP_WAKE_DIS = 14"
definition UACPI_REGISTER_FIELD_SCI_EN :: u32 where [register_consts]: "UACPI_REGISTER_FIELD_SCI_EN = 15"
definition UACPI_REGISTER_FIELD_BM_RLD :: u32 where [register_consts]: "UACPI_REGISTER_FIELD_BM_RLD = 16"
definition UACPI_REGISTER_FIELD_GBL_RLS :: u32 where [register_consts]: "UACPI_REGISTER_FIELD_GBL_RLS = 17"
definition UACPI_REGISTER_FIELD_SLP_TYP :: u32 where [register_consts]: "UACPI_REGISTER_FIELD_SLP_TYP = 18"
definition UACPI_REGISTER_FIELD_HWR_SLP_TYP :: u32 where [register_consts]: "UACPI_REGISTER_FIELD_HWR_SLP_TYP = 19"
definition UACPI_REGISTER_FIELD_SLP_EN :: u32 where [register_consts]: "UACPI_REGISTER_FIELD_SLP_EN = 20"
definition UACPI_REGISTER_FIELD_HWR_SLP_EN :: u32 where [register_consts]: "UACPI_REGISTER_FIELD_HWR_SLP_EN = 21"
definition UACPI_REGISTER_FIELD_ARB_DIS :: u32 where [register_consts]: "UACPI_REGISTER_FIELD_ARB_DIS = 22"
definition UACPI_REGISTER_FIELD_MAX :: u8 where [register_consts]: "UACPI_REGISTER_FIELD_MAX = 22"

definition ACPI_SLP_TYP_MAX :: u16 where [register_consts]: "ACPI_SLP_TYP_MAX = 7"
definition ACPI_PM1_STS_TMR_STS_IDX :: nat where [register_consts]: "ACPI_PM1_STS_TMR_STS_IDX = 0"
definition ACPI_PM1_STS_BM_STS_IDX :: nat where [register_consts]: "ACPI_PM1_STS_BM_STS_IDX = 4"
definition ACPI_PM1_STS_GBL_STS_IDX :: nat where [register_consts]: "ACPI_PM1_STS_GBL_STS_IDX = 5"
definition ACPI_PM1_STS_PWRBTN_STS_IDX :: nat where [register_consts]: "ACPI_PM1_STS_PWRBTN_STS_IDX = 8"
definition ACPI_PM1_STS_SLPBTN_STS_IDX :: nat where [register_consts]: "ACPI_PM1_STS_SLPBTN_STS_IDX = 9"
definition ACPI_PM1_STS_RTC_STS_IDX :: nat where [register_consts]: "ACPI_PM1_STS_RTC_STS_IDX = 10"
definition ACPI_PM1_STS_IGN0_IDX :: nat where [register_consts]: "ACPI_PM1_STS_IGN0_IDX = 11"
definition ACPI_PM1_STS_PCIEXP_WAKE_STS_IDX :: nat where [register_consts]: "ACPI_PM1_STS_PCIEXP_WAKE_STS_IDX = 14"
definition ACPI_PM1_STS_WAKE_STS_IDX :: nat where [register_consts]: "ACPI_PM1_STS_WAKE_STS_IDX = 15"
definition ACPI_PM1_EN_TMR_EN_IDX :: nat where [register_consts]: "ACPI_PM1_EN_TMR_EN_IDX = 0"
definition ACPI_PM1_EN_GBL_EN_IDX :: nat where [register_consts]: "ACPI_PM1_EN_GBL_EN_IDX = 5"
definition ACPI_PM1_EN_PWRBTN_EN_IDX :: nat where [register_consts]: "ACPI_PM1_EN_PWRBTN_EN_IDX = 8"
definition ACPI_PM1_EN_SLPBTN_EN_IDX :: nat where [register_consts]: "ACPI_PM1_EN_SLPBTN_EN_IDX = 9"
definition ACPI_PM1_EN_RTC_EN_IDX :: nat where [register_consts]: "ACPI_PM1_EN_RTC_EN_IDX = 10"
definition ACPI_PM1_EN_PCIEXP_WAKE_DIS_IDX :: nat where [register_consts]: "ACPI_PM1_EN_PCIEXP_WAKE_DIS_IDX = 14"
definition ACPI_PM1_CNT_SCI_EN_IDX :: nat where [register_consts]: "ACPI_PM1_CNT_SCI_EN_IDX = 0"
definition ACPI_PM1_CNT_BM_RLD_IDX :: nat where [register_consts]: "ACPI_PM1_CNT_BM_RLD_IDX = 1"
definition ACPI_PM1_CNT_GBL_RLS_IDX :: nat where [register_consts]: "ACPI_PM1_CNT_GBL_RLS_IDX = 2"
definition ACPI_PM1_CNT_RSVD0_IDX :: nat where [register_consts]: "ACPI_PM1_CNT_RSVD0_IDX = 3"
definition ACPI_PM1_CNT_RSVD1_IDX :: nat where [register_consts]: "ACPI_PM1_CNT_RSVD1_IDX = 4"
definition ACPI_PM1_CNT_RSVD2_IDX :: nat where [register_consts]: "ACPI_PM1_CNT_RSVD2_IDX = 5"
definition ACPI_PM1_CNT_RSVD3_IDX :: nat where [register_consts]: "ACPI_PM1_CNT_RSVD3_IDX = 6"
definition ACPI_PM1_CNT_RSVD4_IDX :: nat where [register_consts]: "ACPI_PM1_CNT_RSVD4_IDX = 7"
definition ACPI_PM1_CNT_RSVD5_IDX :: nat where [register_consts]: "ACPI_PM1_CNT_RSVD5_IDX = 8"
definition ACPI_PM1_CNT_IGN0_IDX :: nat where [register_consts]: "ACPI_PM1_CNT_IGN0_IDX = 9"
definition ACPI_PM1_CNT_SLP_TYP_IDX :: nat where [register_consts]: "ACPI_PM1_CNT_SLP_TYP_IDX = 10"
definition ACPI_PM1_CNT_SLP_EN_IDX :: nat where [register_consts]: "ACPI_PM1_CNT_SLP_EN_IDX = 13"
definition ACPI_PM1_CNT_RSVD6_IDX :: nat where [register_consts]: "ACPI_PM1_CNT_RSVD6_IDX = 14"
definition ACPI_PM1_CNT_RSVD7_IDX :: nat where [register_consts]: "ACPI_PM1_CNT_RSVD7_IDX = 15"
definition ACPI_PM2_CNT_ARB_DIS_IDX :: nat where [register_consts]: "ACPI_PM2_CNT_ARB_DIS_IDX = 0"
definition ACPI_SLP_CNT_RSVD0_IDX :: nat where [register_consts]: "ACPI_SLP_CNT_RSVD0_IDX = 0"
definition ACPI_SLP_CNT_IGN0_IDX :: nat where [register_consts]: "ACPI_SLP_CNT_IGN0_IDX = 1"
definition ACPI_SLP_CNT_SLP_TYP_IDX :: nat where [register_consts]: "ACPI_SLP_CNT_SLP_TYP_IDX = 2"
definition ACPI_SLP_CNT_SLP_EN_IDX :: nat where [register_consts]: "ACPI_SLP_CNT_SLP_EN_IDX = 5"
definition ACPI_SLP_CNT_RSVD1_IDX :: nat where [register_consts]: "ACPI_SLP_CNT_RSVD1_IDX = 6"
definition ACPI_SLP_CNT_RSVD2_IDX :: nat where [register_consts]: "ACPI_SLP_CNT_RSVD2_IDX = 7"
definition ACPI_SLP_STS_WAK_STS_IDX :: nat where [register_consts]: "ACPI_SLP_STS_WAK_STS_IDX = 7"
definition ACPI_PM1_STS_TMR_STS_MASK :: u16 where [register_consts]: "ACPI_PM1_STS_TMR_STS_MASK = push_bit ACPI_PM1_STS_TMR_STS_IDX 1"
definition ACPI_PM1_STS_BM_STS_MASK :: u16 where [register_consts]: "ACPI_PM1_STS_BM_STS_MASK = push_bit ACPI_PM1_STS_BM_STS_IDX 1"
definition ACPI_PM1_STS_GBL_STS_MASK :: u16 where [register_consts]: "ACPI_PM1_STS_GBL_STS_MASK = push_bit ACPI_PM1_STS_GBL_STS_IDX 1"
definition ACPI_PM1_STS_PWRBTN_STS_MASK :: u16 where [register_consts]: "ACPI_PM1_STS_PWRBTN_STS_MASK = push_bit ACPI_PM1_STS_PWRBTN_STS_IDX 1"
definition ACPI_PM1_STS_SLPBTN_STS_MASK :: u16 where [register_consts]: "ACPI_PM1_STS_SLPBTN_STS_MASK = push_bit ACPI_PM1_STS_SLPBTN_STS_IDX 1"
definition ACPI_PM1_STS_RTC_STS_MASK :: u16 where [register_consts]: "ACPI_PM1_STS_RTC_STS_MASK = push_bit ACPI_PM1_STS_RTC_STS_IDX 1"
definition ACPI_PM1_STS_IGN0_MASK :: u16 where [register_consts]: "ACPI_PM1_STS_IGN0_MASK = push_bit ACPI_PM1_STS_IGN0_IDX 1"
definition ACPI_PM1_STS_PCIEXP_WAKE_STS_MASK :: u16 where [register_consts]: "ACPI_PM1_STS_PCIEXP_WAKE_STS_MASK = push_bit ACPI_PM1_STS_PCIEXP_WAKE_STS_IDX 1"
definition ACPI_PM1_STS_WAKE_STS_MASK :: u16 where [register_consts]: "ACPI_PM1_STS_WAKE_STS_MASK = push_bit ACPI_PM1_STS_WAKE_STS_IDX 1"
definition ACPI_PM1_EN_TMR_EN_MASK :: u16 where [register_consts]: "ACPI_PM1_EN_TMR_EN_MASK = push_bit ACPI_PM1_EN_TMR_EN_IDX 1"
definition ACPI_PM1_EN_GBL_EN_MASK :: u16 where [register_consts]: "ACPI_PM1_EN_GBL_EN_MASK = push_bit ACPI_PM1_EN_GBL_EN_IDX 1"
definition ACPI_PM1_EN_PWRBTN_EN_MASK :: u16 where [register_consts]: "ACPI_PM1_EN_PWRBTN_EN_MASK = push_bit ACPI_PM1_EN_PWRBTN_EN_IDX 1"
definition ACPI_PM1_EN_SLPBTN_EN_MASK :: u16 where [register_consts]: "ACPI_PM1_EN_SLPBTN_EN_MASK = push_bit ACPI_PM1_EN_SLPBTN_EN_IDX 1"
definition ACPI_PM1_EN_RTC_EN_MASK :: u16 where [register_consts]: "ACPI_PM1_EN_RTC_EN_MASK = push_bit ACPI_PM1_EN_RTC_EN_IDX 1"
definition ACPI_PM1_EN_PCIEXP_WAKE_DIS_MASK :: u16 where [register_consts]: "ACPI_PM1_EN_PCIEXP_WAKE_DIS_MASK = push_bit ACPI_PM1_EN_PCIEXP_WAKE_DIS_IDX 1"
definition ACPI_PM1_CNT_SCI_EN_MASK :: u16 where [register_consts]: "ACPI_PM1_CNT_SCI_EN_MASK = push_bit ACPI_PM1_CNT_SCI_EN_IDX 1"
definition ACPI_PM1_CNT_BM_RLD_MASK :: u16 where [register_consts]: "ACPI_PM1_CNT_BM_RLD_MASK = push_bit ACPI_PM1_CNT_BM_RLD_IDX 1"
definition ACPI_PM1_CNT_GBL_RLS_MASK :: u16 where [register_consts]: "ACPI_PM1_CNT_GBL_RLS_MASK = push_bit ACPI_PM1_CNT_GBL_RLS_IDX 1"
definition ACPI_PM1_CNT_SLP_TYP_MASK :: u16 where [register_consts]: "ACPI_PM1_CNT_SLP_TYP_MASK = push_bit ACPI_PM1_CNT_SLP_TYP_IDX ACPI_SLP_TYP_MAX"
definition ACPI_PM1_CNT_SLP_EN_MASK :: u16 where [register_consts]: "ACPI_PM1_CNT_SLP_EN_MASK = push_bit ACPI_PM1_CNT_SLP_EN_IDX 1"
definition ACPI_PM2_CNT_ARB_DIS_MASK :: u16 where [register_consts]: "ACPI_PM2_CNT_ARB_DIS_MASK = push_bit ACPI_PM2_CNT_ARB_DIS_IDX 1"
definition ACPI_SLP_CNT_SLP_TYP_MASK :: u16 where [register_consts]: "ACPI_SLP_CNT_SLP_TYP_MASK = push_bit ACPI_SLP_CNT_SLP_TYP_IDX ACPI_SLP_TYP_MAX"
definition ACPI_SLP_CNT_SLP_EN_MASK :: u16 where [register_consts]: "ACPI_SLP_CNT_SLP_EN_MASK = push_bit ACPI_SLP_CNT_SLP_EN_IDX 1"
definition ACPI_SLP_STS_WAK_STS_MASK :: u16 where [register_consts]: "ACPI_SLP_STS_WAK_STS_MASK = push_bit ACPI_SLP_STS_WAK_STS_IDX 1"
definition ACPI_PM1_CNT_PRESERVE_MASK :: u64 where [register_consts]: "ACPI_PM1_CNT_PRESERVE_MASK = push_bit ACPI_PM1_CNT_RSVD0_IDX 1 OR push_bit ACPI_PM1_CNT_RSVD1_IDX 1 OR push_bit ACPI_PM1_CNT_RSVD2_IDX 1 OR push_bit ACPI_PM1_CNT_RSVD3_IDX 1 OR push_bit ACPI_PM1_CNT_RSVD4_IDX 1 OR push_bit ACPI_PM1_CNT_RSVD5_IDX 1 OR push_bit ACPI_PM1_CNT_IGN0_IDX 1 OR push_bit ACPI_PM1_CNT_RSVD6_IDX 1 OR push_bit ACPI_PM1_CNT_RSVD7_IDX 1"
definition ACPI_PM2_CNT_PRESERVE_MASK :: u64 where [register_consts]: "ACPI_PM2_CNT_PRESERVE_MASK = NOT (ucast ACPI_PM2_CNT_ARB_DIS_MASK)"
definition ACPI_SLP_CNT_PRESERVE_MASK :: u64 where [register_consts]: "ACPI_SLP_CNT_PRESERVE_MASK = push_bit ACPI_SLP_CNT_RSVD0_IDX 1 OR push_bit ACPI_SLP_CNT_IGN0_IDX 1 OR push_bit ACPI_SLP_CNT_RSVD1_IDX 1 OR push_bit ACPI_SLP_CNT_RSVD2_IDX 1"
definition ACPI_SLP_STS_PRESERVE_MASK :: u64 where [register_consts]: "ACPI_SLP_STS_PRESERVE_MASK = NOT (ucast ACPI_SLP_STS_WAK_STS_MASK)"

section \<open>The tables\<close>

text \<open>The parts of the runtime context the tables point into, and pointers to them.\<close>

record register_context =
  pm1a_status_blk :: acpi_gas
  pm1b_status_blk :: acpi_gas
  pm1a_enable_blk :: acpi_gas
  pm1b_enable_blk :: acpi_gas
  x_pm1a_cnt_blk :: acpi_gas
  x_pm1b_cnt_blk :: acpi_gas
  x_pm_tmr_blk :: acpi_gas
  x_pm2_cnt_blk :: acpi_gas
  sleep_control_reg :: acpi_gas
  sleep_status_reg :: acpi_gas
  reset_reg :: acpi_gas
  smi_cmd :: u32

datatype accessor = Null | Gas "register_context \<Rightarrow> acpi_gas" | Dword "register_context \<Rightarrow> u32"

definition REGISTER_KIND_GAS :: u8 where [register_consts]: "REGISTER_KIND_GAS = 0"
definition REGISTER_KIND_IO :: u8 where [register_consts]: "REGISTER_KIND_IO = 1"
definition REGISTER_ACCESS_KIND_PRESERVE :: u8 where [register_consts]: "REGISTER_ACCESS_KIND_PRESERVE = 0"
definition REGISTER_ACCESS_KIND_WRITE_TO_CLEAR :: u8 where [register_consts]: "REGISTER_ACCESS_KIND_WRITE_TO_CLEAR = 1"
definition REGISTER_ACCESS_KIND_NORMAL :: u8 where [register_consts]: "REGISTER_ACCESS_KIND_NORMAL = 2"

record register_spec =
  reg_kind :: u8
  access_kind :: u8
  access_width :: u8
  reg_accessors :: "accessor list"
  write_only_mask :: u64
  preserve_mask :: u64

definition gas_spec :: "u8 \<Rightarrow> accessor list \<Rightarrow> u64 \<Rightarrow> u64 \<Rightarrow> register_spec" where
  "gas_spec access acc wo preserve = \<lparr>reg_kind = REGISTER_KIND_GAS, access_kind = access, access_width = 0,
     reg_accessors = acc, write_only_mask = wo, preserve_mask = preserve\<rparr>"

definition g_registers :: "register_spec list" where
  "g_registers =
    [gas_spec REGISTER_ACCESS_KIND_WRITE_TO_CLEAR [Gas pm1a_status_blk, Gas pm1b_status_blk]
       0 (ucast ACPI_PM1_STS_IGN0_MASK),
     gas_spec REGISTER_ACCESS_KIND_PRESERVE [Gas pm1a_enable_blk, Gas pm1b_enable_blk] 0 0,
     gas_spec REGISTER_ACCESS_KIND_PRESERVE [Gas x_pm1a_cnt_blk, Gas x_pm1b_cnt_blk]
       (ucast ACPI_PM1_CNT_SLP_EN_MASK OR ucast ACPI_PM1_CNT_GBL_RLS_MASK) ACPI_PM1_CNT_PRESERVE_MASK,
     gas_spec REGISTER_ACCESS_KIND_PRESERVE [Gas x_pm_tmr_blk, Null] 0 0,
     gas_spec REGISTER_ACCESS_KIND_PRESERVE [Gas x_pm2_cnt_blk, Null] 0 ACPI_PM2_CNT_PRESERVE_MASK,
     gas_spec REGISTER_ACCESS_KIND_PRESERVE [Gas sleep_control_reg, Null]
       (ucast ACPI_SLP_CNT_SLP_EN_MASK) ACPI_SLP_CNT_PRESERVE_MASK,
     gas_spec REGISTER_ACCESS_KIND_WRITE_TO_CLEAR [Gas sleep_status_reg, Null] 0 ACPI_SLP_STS_PRESERVE_MASK,
     gas_spec REGISTER_ACCESS_KIND_NORMAL [Gas reset_reg, Null] 0 0,
     \<lparr>reg_kind = REGISTER_KIND_IO, access_kind = REGISTER_ACCESS_KIND_NORMAL, access_width = 1,
       reg_accessors = [Dword smi_cmd, Null], write_only_mask = 0, preserve_mask = 0\<rparr>]"

record register_field =
  field_reg :: u8
  field_offset :: nat
  field_mask :: u16

definition g_fields :: "register_field list" where
  "g_fields =
    [\<lparr>field_reg = UACPI_REGISTER_PM1_STS, field_offset = ACPI_PM1_STS_TMR_STS_IDX, field_mask = ACPI_PM1_STS_TMR_STS_MASK\<rparr>,
     \<lparr>field_reg = UACPI_REGISTER_PM1_STS, field_offset = ACPI_PM1_STS_BM_STS_IDX, field_mask = ACPI_PM1_STS_BM_STS_MASK\<rparr>,
     \<lparr>field_reg = UACPI_REGISTER_PM1_STS, field_offset = ACPI_PM1_STS_GBL_STS_IDX, field_mask = ACPI_PM1_STS_GBL_STS_MASK\<rparr>,
     \<lparr>field_reg = UACPI_REGISTER_PM1_STS, field_offset = ACPI_PM1_STS_PWRBTN_STS_IDX, field_mask = ACPI_PM1_STS_PWRBTN_STS_MASK\<rparr>,
     \<lparr>field_reg = UACPI_REGISTER_PM1_STS, field_offset = ACPI_PM1_STS_SLPBTN_STS_IDX, field_mask = ACPI_PM1_STS_SLPBTN_STS_MASK\<rparr>,
     \<lparr>field_reg = UACPI_REGISTER_PM1_STS, field_offset = ACPI_PM1_STS_RTC_STS_IDX, field_mask = ACPI_PM1_STS_RTC_STS_MASK\<rparr>,
     \<lparr>field_reg = UACPI_REGISTER_PM1_STS, field_offset = ACPI_PM1_STS_PCIEXP_WAKE_STS_IDX, field_mask = ACPI_PM1_STS_PCIEXP_WAKE_STS_MASK\<rparr>,
     \<lparr>field_reg = UACPI_REGISTER_SLP_STS, field_offset = ACPI_SLP_STS_WAK_STS_IDX, field_mask = ACPI_SLP_STS_WAK_STS_MASK\<rparr>,
     \<lparr>field_reg = UACPI_REGISTER_PM1_STS, field_offset = ACPI_PM1_STS_WAKE_STS_IDX, field_mask = ACPI_PM1_STS_WAKE_STS_MASK\<rparr>,
     \<lparr>field_reg = UACPI_REGISTER_PM1_EN, field_offset = ACPI_PM1_EN_TMR_EN_IDX, field_mask = ACPI_PM1_EN_TMR_EN_MASK\<rparr>,
     \<lparr>field_reg = UACPI_REGISTER_PM1_EN, field_offset = ACPI_PM1_EN_GBL_EN_IDX, field_mask = ACPI_PM1_EN_GBL_EN_MASK\<rparr>,
     \<lparr>field_reg = UACPI_REGISTER_PM1_EN, field_offset = ACPI_PM1_EN_PWRBTN_EN_IDX, field_mask = ACPI_PM1_EN_PWRBTN_EN_MASK\<rparr>,
     \<lparr>field_reg = UACPI_REGISTER_PM1_EN, field_offset = ACPI_PM1_EN_SLPBTN_EN_IDX, field_mask = ACPI_PM1_EN_SLPBTN_EN_MASK\<rparr>,
     \<lparr>field_reg = UACPI_REGISTER_PM1_EN, field_offset = ACPI_PM1_EN_RTC_EN_IDX, field_mask = ACPI_PM1_EN_RTC_EN_MASK\<rparr>,
     \<lparr>field_reg = UACPI_REGISTER_PM1_EN, field_offset = ACPI_PM1_EN_PCIEXP_WAKE_DIS_IDX, field_mask = ACPI_PM1_EN_PCIEXP_WAKE_DIS_MASK\<rparr>,
     \<lparr>field_reg = UACPI_REGISTER_PM1_CNT, field_offset = ACPI_PM1_CNT_SCI_EN_IDX, field_mask = ACPI_PM1_CNT_SCI_EN_MASK\<rparr>,
     \<lparr>field_reg = UACPI_REGISTER_PM1_CNT, field_offset = ACPI_PM1_CNT_BM_RLD_IDX, field_mask = ACPI_PM1_CNT_BM_RLD_MASK\<rparr>,
     \<lparr>field_reg = UACPI_REGISTER_PM1_CNT, field_offset = ACPI_PM1_CNT_GBL_RLS_IDX, field_mask = ACPI_PM1_CNT_GBL_RLS_MASK\<rparr>,
     \<lparr>field_reg = UACPI_REGISTER_PM1_CNT, field_offset = ACPI_PM1_CNT_SLP_TYP_IDX, field_mask = ACPI_PM1_CNT_SLP_TYP_MASK\<rparr>,
     \<lparr>field_reg = UACPI_REGISTER_SLP_CNT, field_offset = ACPI_SLP_CNT_SLP_TYP_IDX, field_mask = ACPI_SLP_CNT_SLP_TYP_MASK\<rparr>,
     \<lparr>field_reg = UACPI_REGISTER_PM1_CNT, field_offset = ACPI_PM1_CNT_SLP_EN_IDX, field_mask = ACPI_PM1_CNT_SLP_EN_MASK\<rparr>,
     \<lparr>field_reg = UACPI_REGISTER_SLP_CNT, field_offset = ACPI_SLP_CNT_SLP_EN_IDX, field_mask = ACPI_SLP_CNT_SLP_EN_MASK\<rparr>,
     \<lparr>field_reg = UACPI_REGISTER_PM2_CNT, field_offset = ACPI_PM2_CNT_ARB_DIS_IDX, field_mask = ACPI_PM2_CNT_ARB_DIS_MASK\<rparr>]"

section \<open>Mappings\<close>

datatype register_mapping_state = REGISTER_MAPPING_STATE_NONE | REGISTER_MAPPING_STATE_NOT_NEEDED
  | REGISTER_MAPPING_STATE_MAPPED

record register_mapping =
  mappings :: "nat \<Rightarrow> uacpi_mapped_gas"
  states :: "nat \<Rightarrow> register_mapping_state"

record 's spin_api =
  kernel_create_spinlock :: "'s \<Rightarrow> u64 \<times> 's"
  kernel_free_spinlock :: "u64 \<Rightarrow> 's \<Rightarrow> 's"
  kernel_lock_spinlock :: "u64 \<Rightarrow> 's \<Rightarrow> u64 \<times> 's"
  kernel_unlock_spinlock :: "u64 \<Rightarrow> u64 \<Rightarrow> 's \<Rightarrow> 's"

text \<open>The file's variables: the lock and the mappings of the registers.\<close>

record register_state =
  g_reg_lock :: u64
  g_register_mappings :: "nat \<Rightarrow> register_mapping"

text \<open>Mapping one half.  A mapping that fails leaves the entry as it was.\<close>

definition map_one ::
  "'s io_api \<Rightarrow> register_context \<Rightarrow> register_spec \<Rightarrow> register_mapping \<Rightarrow> nat \<Rightarrow> 's \<Rightarrow>
   (uacpi_status \<times> register_mapping \<times> 's) option" where
  "map_one A ctx spec m idx s =
     (if states m idx \<noteq> REGISTER_MAPPING_STATE_NONE then Some (UACPI_STATUS_OK, m, s)
      else
        let not_needed = Some (UACPI_STATUS_OK, m\<lparr>states := (states m)(idx := REGISTER_MAPPING_STATE_NOT_NEEDED)\<rparr>, s);
            map_gas = (\<lambda>gas. do {
              ((ret, mapped), s) \<leftarrow> uacpi_map_gas_noalloc A (Some gas) s;
              Some (case mapped of None \<Rightarrow> (ret, m, s)
                    | Some g \<Rightarrow> (ret, m\<lparr>mappings := (mappings m)(idx := g),
                        states := (states m)(idx := REGISTER_MAPPING_STATE_MAPPED)\<rparr>, s)) })
        in if reg_kind spec = REGISTER_KIND_GAS then
             (case reg_accessors spec ! idx of
                Gas acc \<Rightarrow> if gas_address (acc ctx) = 0 then not_needed else map_gas (acc ctx)
              | _ \<Rightarrow> not_needed)
           else if idx \<noteq> 0 then not_needed
           else
             (case reg_accessors spec ! 0 of
                Dword acc \<Rightarrow> map_gas \<lparr>address_space_id = UACPI_ADDRESS_SPACE_SYSTEM_IO,
                  register_bit_width = access_width spec * 8, register_bit_offset = 0, access_size = 0,
                  gas_address = ucast (acc ctx)\<rparr>
              | _ \<Rightarrow> None))"

definition ensure_register_mapped ::
  "'s io_api \<Rightarrow> 's spin_api \<Rightarrow> register_context \<Rightarrow> u64 \<Rightarrow> register_spec \<Rightarrow> register_mapping \<Rightarrow> 's \<Rightarrow>
   (uacpi_status \<times> register_mapping \<times> 's) option" where
  "ensure_register_mapped A L ctx lock spec m s =
     (if states m 0 \<noteq> REGISTER_MAPPING_STATE_NONE \<and> states m 1 \<noteq> REGISTER_MAPPING_STATE_NONE then
        Some (UACPI_STATUS_OK, m, s)
      else case kernel_lock_spinlock L lock s of (flags, s) \<Rightarrow>
        do {
          (ret, m, s) \<leftarrow> map_one A ctx spec m 0 s;
          (ret, m, s) \<leftarrow> (if ret \<noteq> UACPI_STATUS_OK then Some (ret, m, s) else map_one A ctx spec m 1 s);
          Some (ret, m, kernel_unlock_spinlock L lock flags s) })"

section \<open>Reading and writing\<close>

text \<open>The value read, unchanged from 0 where the half is not mapped.\<close>

definition do_read_one :: "'s io_api \<Rightarrow> register_mapping \<Rightarrow> nat \<Rightarrow> 's \<Rightarrow> ((uacpi_status \<times> u64) \<times> 's) option" where
  "do_read_one A m idx s =
     (if states m idx \<noteq> REGISTER_MAPPING_STATE_MAPPED then Some ((UACPI_STATUS_OK, 0), s)
      else uacpi_gas_read_mapped A (mappings m idx) s)"

definition do_read_register ::
  "'s io_api \<Rightarrow> register_spec \<Rightarrow> register_mapping \<Rightarrow> 's \<Rightarrow> ((uacpi_status \<times> u64 option) \<times> 's) option" where
  "do_read_register A reg m s =
     do {
       ((ret, value0), s) \<leftarrow> do_read_one A m 0 s;
       if ret \<noteq> UACPI_STATUS_OK then Some ((ret, None), s)
       else do {
         ((ret, value1), s) \<leftarrow> do_read_one A m 1 s;
         Some (if ret \<noteq> UACPI_STATUS_OK then ((ret, None), s)
               else
                 let v = value0 OR value1;
                     v = (if write_only_mask reg \<noteq> 0 then v AND NOT (write_only_mask reg) else v)
                 in ((UACPI_STATUS_OK, Some v), s)) } }"

definition do_write_one :: "'s io_api \<Rightarrow> register_mapping \<Rightarrow> nat \<Rightarrow> u64 \<Rightarrow> 's \<Rightarrow> (uacpi_status \<times> 's) option" where
  "do_write_one A m idx in_value s =
     (if states m idx \<noteq> REGISTER_MAPPING_STATE_MAPPED then Some (UACPI_STATUS_OK, s)
      else uacpi_gas_write_mapped A (mappings m idx) in_value s)"

definition do_write_both ::
  "'s io_api \<Rightarrow> register_mapping \<Rightarrow> u64 \<Rightarrow> u64 \<Rightarrow> 's \<Rightarrow> (uacpi_status \<times> 's) option" where
  "do_write_both A m in_value0 in_value1 s =
     do {
       (ret, s) \<leftarrow> do_write_one A m 0 in_value0 s;
       if ret \<noteq> UACPI_STATUS_OK then Some (ret, s) else do_write_one A m 1 in_value1 s }"

definition do_write_register ::
  "'s io_api \<Rightarrow> register_spec \<Rightarrow> register_mapping \<Rightarrow> u64 \<Rightarrow> 's \<Rightarrow> (uacpi_status \<times> 's) option" where
  "do_write_register A reg m in_value s =
     (if preserve_mask reg \<noteq> 0 then
        let in_value = in_value AND NOT (preserve_mask reg) in
        if access_kind reg = REGISTER_ACCESS_KIND_PRESERVE then
          do {
            ((ret, data), s) \<leftarrow> do_read_register A reg m s;
            case data of None \<Rightarrow> Some (ret, s)
            | Some data \<Rightarrow>
                let in_value = in_value OR (data AND preserve_mask reg)
                in do_write_both A m in_value in_value s }
        else do_write_both A m in_value in_value s
      else do_write_both A m in_value in_value s)"

text \<open>The frame of the interface: the level check, the register and its mapping.  \<open>ready\<close> says
  that the initialisation level is reached; \<open>fail\<close> is the result on an error.\<close>

definition with_register ::
  "'s io_api \<Rightarrow> 's spin_api \<Rightarrow> register_context \<Rightarrow> bool \<Rightarrow> bool \<Rightarrow> nat \<Rightarrow> (uacpi_status \<Rightarrow> 'r) \<Rightarrow>
   (register_spec \<Rightarrow> register_mapping \<Rightarrow> 's \<Rightarrow> ('r \<times> 's) option) \<Rightarrow>
   register_state \<Rightarrow> 's \<Rightarrow> ('r \<times> register_state \<times> 's) option" where
  "with_register A L ctx ready valid idx fail body g s =
     (if \<not> ready then Some (fail UACPI_STATUS_INIT_LEVEL_MISMATCH, g, s)
      else if \<not> valid then Some (fail UACPI_STATUS_INVALID_ARGUMENT, g, s)
      else
        let reg = g_registers ! idx in
        do {
          (ret, m, s) \<leftarrow> ensure_register_mapped A L ctx (g_reg_lock g) reg (g_register_mappings g idx) s;
          let g = g\<lparr>g_register_mappings := (g_register_mappings g)(idx := m)\<rparr>;
          if ret \<noteq> UACPI_STATUS_OK then Some (fail ret, g, s)
          else do { (r, s) \<leftarrow> body reg m s; Some (r, g, s) } })"

text \<open>The number of the register is cut to a byte, as is that of a field below.\<close>

definition uacpi_read_register ::
  "'s io_api \<Rightarrow> 's spin_api \<Rightarrow> register_context \<Rightarrow> bool \<Rightarrow> u32 \<Rightarrow> register_state \<Rightarrow> 's \<Rightarrow>
   ((uacpi_status \<times> u64 option) \<times> register_state \<times> 's) option" where
  "uacpi_read_register A L ctx ready reg_enum =
     (let idx = ucast reg_enum :: u8 in
      with_register A L ctx ready (idx \<le> UACPI_REGISTER_MAX) (unat idx) (\<lambda>ret. (ret, None)) (do_read_register A))"

definition uacpi_write_register ::
  "'s io_api \<Rightarrow> 's spin_api \<Rightarrow> register_context \<Rightarrow> bool \<Rightarrow> u32 \<Rightarrow> u64 \<Rightarrow> register_state \<Rightarrow> 's \<Rightarrow>
   (uacpi_status \<times> register_state \<times> 's) option" where
  "uacpi_write_register A L ctx ready reg_enum in_value =
     (let idx = ucast reg_enum :: u8 in
      with_register A L ctx ready (idx \<le> UACPI_REGISTER_MAX) (unat idx) (\<lambda>ret. ret)
        (\<lambda>reg m. do_write_register A reg m in_value))"

definition uacpi_write_registers ::
  "'s io_api \<Rightarrow> 's spin_api \<Rightarrow> register_context \<Rightarrow> bool \<Rightarrow> u32 \<Rightarrow> u64 \<Rightarrow> u64 \<Rightarrow> register_state \<Rightarrow> 's \<Rightarrow>
   (uacpi_status \<times> register_state \<times> 's) option" where
  "uacpi_write_registers A L ctx ready reg_enum in_value0 in_value1 =
     (let idx = ucast reg_enum :: u8 in
      with_register A L ctx ready (idx \<le> UACPI_REGISTER_MAX) (unat idx) (\<lambda>ret. ret)
        (\<lambda>reg m. do_write_both A m in_value0 in_value1))"

section \<open>Start and end\<close>

definition uacpi_initialize_registers :: "'s spin_api \<Rightarrow> register_state \<Rightarrow> 's \<Rightarrow> uacpi_status \<times> register_state \<times> 's" where
  "uacpi_initialize_registers L g s =
     (case kernel_create_spinlock L s of (lock, s) \<Rightarrow>
        (if lock = 0 then UACPI_STATUS_OUT_OF_MEMORY else UACPI_STATUS_OK, g\<lparr>g_reg_lock := lock\<rparr>, s))"

definition null_mapping :: uacpi_mapped_gas where
  "null_mapping = \<lparr>mapping = 0, accessors = Memory_Accessors, access_bit_width = 0, total_bit_width = 0, bit_offset = 0\<rparr>"

definition empty_mapping :: register_mapping where
  "empty_mapping = \<lparr>mappings = (\<lambda>_. null_mapping), states = (\<lambda>_. REGISTER_MAPPING_STATE_NONE)\<rparr>"

definition unmap_register :: "'s io_api \<Rightarrow> register_state \<Rightarrow> nat \<Rightarrow> 's \<Rightarrow> 's" where
  "unmap_register A g i s =
     (let m = g_register_mappings g i;
          s = (if states m 0 = REGISTER_MAPPING_STATE_MAPPED then uacpi_unmap_gas_nofree A (mappings m 0) s else s)
      in if states m 1 = REGISTER_MAPPING_STATE_MAPPED then uacpi_unmap_gas_nofree A (mappings m 1) s else s)"

definition uacpi_deinitialize_registers :: "'s io_api \<Rightarrow> 's spin_api \<Rightarrow> register_state \<Rightarrow> 's \<Rightarrow> register_state \<times> 's" where
  "uacpi_deinitialize_registers A L g s =
     (let (g, s) = (if g_reg_lock g \<noteq> 0 then (g\<lparr>g_reg_lock := 0\<rparr>, kernel_free_spinlock L (g_reg_lock g) s) else (g, s));
          s = fold (unmap_register A g) [0..<unat UACPI_REGISTER_MAX + 1] s
      in (g\<lparr>g_register_mappings := (\<lambda>_. empty_mapping)\<rparr>, s))"

section \<open>Fields\<close>

definition uacpi_read_register_field ::
  "'s io_api \<Rightarrow> 's spin_api \<Rightarrow> register_context \<Rightarrow> bool \<Rightarrow> u32 \<Rightarrow> register_state \<Rightarrow> 's \<Rightarrow>
   ((uacpi_status \<times> u64 option) \<times> register_state \<times> 's) option" where
  "uacpi_read_register_field A L ctx ready field_enum =
     (let field_idx = ucast field_enum :: u8;
          field = g_fields ! unat field_idx in
      with_register A L ctx ready (field_idx \<le> UACPI_REGISTER_FIELD_MAX) (unat (field_reg field)) (\<lambda>ret. (ret, None))
        (\<lambda>reg m s. do {
           ((ret, v), s) \<leftarrow> do_read_register A reg m s;
           Some ((ret, map_option (\<lambda>v. drop_bit (field_offset field) (v AND ucast (field_mask field))) v), s) }))"

text \<open>What \<open>uacpi_write_register_field\<close> does with the lock held.  The first test compares the
  kind of the register, where its access kind is meant.\<close>

definition write_field_locked ::
  "'s io_api \<Rightarrow> register_field \<Rightarrow> u64 \<Rightarrow> register_spec \<Rightarrow> register_mapping \<Rightarrow> 's \<Rightarrow> (uacpi_status \<times> 's) option" where
  "write_field_locked A field in_value reg m s =
     (let in_value = push_bit (field_offset field) in_value AND ucast (field_mask field) in
      if reg_kind reg = REGISTER_ACCESS_KIND_WRITE_TO_CLEAR then
        if in_value = 0 then Some (UACPI_STATUS_OK, s) else do_write_register A reg m in_value s
      else
        do {
          ((ret, data), s) \<leftarrow> do_read_register A reg m s;
          case data of None \<Rightarrow> Some (ret, s)
          | Some data \<Rightarrow>
              do_write_register A reg m ((data AND NOT (ucast (field_mask field))) OR in_value) s })"

definition uacpi_write_register_field ::
  "'s io_api \<Rightarrow> 's spin_api \<Rightarrow> register_context \<Rightarrow> bool \<Rightarrow> u32 \<Rightarrow> u64 \<Rightarrow> register_state \<Rightarrow> 's \<Rightarrow>
   (uacpi_status \<times> register_state \<times> 's) option" where
  "uacpi_write_register_field A L ctx ready field_enum in_value g =
     (let field_idx = ucast field_enum :: u8;
          field = g_fields ! unat field_idx in
      with_register A L ctx ready (field_idx \<le> UACPI_REGISTER_FIELD_MAX) (unat (field_reg field)) (\<lambda>ret. ret)
        (\<lambda>reg m s. case kernel_lock_spinlock L (g_reg_lock g) s of (flags, s) \<Rightarrow>
           do { (ret, s) \<leftarrow> write_field_locked A field in_value reg m s;
                Some (ret, kernel_unlock_spinlock L (g_reg_lock g) flags s) }) g)"

section \<open>The tables are well formed\<close>

text \<open>A field lies in a register of the table, its mask is a run of bits that starts at its
  offset, and it shares no bit with the preserved bits of its register.  A register has two
  halves, of the kind the table says.\<close>

definition field_ok :: "register_field \<Rightarrow> bool" where
  "field_ok f \<longleftrightarrow> field_reg f < 9 \<and> field_offset f < 16
     \<and> field_mask f \<in> {push_bit (field_offset f) 1, push_bit (field_offset f) 7}
     \<and> preserve_mask (g_registers ! unat (field_reg f)) AND ucast (field_mask f) = 0
     \<and> reg_kind (g_registers ! unat (field_reg f)) = REGISTER_KIND_GAS
     \<and> access_kind (g_registers ! unat (field_reg f)) \<noteq> REGISTER_ACCESS_KIND_NORMAL"

definition spec_ok :: "register_spec \<Rightarrow> bool" where
  "spec_ok r \<longleftrightarrow> length (reg_accessors r) = 2
     \<and> (reg_kind r = REGISTER_KIND_GAS \<longrightarrow> (\<exists>a. reg_accessors r ! 0 = Gas a)
          \<and> (\<forall>a. reg_accessors r ! 1 \<noteq> Dword a))
     \<and> (reg_kind r \<noteq> REGISTER_KIND_GAS \<longrightarrow> access_width r \<in> {1, 2, 4} \<and> (\<exists>a. reg_accessors r = [Dword a, Null]))
     \<and> access_kind r \<le> REGISTER_ACCESS_KIND_NORMAL \<and> preserve_mask r AND write_only_mask r = 0"

definition fields_disjoint :: "register_field \<Rightarrow> register_field \<Rightarrow> bool" where
  "fields_disjoint f g \<longleftrightarrow> field_reg f \<noteq> field_reg g \<or> field_mask f AND field_mask g = 0"

lemma g_fields_ok: "list_all field_ok g_fields"
  by (simp add: field_ok_def g_fields_def g_registers_def gas_spec_def register_consts)

lemma g_registers_ok: "list_all spec_ok g_registers"
  by (simp add: spec_ok_def g_registers_def gas_spec_def register_consts)

lemma g_fields_disjoint: "sorted_wrt fields_disjoint g_fields"
  by (simp add: fields_disjoint_def g_fields_def register_consts)

lemma table_lengths: "length g_registers = unat UACPI_REGISTER_MAX + 1" "length g_fields = unat UACPI_REGISTER_FIELD_MAX + 1"
  by (simp_all add: g_registers_def g_fields_def register_consts)

lemma preserve_not_write_only:
  "r \<in> set g_registers \<Longrightarrow> preserve_mask r AND write_only_mask r = 0"
  using g_registers_ok by (auto simp: list_all_iff spec_ok_def)

text \<open>The register of a field.\<close>

abbreviation reg_of :: "register_field \<Rightarrow> register_spec" where
  "reg_of f \<equiv> g_registers ! unat (field_reg f)"

lemma reg_of_field:
  assumes "f \<in> set g_fields"
  shows "reg_of f \<in> set g_registers" "reg_kind (reg_of f) = REGISTER_KIND_GAS"
    "preserve_mask (reg_of f) AND ucast (field_mask f) = 0"
    "access_kind (reg_of f) \<noteq> REGISTER_ACCESS_KIND_NORMAL"
proof -
  from assms g_fields_ok have ok: "field_ok f" by (simp add: list_all_iff)
  then have "unat (field_reg f) < length g_registers"
    by (simp add: field_ok_def table_lengths register_consts word_less_nat_alt)
  then show "reg_of f \<in> set g_registers" by simp
qed (use assms g_fields_ok in \<open>auto simp: list_all_iff field_ok_def\<close>)

section \<open>What a field write does\<close>

text \<open>The value written for a field, from the value read.\<close>

lemma disjoint_bits: "(a :: u64) AND b = 0 \<Longrightarrow> bit a k \<Longrightarrow> \<not> bit b k"
  by (metis bit_0_eq bit_and_iff bot_apply bot_bool_def)

lemma read_register_no_write_only:
  assumes "do_read_register A reg m s = Some ((ret, Some v), s')"
  shows "ret = UACPI_STATUS_OK" and "v AND write_only_mask reg = 0"
proof -
  have z: "(x AND NOT w) AND w = 0" for x w :: u64 by (simp add: and.assoc)
  from assms show "ret = UACPI_STATUS_OK"
    by (auto simp: do_read_register_def Let_def split: if_splits Option.bind_splits)
  from assms show "v AND write_only_mask reg = 0"
    by (cases "write_only_mask reg = 0")
      (auto simp: do_read_register_def Let_def z split: if_splits Option.bind_splits)
qed

lemma write_field_locked_gas:
  assumes "reg_kind reg = REGISTER_KIND_GAS" and "do_read_register A reg m s = Some ((UACPI_STATUS_OK, Some v), s')"
  shows "write_field_locked A f x reg m s =
    do_write_register A reg m ((v AND NOT (ucast (field_mask f))) OR (push_bit (field_offset f) x AND ucast (field_mask f))) s'"
  using assms by (simp add: write_field_locked_def REGISTER_KIND_GAS_def REGISTER_ACCESS_KIND_WRITE_TO_CLEAR_def)

lemma write_register_cleared:
  "access_kind reg \<noteq> REGISTER_ACCESS_KIND_PRESERVE \<Longrightarrow>
   do_write_register A reg m w s = do_write_both A m (w AND NOT (preserve_mask reg)) (w AND NOT (preserve_mask reg)) s"
  by (simp add: do_write_register_def Let_def)

lemma write_register_preserved:
  assumes "access_kind reg = REGISTER_ACCESS_KIND_PRESERVE"
    and "do_read_register A reg m s = Some ((UACPI_STATUS_OK, Some v), s)"
  shows "do_write_register A reg m w s =
    do_write_both A m ((w AND NOT (preserve_mask reg)) OR (v AND preserve_mask reg))
      ((w AND NOT (preserve_mask reg)) OR (v AND preserve_mask reg)) s"
  using assms by (simp add: do_write_register_def Let_def)

lemma field_bits:
  assumes "f \<in> set g_fields"
  shows "bit ((v AND NOT (ucast (field_mask f))) OR (push_bit (field_offset f) x AND ucast (field_mask f)) :: u64) k =
      (if bit (field_mask f) k then field_offset f \<le> k \<and> bit x (k - field_offset f) else bit v k)"
    and "bit (field_mask f) k \<Longrightarrow> \<not> bit (preserve_mask (reg_of f)) k"
proof -
  have m: "bit (ucast (field_mask f) :: u64) k = bit (field_mask f) k" by (auto simp: bit_simps dest: bit_imp_le_length)
  have "k < 64" if "bit (field_mask f) k" using bit_imp_le_length [OF that] by simp
  with m show "bit ((v AND NOT (ucast (field_mask f))) OR (push_bit (field_offset f) x AND ucast (field_mask f)) :: u64) k =
      (if bit (field_mask f) k then field_offset f \<le> k \<and> bit x (k - field_offset f) else bit v k)"
    by (auto simp: bit_simps dest: bit_imp_le_length)
  show "\<not> bit (preserve_mask (reg_of f)) k" if "bit (field_mask f) k"
    using disjoint_bits [OF reg_of_field(3) [OF assms], of k] that m by blast
qed

text \<open>A register that is already mapped.\<close>

definition mapped_register :: "register_state \<Rightarrow> nat \<Rightarrow> bool" where
  "mapped_register g i \<longleftrightarrow> states (g_register_mappings g i) 0 \<noteq> REGISTER_MAPPING_STATE_NONE
     \<and> states (g_register_mappings g i) 1 \<noteq> REGISTER_MAPPING_STATE_NONE"

lemma with_register_mapped:
  assumes "mapped_register g i"
  shows "with_register A L ctx True True i fail body g s =
    do { (r, s) \<leftarrow> body (g_registers ! i) (g_register_mappings g i) s; Some (r, g, s) }"
  using assms by (simp add: with_register_def ensure_register_mapped_def mapped_register_def)

lemma write_register_field_mapped:
  assumes "i < length g_fields" and "mapped_register g (unat (field_reg (g_fields ! i)))"
    and "kernel_lock_spinlock L (g_reg_lock g) s = (flags, s1)"
  shows "uacpi_write_register_field A L ctx True (of_nat i) x g s =
    do { (ret, s) \<leftarrow> write_field_locked A (g_fields ! i) x (reg_of (g_fields ! i))
           (g_register_mappings g (unat (field_reg (g_fields ! i)))) s1;
         Some (ret, g, kernel_unlock_spinlock L (g_reg_lock g) flags s) }"
proof -
  have "i < 2 ^ LENGTH(8)" using assms(1) by (simp add: table_lengths register_consts)
  then have "unat (of_nat i :: u8) = i" by (simp add: unsigned_of_nat take_bit_nat_eq_self)
  moreover have "ucast (of_nat i :: u32) = (of_nat i :: u8)" using \<open>i < 2 ^ LENGTH(8)\<close>
    by (simp add: word_unat_eq_iff unsigned_ucast_eq unsigned_of_nat take_bit_nat_eq_self)
  moreover from assms(1) \<open>unat (of_nat i :: u8) = i\<close> have "(of_nat i :: u8) \<le> UACPI_REGISTER_FIELD_MAX"
    by (simp add: table_lengths register_consts word_le_nat_alt)
  ultimately show ?thesis using assms(2,3)
    by (simp add: uacpi_write_register_field_def with_register_mapped Let_def Option.bind_assoc case_prod_beta')
qed

section \<open>Properties\<close>

text \<open>C20: the tables of the registers are well formed.  There are nine registers and 23 fields;
  each register has two halves of its kind, and its preserved and write-only bits are apart; each
  field lies in a register with a generic address, its mask is a run of one or three bits from
  its offset and clear of the preserved bits; and no two fields of a register share a bit.\<close>

theorem register_tables_well_formed:
  "list_all spec_ok g_registers \<and> list_all field_ok g_fields \<and> sorted_wrt fields_disjoint g_fields
   \<and> length g_registers = unat UACPI_REGISTER_MAX + 1 \<and> length g_fields = unat UACPI_REGISTER_FIELD_MAX + 1"
  using g_registers_ok g_fields_ok g_fields_disjoint table_lengths by simp

text \<open>C21: writing a field changes that field only.  For a field of a register that is not a
  status register, \<open>uacpi_write_register_field\<close> writes to both halves the value read with
  the bits of the field replaced by those of the argument; every other bit is written as it
  was read, the write-only bits as 0.  Here reading the register does not change it.\<close>

theorem field_write_keeps_others:
  fixes A :: "'s io_api"
  defines "f i \<equiv> g_fields ! i"
  assumes "i < length g_fields" and "field_reg (f i) \<noteq> UACPI_REGISTER_PM1_STS" and "field_reg (f i) \<noteq> UACPI_REGISTER_SLP_STS"
    and "mapped_register g (unat (field_reg (f i)))"
    and "kernel_lock_spinlock L (g_reg_lock g) s = (flags, s1)"
    and "do_read_register A (reg_of (f i)) (g_register_mappings g (unat (field_reg (f i)))) s1 = Some ((UACPI_STATUS_OK, Some v), s1)"
  shows "\<exists>w. uacpi_write_register_field A L ctx True (of_nat i) x g s =
      do { (ret, s) \<leftarrow> do_write_both A (g_register_mappings g (unat (field_reg (f i)))) w w s1;
           Some (ret, g, kernel_unlock_spinlock L (g_reg_lock g) flags s) }
    \<and> (\<forall>k. bit w k = (if bit (field_mask (f i)) k then field_offset (f i) \<le> k \<and> bit x (k - field_offset (f i)) else bit v k))
    \<and> v AND write_only_mask (reg_of (f i)) = 0"
proof -
  have f: "f i \<in> set g_fields" using assms(2) by (simp add: f_def)
  have "list_all (\<lambda>f. field_reg f = UACPI_REGISTER_PM1_STS \<or> field_reg f = UACPI_REGISTER_SLP_STS
      \<or> access_kind (reg_of f) = REGISTER_ACCESS_KIND_PRESERVE) g_fields"
    by (simp add: g_fields_def g_registers_def gas_spec_def register_consts)
  with f assms(3,4) have p: "access_kind (reg_of (f i)) = REGISTER_ACCESS_KIND_PRESERVE" by (auto simp: list_all_iff)
  let ?M = "ucast (field_mask (f i)) :: u64" and ?P = "preserve_mask (reg_of (f i))"
  let ?u = "(v AND NOT ?M) OR (push_bit (field_offset (f i)) x AND ?M)"
  let ?w = "(?u AND NOT ?P) OR (v AND ?P)"
  have "bit ?w k = (if bit (field_mask (f i)) k then field_offset (f i) \<le> k \<and> bit x (k - field_offset (f i)) else bit v k)" for k
    using field_bits(1) [OF f, where k = k and v = v and x = x] field_bits(2) [OF f, of k] by (auto simp: bit_simps dest: bit_imp_le_length)
  moreover have "write_field_locked A (f i) x (reg_of (f i)) (g_register_mappings g (unat (field_reg (f i)))) s1 =
      do_write_both A (g_register_mappings g (unat (field_reg (f i)))) ?w ?w s1"
    by (simp only: write_field_locked_gas [OF reg_of_field(2) [OF f] assms(7)] write_register_preserved [OF p assms(7)])
  ultimately show ?thesis
    using write_register_field_mapped [OF assms(2) assms(5,6) [unfolded f_def], of A ctx x]
      read_register_no_write_only(2) [OF assms(7)]
    unfolding f_def by metis
qed

text \<open>A device for the witnesses: one register of 16 bits at I/O port 0x400, whose bits are
  plain in \<open>reg_api False\<close>, and cleared by writing 1 to them in \<open>reg_api True\<close>.\<close>

definition reg_api :: "bool \<Rightarrow> u64 io_api" where
  "reg_api w1c = \<lparr>io_alloc = (\<lambda>n r. (1, r)), io_free = (\<lambda>p r. r), io_kernel_map = (\<lambda>a n r. (a, r)),
     io_kernel_unmap = (\<lambda>a n r. r), kernel_io_map = (\<lambda>a n r. ((UACPI_STATUS_OK, a), r)), kernel_io_unmap = (\<lambda>h r. r),
     kernel_io_read = (\<lambda>h off n r. ((UACPI_STATUS_OK, r), r)),
     kernel_io_write = (\<lambda>h off n v r. (UACPI_STATUS_OK, if w1c then r AND NOT v else v)),
     kernel_pci_read = (\<lambda>h off n r. ((UACPI_STATUS_OK, 0), r)), kernel_pci_write = (\<lambda>h off n v r. (UACPI_STATUS_OK, r)),
     volatile_load = (\<lambda>p n r. (0, r)), volatile_store = (\<lambda>p n v r. r)\<rparr>"

definition no_locks :: "'s spin_api" where
  "no_locks = \<lparr>kernel_create_spinlock = (\<lambda>s. (1, s)), kernel_free_spinlock = (\<lambda>l s. s),
     kernel_lock_spinlock = (\<lambda>l s. (0, s)), kernel_unlock_spinlock = (\<lambda>l f s. s)\<rparr>"

definition reg_gas :: uacpi_mapped_gas where
  "reg_gas = \<lparr>mapping = 0x400, accessors = Io_Accessors, access_bit_width = 16, total_bit_width = 16, bit_offset = 0\<rparr>"

definition all_mapped :: register_state where
  "all_mapped = \<lparr>g_reg_lock = 1, g_register_mappings = (\<lambda>_. \<lparr>mappings = (\<lambda>_. reg_gas),
     states = (\<lambda>h. if h = 0 then REGISTER_MAPPING_STATE_MAPPED else REGISTER_MAPPING_STATE_NOT_NEEDED)\<rparr>)\<rparr>"

definition empty_context :: register_context where
  "empty_context = (let z = \<lparr>address_space_id = 1, register_bit_width = 16, register_bit_offset = 0, access_size = 0, gas_address = 0\<rparr>
     in \<lparr>pm1a_status_blk = z, pm1b_status_blk = z, pm1a_enable_blk = z, pm1b_enable_blk = z, x_pm1a_cnt_blk = z,
       x_pm1b_cnt_blk = z, x_pm_tmr_blk = z, x_pm2_cnt_blk = z, sleep_control_reg = z, sleep_status_reg = z,
       reset_reg = z, smi_cmd = 0\<rparr>)"

lemma reg_read: "uacpi_gas_read_mapped (reg_api b) reg_gas r = Some ((UACPI_STATUS_OK, r AND 0xFFFF), r)"
proof -
  have m: "access_mask reg_gas = 0xFFFF" by (simp add: access_mask_def reg_gas_def mask_eq_exp_minus_1)
  show ?thesis
    unfolding uacpi_gas_read_mapped_def
    by (subst gas_read_loop.simps, subst gas_read_loop.simps)
      (simp add: m [unfolded reg_gas_def] and.assoc gas_read_def uacpi_system_io_read_def low_bytes_def mask_eq_exp_minus_1 reg_gas_def reg_api_def)
qed

lemma reg_write:
  "uacpi_gas_write_mapped (reg_api b) reg_gas v r =
   Some (UACPI_STATUS_OK, if b then r AND NOT (v AND 0xFFFF) else v AND 0xFFFF)"
proof -
  have m: "access_mask reg_gas = 0xFFFF" by (simp add: access_mask_def reg_gas_def mask_eq_exp_minus_1)
  show ?thesis
    unfolding uacpi_gas_write_mapped_def
    by (subst gas_write_loop.simps, subst gas_write_loop.simps)
      (simp add: m [unfolded reg_gas_def] and.assoc or.assoc gas_write_def uacpi_system_io_write_def low_bytes_def mask_eq_exp_minus_1 reg_gas_def reg_api_def)
qed

theorem field_write_keeps_others_witness:
  "uacpi_write_register_field (reg_api False) no_locks empty_context True 18 5 all_mapped 0x2601 =
     Some (UACPI_STATUS_OK, all_mapped, 0x1601)"
proof -
  have f: "g_fields ! 18 = \<lparr>field_reg = UACPI_REGISTER_PM1_CNT, field_offset = ACPI_PM1_CNT_SLP_TYP_IDX,
      field_mask = ACPI_PM1_CNT_SLP_TYP_MASK\<rparr>" by (simp add: g_fields_def)
  have r: "do_read_register (reg_api False) (reg_of (g_fields ! 18))
      (g_register_mappings all_mapped (unat (field_reg (g_fields ! 18)))) 0x2601 = Some ((UACPI_STATUS_OK, Some 0x601), 0x2601)"
    by (simp add: f g_registers_def gas_spec_def register_consts do_read_register_def do_read_one_def all_mapped_def reg_read)
  have "18 < length g_fields" "mapped_register all_mapped i" "kernel_lock_spinlock no_locks l s = (0, s)" for i l and s :: u64
    by (simp_all add: table_lengths register_consts mapped_register_def all_mapped_def no_locks_def)
  moreover have "field_reg (g_fields ! 18) \<noteq> UACPI_REGISTER_PM1_STS" "field_reg (g_fields ! 18) \<noteq> UACPI_REGISTER_SLP_STS"
    by (simp_all add: f register_consts)
  ultimately obtain w where
    w: "uacpi_write_register_field (reg_api False) no_locks empty_context True (of_nat 18) 5 all_mapped 0x2601 =
      do { (ret, s) \<leftarrow> do_write_both (reg_api False) (g_register_mappings all_mapped (unat (field_reg (g_fields ! 18)))) w w 0x2601;
           Some (ret, all_mapped, kernel_unlock_spinlock no_locks (g_reg_lock all_mapped) 0 s) }"
    and bits: "bit w k = (if bit (field_mask (g_fields ! 18)) k then field_offset (g_fields ! 18) \<le> k
         \<and> bit (5 :: u64) (k - field_offset (g_fields ! 18)) else bit (0x601 :: u64) k)" for k
    using field_write_keeps_others [OF _ _ _ _ _ r, where ctx = empty_context and x = 5 and L = no_locks] by blast
  have "g_fields ! 18 \<in> set g_fields" by (rule nth_mem) (simp add: table_lengths register_consts)
  then have "w = ((0x601 AND NOT (ucast (field_mask (g_fields ! 18)))) OR
      (push_bit (field_offset (g_fields ! 18)) 5 AND ucast (field_mask (g_fields ! 18))) :: u64)"
    by (intro bit_word_eqI) (simp only: bits field_bits(1))
  then have "w = 0x1601" by (simp add: f register_consts)
  with w show ?thesis
    by (simp add: f register_consts do_write_both_def do_write_one_def all_mapped_def reg_write no_locks_def)
qed

text \<open>C22: a write to one status bit is a write to all of them.  The write-to-clear handling of
  \<open>uacpi_write_register_field\<close> is never reached, since the kind of the register is compared
  in place of its access kind.  So the value written to a status register, whatever the
  argument, has the bits of the other fields as they were read, and the device clears every
  event that was pending; a write of 0 to a field, meant to do nothing, clears all the others.\<close>

theorem status_field_write_clears_all:
  fixes A :: "'s io_api"
  defines "f i \<equiv> g_fields ! i"
  assumes "i < length g_fields" and "field_reg (f i) = UACPI_REGISTER_PM1_STS \<or> field_reg (f i) = UACPI_REGISTER_SLP_STS"
    and "mapped_register g (unat (field_reg (f i)))"
    and "kernel_lock_spinlock L (g_reg_lock g) s = (flags, s1)"
    and "do_read_register A (reg_of (f i)) (g_register_mappings g (unat (field_reg (f i)))) s1 = Some ((UACPI_STATUS_OK, Some v), s2)"
  shows "\<exists>w. uacpi_write_register_field A L ctx True (of_nat i) x g s =
      do { (ret, s) \<leftarrow> do_write_both A (g_register_mappings g (unat (field_reg (f i)))) w w s2;
           Some (ret, g, kernel_unlock_spinlock L (g_reg_lock g) flags s) }
    \<and> (\<forall>k. bit w k = (if bit (field_mask (f i)) k then field_offset (f i) \<le> k \<and> bit x (k - field_offset (f i))
         else bit v k \<and> \<not> bit (preserve_mask (reg_of (f i))) k))"
proof -
  have f: "f i \<in> set g_fields" using assms(2) by (simp add: f_def)
  have "list_all (\<lambda>f. field_reg f = UACPI_REGISTER_PM1_STS \<or> field_reg f = UACPI_REGISTER_SLP_STS \<longrightarrow>
      access_kind (reg_of f) \<noteq> REGISTER_ACCESS_KIND_PRESERVE) g_fields"
    by (simp add: g_fields_def g_registers_def gas_spec_def register_consts)
  with f assms(3) have p: "access_kind (reg_of (f i)) \<noteq> REGISTER_ACCESS_KIND_PRESERVE" by (auto simp: list_all_iff)
  let ?M = "ucast (field_mask (f i)) :: u64" and ?P = "preserve_mask (reg_of (f i))"
  let ?w = "((v AND NOT ?M) OR (push_bit (field_offset (f i)) x AND ?M)) AND NOT ?P"
  have "bit ?w k = (if bit (field_mask (f i)) k then field_offset (f i) \<le> k \<and> bit x (k - field_offset (f i))
      else bit v k \<and> \<not> bit ?P k)" for k
    using field_bits(1) [OF f, where k = k and v = v and x = x] field_bits(2) [OF f, of k] by (auto simp: bit_simps dest: bit_imp_le_length)
  moreover have "write_field_locked A (f i) x (reg_of (f i)) (g_register_mappings g (unat (field_reg (f i)))) s1 =
      do_write_both A (g_register_mappings g (unat (field_reg (f i)))) ?w ?w s2"
    by (simp only: write_field_locked_gas [OF reg_of_field(2) [OF f] assms(6)] write_register_cleared [OF p])
  ultimately show ?thesis
    using write_register_field_mapped [OF assms(2) assms(4,5) [unfolded f_def], of A ctx x]
    unfolding f_def by metis
qed

theorem status_field_write_clears_all_witness:
  "uacpi_write_register_field (reg_api True) no_locks empty_context True 2 0 all_mapped 0x8421 =
     Some (UACPI_STATUS_OK, all_mapped, 0x20)"
proof -
  have f: "g_fields ! 2 = \<lparr>field_reg = UACPI_REGISTER_PM1_STS, field_offset = ACPI_PM1_STS_GBL_STS_IDX,
      field_mask = ACPI_PM1_STS_GBL_STS_MASK\<rparr>" by (simp add: g_fields_def)
  have g: "preserve_mask (reg_of (g_fields ! 2)) = 0x800"
    by (simp add: f g_registers_def gas_spec_def register_consts)
  have r: "do_read_register (reg_api True) (reg_of (g_fields ! 2))
      (g_register_mappings all_mapped (unat (field_reg (g_fields ! 2)))) 0x8421 = Some ((UACPI_STATUS_OK, Some 0x8421), 0x8421)"
    by (simp add: f g_registers_def gas_spec_def register_consts do_read_register_def do_read_one_def all_mapped_def reg_read)
  have "2 < length g_fields" "mapped_register all_mapped i" "kernel_lock_spinlock no_locks l s = (0, s)" for i l and s :: u64
    by (simp_all add: table_lengths register_consts mapped_register_def all_mapped_def no_locks_def)
  moreover have "field_reg (g_fields ! 2) = UACPI_REGISTER_PM1_STS" by (simp add: f)
  ultimately obtain w where
    w: "uacpi_write_register_field (reg_api True) no_locks empty_context True (of_nat 2) 0 all_mapped 0x8421 =
      do { (ret, s) \<leftarrow> do_write_both (reg_api True) (g_register_mappings all_mapped (unat (field_reg (g_fields ! 2)))) w w 0x8421;
           Some (ret, all_mapped, kernel_unlock_spinlock no_locks (g_reg_lock all_mapped) 0 s) }"
    and bits: "bit w k = (if bit (field_mask (g_fields ! 2)) k then field_offset (g_fields ! 2) \<le> k
         \<and> bit (0 :: u64) (k - field_offset (g_fields ! 2)) else bit (0x8421 :: u64) k \<and> \<not> bit (0x800 :: u64) k)" for k
    using status_field_write_clears_all [OF _ _ _ _ r, unfolded g, where ctx = empty_context and x = 0 and L = no_locks] by blast
  have "g_fields ! 2 \<in> set g_fields" by (rule nth_mem) (simp add: table_lengths register_consts)
  from field_bits(1) [OF this] field_bits(2) [OF this, unfolded g]
  have "w = (((0x8421 AND NOT (ucast (field_mask (g_fields ! 2)))) OR
      (push_bit (field_offset (g_fields ! 2)) 0 AND ucast (field_mask (g_fields ! 2)))) AND NOT 0x800 :: u64)"
    by (intro bit_word_eqI) (auto simp only: bits bit_and_iff bit_not_iff possible_bit_word split: if_splits)
  then have "w = 0x8401" by (simp add: f register_consts)
  with w show ?thesis
    by (simp add: f register_consts do_write_both_def do_write_one_def all_mapped_def reg_write no_locks_def)
qed

end
