(* ===== verification/Opcodes.thy ===== *)
theory Opcodes
  imports Acpi_Base
begin

text \<open>
  The tables that tell the parser how to take apart every AML instruction:
  \<^verbatim>\<open>include/uacpi/internal/opcodes.h\<close> and \<^verbatim>\<open>src/kern/acpi/opcodes.c\<close>.  An instruction has a
  name, a code, properties and a program of parse operations, which the loop of
  \<^verbatim>\<open>interpreter.c\<close> runs.  This code is not part of the bare-bones build.
\<close>

section \<open>Parse operations\<close>

datatype (plugins only: code size) uacpi_parse_op =
    UACPI_PARSE_OP_END
  | UACPI_PARSE_OP_SKIP_WITH_WARN_IF_NULL
  | UACPI_PARSE_OP_EMIT_SKIP_WARN
  | UACPI_PARSE_OP_SIMPLE_NAME
  | UACPI_PARSE_OP_SUPERNAME
  | UACPI_PARSE_OP_SUPERNAME_OR_UNRESOLVED
  | UACPI_PARSE_OP_TERM_ARG
  | UACPI_PARSE_OP_TERM_ARG_UNWRAP_INTERNAL
  | UACPI_PARSE_OP_TERM_ARG_OR_NAMED_OBJECT
  | UACPI_PARSE_OP_TERM_ARG_OR_NAMED_OBJECT_OR_UNRESOLVED
  | UACPI_PARSE_OP_OPERAND
  | UACPI_PARSE_OP_STRING
  | UACPI_PARSE_OP_COMPUTATIONAL_DATA
  | UACPI_PARSE_OP_TARGET
  | UACPI_PARSE_OP_PKGLEN
  | UACPI_PARSE_OP_TRACKED_PKGLEN
  | UACPI_PARSE_OP_CREATE_NAMESTRING
  | UACPI_PARSE_OP_CREATE_NAMESTRING_OR_NULL_IF_LOAD
  | UACPI_PARSE_OP_EXISTING_NAMESTRING
  | UACPI_PARSE_OP_EXISTING_NAMESTRING_OR_NULL
  | UACPI_PARSE_OP_EXISTING_NAMESTRING_OR_NULL_IF_LOAD
  | UACPI_PARSE_OP_INVOKE_HANDLER
  | UACPI_PARSE_OP_OBJECT_ALLOC
  | UACPI_PARSE_OP_EMPTY_OBJECT_ALLOC
  | UACPI_PARSE_OP_OBJECT_CONVERT_TO_SHALLOW_COPY
  | UACPI_PARSE_OP_OBJECT_CONVERT_TO_DEEP_COPY
  | UACPI_PARSE_OP_OBJECT_ALLOC_TYPED
  | UACPI_PARSE_OP_RECORD_AML_PC
  | UACPI_PARSE_OP_LOAD_INLINE_IMM_AS_OBJECT
  | UACPI_PARSE_OP_LOAD_INLINE_IMM
  | UACPI_PARSE_OP_LOAD_ZERO_IMM
  | UACPI_PARSE_OP_LOAD_IMM
  | UACPI_PARSE_OP_LOAD_IMM_AS_OBJECT
  | UACPI_PARSE_OP_LOAD_FALSE_OBJECT
  | UACPI_PARSE_OP_LOAD_TRUE_OBJECT
  | UACPI_PARSE_OP_TRUNCATE_NUMBER
  | UACPI_PARSE_OP_TYPECHECK
  | UACPI_PARSE_OP_INSTALL_NAMESPACE_NODE
  | UACPI_PARSE_OP_OBJECT_TRANSFER_TO_PREV
  | UACPI_PARSE_OP_OBJECT_COPY_TO_PREV
  | UACPI_PARSE_OP_STORE_TO_TARGET
  | UACPI_PARSE_OP_STORE_TO_TARGET_INDIRECT
  | UACPI_PARSE_OP_UNREACHABLE
  | UACPI_PARSE_OP_BAD_OPCODE
  | UACPI_PARSE_OP_AML_PC_DECREMENT
  | UACPI_PARSE_OP_IMM_DECREMENT
  | UACPI_PARSE_OP_ITEM_POP
  | UACPI_PARSE_OP_DISPATCH_METHOD_CALL
  | UACPI_PARSE_OP_DISPATCH_TABLE_LOAD
  | UACPI_PARSE_OP_CONVERT_NAMESTRING
  | UACPI_PARSE_OP_IF_HAS_DATA
  | UACPI_PARSE_OP_IF_NULL
  | UACPI_PARSE_OP_IF_LAST_NULL
  | UACPI_PARSE_OP_IF_NOT_NULL
  | UACPI_PARSE_OP_IF_LAST_NOT_NULL
  | UACPI_PARSE_OP_IF_LAST_EQUALS
  | UACPI_PARSE_OP_IF_LAST_FALSE
  | UACPI_PARSE_OP_IF_LAST_TRUE
  | UACPI_PARSE_OP_SWITCH_TO_NEXT_IF_EQUALS
  | UACPI_PARSE_OP_IF_SWITCHED_FROM
  | UACPI_PARSE_OP_JMP

definition parse_ops :: "uacpi_parse_op list" where
  "parse_ops =
    [UACPI_PARSE_OP_END,
     UACPI_PARSE_OP_SKIP_WITH_WARN_IF_NULL,
     UACPI_PARSE_OP_EMIT_SKIP_WARN,
     UACPI_PARSE_OP_SIMPLE_NAME,
     UACPI_PARSE_OP_SUPERNAME,
     UACPI_PARSE_OP_SUPERNAME_OR_UNRESOLVED,
     UACPI_PARSE_OP_TERM_ARG,
     UACPI_PARSE_OP_TERM_ARG_UNWRAP_INTERNAL,
     UACPI_PARSE_OP_TERM_ARG_OR_NAMED_OBJECT,
     UACPI_PARSE_OP_TERM_ARG_OR_NAMED_OBJECT_OR_UNRESOLVED,
     UACPI_PARSE_OP_OPERAND,
     UACPI_PARSE_OP_STRING,
     UACPI_PARSE_OP_COMPUTATIONAL_DATA,
     UACPI_PARSE_OP_TARGET,
     UACPI_PARSE_OP_PKGLEN,
     UACPI_PARSE_OP_TRACKED_PKGLEN,
     UACPI_PARSE_OP_CREATE_NAMESTRING,
     UACPI_PARSE_OP_CREATE_NAMESTRING_OR_NULL_IF_LOAD,
     UACPI_PARSE_OP_EXISTING_NAMESTRING,
     UACPI_PARSE_OP_EXISTING_NAMESTRING_OR_NULL,
     UACPI_PARSE_OP_EXISTING_NAMESTRING_OR_NULL_IF_LOAD,
     UACPI_PARSE_OP_INVOKE_HANDLER,
     UACPI_PARSE_OP_OBJECT_ALLOC,
     UACPI_PARSE_OP_EMPTY_OBJECT_ALLOC,
     UACPI_PARSE_OP_OBJECT_CONVERT_TO_SHALLOW_COPY,
     UACPI_PARSE_OP_OBJECT_CONVERT_TO_DEEP_COPY,
     UACPI_PARSE_OP_OBJECT_ALLOC_TYPED,
     UACPI_PARSE_OP_RECORD_AML_PC,
     UACPI_PARSE_OP_LOAD_INLINE_IMM_AS_OBJECT,
     UACPI_PARSE_OP_LOAD_INLINE_IMM,
     UACPI_PARSE_OP_LOAD_ZERO_IMM,
     UACPI_PARSE_OP_LOAD_IMM,
     UACPI_PARSE_OP_LOAD_IMM_AS_OBJECT,
     UACPI_PARSE_OP_LOAD_FALSE_OBJECT,
     UACPI_PARSE_OP_LOAD_TRUE_OBJECT,
     UACPI_PARSE_OP_TRUNCATE_NUMBER,
     UACPI_PARSE_OP_TYPECHECK,
     UACPI_PARSE_OP_INSTALL_NAMESPACE_NODE,
     UACPI_PARSE_OP_OBJECT_TRANSFER_TO_PREV,
     UACPI_PARSE_OP_OBJECT_COPY_TO_PREV,
     UACPI_PARSE_OP_STORE_TO_TARGET,
     UACPI_PARSE_OP_STORE_TO_TARGET_INDIRECT,
     UACPI_PARSE_OP_UNREACHABLE,
     UACPI_PARSE_OP_BAD_OPCODE,
     UACPI_PARSE_OP_AML_PC_DECREMENT,
     UACPI_PARSE_OP_IMM_DECREMENT,
     UACPI_PARSE_OP_ITEM_POP,
     UACPI_PARSE_OP_DISPATCH_METHOD_CALL,
     UACPI_PARSE_OP_DISPATCH_TABLE_LOAD,
     UACPI_PARSE_OP_CONVERT_NAMESTRING,
     UACPI_PARSE_OP_IF_HAS_DATA,
     UACPI_PARSE_OP_IF_NULL,
     UACPI_PARSE_OP_IF_LAST_NULL,
     UACPI_PARSE_OP_IF_NOT_NULL,
     UACPI_PARSE_OP_IF_LAST_NOT_NULL,
     UACPI_PARSE_OP_IF_LAST_EQUALS,
     UACPI_PARSE_OP_IF_LAST_FALSE,
     UACPI_PARSE_OP_IF_LAST_TRUE,
     UACPI_PARSE_OP_SWITCH_TO_NEXT_IF_EQUALS,
     UACPI_PARSE_OP_IF_SWITCHED_FROM,
     UACPI_PARSE_OP_JMP]"

definition UACPI_PARSE_OP_MAX :: nat where "UACPI_PARSE_OP_MAX = 60"

primrec pop_byte :: "uacpi_parse_op \<Rightarrow> nat" where
  "pop_byte UACPI_PARSE_OP_END = 0"
| "pop_byte UACPI_PARSE_OP_SKIP_WITH_WARN_IF_NULL = 1"
| "pop_byte UACPI_PARSE_OP_EMIT_SKIP_WARN = 2"
| "pop_byte UACPI_PARSE_OP_SIMPLE_NAME = 3"
| "pop_byte UACPI_PARSE_OP_SUPERNAME = 4"
| "pop_byte UACPI_PARSE_OP_SUPERNAME_OR_UNRESOLVED = 5"
| "pop_byte UACPI_PARSE_OP_TERM_ARG = 6"
| "pop_byte UACPI_PARSE_OP_TERM_ARG_UNWRAP_INTERNAL = 7"
| "pop_byte UACPI_PARSE_OP_TERM_ARG_OR_NAMED_OBJECT = 8"
| "pop_byte UACPI_PARSE_OP_TERM_ARG_OR_NAMED_OBJECT_OR_UNRESOLVED = 9"
| "pop_byte UACPI_PARSE_OP_OPERAND = 10"
| "pop_byte UACPI_PARSE_OP_STRING = 11"
| "pop_byte UACPI_PARSE_OP_COMPUTATIONAL_DATA = 12"
| "pop_byte UACPI_PARSE_OP_TARGET = 13"
| "pop_byte UACPI_PARSE_OP_PKGLEN = 14"
| "pop_byte UACPI_PARSE_OP_TRACKED_PKGLEN = 15"
| "pop_byte UACPI_PARSE_OP_CREATE_NAMESTRING = 16"
| "pop_byte UACPI_PARSE_OP_CREATE_NAMESTRING_OR_NULL_IF_LOAD = 17"
| "pop_byte UACPI_PARSE_OP_EXISTING_NAMESTRING = 18"
| "pop_byte UACPI_PARSE_OP_EXISTING_NAMESTRING_OR_NULL = 19"
| "pop_byte UACPI_PARSE_OP_EXISTING_NAMESTRING_OR_NULL_IF_LOAD = 20"
| "pop_byte UACPI_PARSE_OP_INVOKE_HANDLER = 21"
| "pop_byte UACPI_PARSE_OP_OBJECT_ALLOC = 22"
| "pop_byte UACPI_PARSE_OP_EMPTY_OBJECT_ALLOC = 23"
| "pop_byte UACPI_PARSE_OP_OBJECT_CONVERT_TO_SHALLOW_COPY = 24"
| "pop_byte UACPI_PARSE_OP_OBJECT_CONVERT_TO_DEEP_COPY = 25"
| "pop_byte UACPI_PARSE_OP_OBJECT_ALLOC_TYPED = 26"
| "pop_byte UACPI_PARSE_OP_RECORD_AML_PC = 27"
| "pop_byte UACPI_PARSE_OP_LOAD_INLINE_IMM_AS_OBJECT = 28"
| "pop_byte UACPI_PARSE_OP_LOAD_INLINE_IMM = 29"
| "pop_byte UACPI_PARSE_OP_LOAD_ZERO_IMM = 30"
| "pop_byte UACPI_PARSE_OP_LOAD_IMM = 31"
| "pop_byte UACPI_PARSE_OP_LOAD_IMM_AS_OBJECT = 32"
| "pop_byte UACPI_PARSE_OP_LOAD_FALSE_OBJECT = 33"
| "pop_byte UACPI_PARSE_OP_LOAD_TRUE_OBJECT = 34"
| "pop_byte UACPI_PARSE_OP_TRUNCATE_NUMBER = 35"
| "pop_byte UACPI_PARSE_OP_TYPECHECK = 36"
| "pop_byte UACPI_PARSE_OP_INSTALL_NAMESPACE_NODE = 37"
| "pop_byte UACPI_PARSE_OP_OBJECT_TRANSFER_TO_PREV = 38"
| "pop_byte UACPI_PARSE_OP_OBJECT_COPY_TO_PREV = 39"
| "pop_byte UACPI_PARSE_OP_STORE_TO_TARGET = 40"
| "pop_byte UACPI_PARSE_OP_STORE_TO_TARGET_INDIRECT = 41"
| "pop_byte UACPI_PARSE_OP_UNREACHABLE = 42"
| "pop_byte UACPI_PARSE_OP_BAD_OPCODE = 43"
| "pop_byte UACPI_PARSE_OP_AML_PC_DECREMENT = 44"
| "pop_byte UACPI_PARSE_OP_IMM_DECREMENT = 45"
| "pop_byte UACPI_PARSE_OP_ITEM_POP = 46"
| "pop_byte UACPI_PARSE_OP_DISPATCH_METHOD_CALL = 47"
| "pop_byte UACPI_PARSE_OP_DISPATCH_TABLE_LOAD = 48"
| "pop_byte UACPI_PARSE_OP_CONVERT_NAMESTRING = 49"
| "pop_byte UACPI_PARSE_OP_IF_HAS_DATA = 50"
| "pop_byte UACPI_PARSE_OP_IF_NULL = 51"
| "pop_byte UACPI_PARSE_OP_IF_LAST_NULL = 52"
| "pop_byte UACPI_PARSE_OP_IF_NOT_NULL = 53"
| "pop_byte UACPI_PARSE_OP_IF_LAST_NOT_NULL = 54"
| "pop_byte UACPI_PARSE_OP_IF_LAST_EQUALS = 55"
| "pop_byte UACPI_PARSE_OP_IF_LAST_FALSE = 56"
| "pop_byte UACPI_PARSE_OP_IF_LAST_TRUE = 57"
| "pop_byte UACPI_PARSE_OP_SWITCH_TO_NEXT_IF_EQUALS = 58"
| "pop_byte UACPI_PARSE_OP_IF_SWITCHED_FROM = 59"
| "pop_byte UACPI_PARSE_OP_JMP = 60"

definition parse_op_of :: "nat \<Rightarrow> uacpi_parse_op option" where
  "parse_op_of n = (if n < length parse_ops then Some (parse_ops ! n) else None)"

lemma parse_ops_numbered:
  "list_all (\<lambda>p. parse_ops ! pop_byte p = p \<and> pop_byte p < length parse_ops) parse_ops"
  by code_simp

lemma parse_ops_all: "p \<in> set parse_ops"
  by (cases p) (simp_all add: parse_ops_def)

lemma nth_pop_byte: "parse_ops ! pop_byte p = p" and pop_byte_less: "pop_byte p < length parse_ops"
  using parse_ops_numbered parse_ops_all [of p] by (auto simp: list_all_iff)

lemma parse_op_of_pop_byte [simp]: "parse_op_of (pop_byte p) = Some p"
  by (simp add: parse_op_of_def nth_pop_byte pop_byte_less)

text \<open>The enumeration is ordered by its numbers, as the code compares them.\<close>

instantiation uacpi_parse_op :: linorder
begin

definition less_eq_uacpi_parse_op :: "uacpi_parse_op \<Rightarrow> uacpi_parse_op \<Rightarrow> bool" where
  "less_eq_uacpi_parse_op p q \<longleftrightarrow> pop_byte p \<le> pop_byte q"

definition less_uacpi_parse_op :: "uacpi_parse_op \<Rightarrow> uacpi_parse_op \<Rightarrow> bool" where
  "less_uacpi_parse_op p q \<longleftrightarrow> pop_byte p < pop_byte q"

instance
proof
  fix p q r :: uacpi_parse_op
  show "p < q \<longleftrightarrow> p \<le> q \<and> \<not> q \<le> p" by (auto simp: less_eq_uacpi_parse_op_def less_uacpi_parse_op_def)
  show "p \<le> p" by (simp add: less_eq_uacpi_parse_op_def)
  show "p \<le> q \<Longrightarrow> q \<le> r \<Longrightarrow> p \<le> r" by (simp add: less_eq_uacpi_parse_op_def)
  show "p \<le> q \<Longrightarrow> q \<le> p \<Longrightarrow> p = q" by (metis less_eq_uacpi_parse_op_def le_antisym nth_pop_byte)
  show "p \<le> q \<or> q \<le> p" by (auto simp: less_eq_uacpi_parse_op_def)
qed

end

text \<open>A byte of a program, an operation or a number in the place of an operand.\<close>

datatype decode_byte = P uacpi_parse_op | I nat

primrec byte_value :: "decode_byte \<Rightarrow> nat" where
  "byte_value (P p) = pop_byte p"
| "byte_value (I n) = n"

section \<open>Instructions\<close>

definition UACPI_OBJECT_UNINITIALIZED :: nat where "UACPI_OBJECT_UNINITIALIZED = 0"
definition UACPI_OBJECT_INTEGER :: nat where "UACPI_OBJECT_INTEGER = 1"
definition UACPI_OBJECT_STRING :: nat where "UACPI_OBJECT_STRING = 2"
definition UACPI_OBJECT_BUFFER :: nat where "UACPI_OBJECT_BUFFER = 3"
definition UACPI_OBJECT_PACKAGE :: nat where "UACPI_OBJECT_PACKAGE = 4"
definition UACPI_OBJECT_FIELD_UNIT :: nat where "UACPI_OBJECT_FIELD_UNIT = 5"
definition UACPI_OBJECT_DEVICE :: nat where "UACPI_OBJECT_DEVICE = 6"
definition UACPI_OBJECT_EVENT :: nat where "UACPI_OBJECT_EVENT = 7"
definition UACPI_OBJECT_METHOD :: nat where "UACPI_OBJECT_METHOD = 8"
definition UACPI_OBJECT_MUTEX :: nat where "UACPI_OBJECT_MUTEX = 9"
definition UACPI_OBJECT_OPERATION_REGION :: nat where "UACPI_OBJECT_OPERATION_REGION = 10"
definition UACPI_OBJECT_POWER_RESOURCE :: nat where "UACPI_OBJECT_POWER_RESOURCE = 11"
definition UACPI_OBJECT_PROCESSOR :: nat where "UACPI_OBJECT_PROCESSOR = 12"
definition UACPI_OBJECT_THERMAL_ZONE :: nat where "UACPI_OBJECT_THERMAL_ZONE = 13"
definition UACPI_OBJECT_BUFFER_FIELD :: nat where "UACPI_OBJECT_BUFFER_FIELD = 14"
definition UACPI_OBJECT_DEBUG :: nat where "UACPI_OBJECT_DEBUG = 16"
definition UACPI_OBJECT_REFERENCE :: nat where "UACPI_OBJECT_REFERENCE = 20"
definition UACPI_OBJECT_BUFFER_INDEX :: nat where "UACPI_OBJECT_BUFFER_INDEX = 21"

definition UACPI_OP_PROPERTY_TERM_ARG :: u8 where "UACPI_OP_PROPERTY_TERM_ARG = 1"
definition UACPI_OP_PROPERTY_SUPERNAME :: u8 where "UACPI_OP_PROPERTY_SUPERNAME = 2"
definition UACPI_OP_PROPERTY_SIMPLE_NAME :: u8 where "UACPI_OP_PROPERTY_SIMPLE_NAME = 4"
definition UACPI_OP_PROPERTY_TARGET :: u8 where "UACPI_OP_PROPERTY_TARGET = 8"
definition UACPI_OP_PROPERTY_OUT_OF_LINE :: u8 where "UACPI_OP_PROPERTY_OUT_OF_LINE = 16"
definition UACPI_OP_PROPERTY_RESERVED :: u8 where "UACPI_OP_PROPERTY_RESERVED = 128"

record uacpi_op_spec =
  op_name :: string
  decode_ops :: "nat list"
  properties :: u8
  op_code :: nat

definition UACPI_EXT_PREFIX :: nat where "UACPI_EXT_PREFIX = 0x5B"

definition UACPI_EXT_OP :: "nat \<Rightarrow> nat" where
  "UACPI_EXT_OP op = UACPI_EXT_PREFIX * 256 + op"

text \<open>The program of an instruction is an array of 16 bytes, zero after the bytes given, or an
  array elsewhere.\<close>

definition UACPI_OP :: "string \<Rightarrow> nat \<Rightarrow> u8 \<Rightarrow> decode_byte list \<Rightarrow> uacpi_op_spec" where
  "UACPI_OP name code props ops =
     \<lparr>op_name = name, decode_ops = map byte_value ops @ replicate (16 - length ops) 0, properties = props, op_code = code\<rparr>"

definition UACPI_OUT_OF_LINE_OP :: "string \<Rightarrow> nat \<Rightarrow> nat list \<Rightarrow> u8 \<Rightarrow> uacpi_op_spec" where
  "UACPI_OUT_OF_LINE_OP name code ops props =
     \<lparr>op_name = name, decode_ops = ops, properties = props, op_code = code\<rparr>"

definition UACPI_INTERNAL_OP :: "string \<Rightarrow> nat \<Rightarrow> uacpi_op_spec" where
  "UACPI_INTERNAL_OP token code =
     UACPI_OP (''Internal_'' @ token) code 0 [P UACPI_PARSE_OP_UNREACHABLE]"

definition UACPI_BAD_OPCODE :: "string \<Rightarrow> nat \<Rightarrow> uacpi_op_spec" where
  "UACPI_BAD_OPCODE token code =
     UACPI_OP (''Reserved_'' @ token) code 0 [P UACPI_PARSE_OP_BAD_OPCODE]"

definition UACPI_METHOD_CALL_OPCODE :: "string \<Rightarrow> nat \<Rightarrow> uacpi_op_spec" where
  "UACPI_METHOD_CALL_OPCODE token nargs =
     UACPI_OP (''InternalOpMethodCall'' @ token @ ''Args'') (0xF7 + nargs)
       (UACPI_OP_PROPERTY_TERM_ARG OR UACPI_OP_PROPERTY_RESERVED)
       [P UACPI_PARSE_OP_LOAD_INLINE_IMM, I 1, I nargs, P UACPI_PARSE_OP_IF_NOT_NULL, I 1, I 6,
        P UACPI_PARSE_OP_TERM_ARG_UNWRAP_INTERNAL, P UACPI_PARSE_OP_OBJECT_CONVERT_TO_SHALLOW_COPY,
        P UACPI_PARSE_OP_IMM_DECREMENT, I 1, P UACPI_PARSE_OP_JMP, I 3,
        P UACPI_PARSE_OP_OBJECT_ALLOC, P UACPI_PARSE_OP_DISPATCH_METHOD_CALL,
        P UACPI_PARSE_OP_OBJECT_TRANSFER_TO_PREV]"

definition UACPI_UNRESOLVED_NAME_STRING_OP :: "string \<Rightarrow> nat \<Rightarrow> uacpi_op_spec" where
  "UACPI_UNRESOLVED_NAME_STRING_OP character code =
     UACPI_OP (''UACPI_InternalOpUnresolvedNameString_'' @ character) code
       (UACPI_OP_PROPERTY_SIMPLE_NAME OR UACPI_OP_PROPERTY_SUPERNAME OR UACPI_OP_PROPERTY_TERM_ARG)
       [P UACPI_PARSE_OP_AML_PC_DECREMENT, P UACPI_PARSE_OP_EXISTING_NAMESTRING_OR_NULL,
        P UACPI_PARSE_OP_CONVERT_NAMESTRING]"

definition UACPI_BUILD_LOCAL_OR_ARG_OP :: "string \<Rightarrow> nat \<Rightarrow> string \<Rightarrow> nat \<Rightarrow> uacpi_op_spec" where
  "UACPI_BUILD_LOCAL_OR_ARG_OP prefix base token offset =
     UACPI_OP (prefix @ token @ ''Op'') (base + offset)
       (UACPI_OP_PROPERTY_SUPERNAME OR UACPI_OP_PROPERTY_TERM_ARG OR UACPI_OP_PROPERTY_SIMPLE_NAME)
       [P UACPI_PARSE_OP_EMPTY_OBJECT_ALLOC, P UACPI_PARSE_OP_INVOKE_HANDLER,
        P UACPI_PARSE_OP_OBJECT_TRANSFER_TO_PREV]"

definition UACPI_LOCALX_OP :: "string \<Rightarrow> nat \<Rightarrow> uacpi_op_spec" where
  "UACPI_LOCALX_OP token idx =
     UACPI_BUILD_LOCAL_OR_ARG_OP ''Local'' 0x60 token idx"

definition UACPI_ARGX_OP :: "string \<Rightarrow> nat \<Rightarrow> uacpi_op_spec" where
  "UACPI_ARGX_OP token idx =
     UACPI_BUILD_LOCAL_OR_ARG_OP ''Arg'' 0x68 token idx"

definition UACPI_BUILD_PACKAGE_OP :: "string \<Rightarrow> nat \<Rightarrow> nat \<Rightarrow> decode_byte list \<Rightarrow> uacpi_op_spec" where
  "UACPI_BUILD_PACKAGE_OP name code jmp_off args =
     UACPI_OP (name @ ''Op'') code UACPI_OP_PROPERTY_TERM_ARG
       ([P UACPI_PARSE_OP_TRACKED_PKGLEN] @ args @
        [P UACPI_PARSE_OP_IF_HAS_DATA, I 4, P UACPI_PARSE_OP_RECORD_AML_PC,
        P UACPI_PARSE_OP_TERM_ARG_OR_NAMED_OBJECT_OR_UNRESOLVED, P UACPI_PARSE_OP_JMP, I jmp_off,
        P UACPI_PARSE_OP_OBJECT_ALLOC_TYPED, I UACPI_OBJECT_PACKAGE,
        P UACPI_PARSE_OP_INVOKE_HANDLER, P UACPI_PARSE_OP_OBJECT_TRANSFER_TO_PREV])"

definition UACPI_BUILD_BINARY_MATH_OP :: "string \<Rightarrow> nat \<Rightarrow> uacpi_op_spec" where
  "UACPI_BUILD_BINARY_MATH_OP prefix code =
     UACPI_OP (prefix @ ''Op'') code UACPI_OP_PROPERTY_TERM_ARG
       [P UACPI_PARSE_OP_OPERAND, P UACPI_PARSE_OP_OPERAND, P UACPI_PARSE_OP_TARGET,
        P UACPI_PARSE_OP_OBJECT_ALLOC_TYPED, I UACPI_OBJECT_INTEGER,
        P UACPI_PARSE_OP_INVOKE_HANDLER, P UACPI_PARSE_OP_TRUNCATE_NUMBER,
        P UACPI_PARSE_OP_STORE_TO_TARGET, I 2, P UACPI_PARSE_OP_OBJECT_COPY_TO_PREV]"

definition UACPI_BUILD_UNARY_MATH_OP :: "string \<Rightarrow> nat \<Rightarrow> uacpi_op_spec" where
  "UACPI_BUILD_UNARY_MATH_OP kind code =
     UACPI_OP (kind @ ''Op'') code UACPI_OP_PROPERTY_TERM_ARG
       [P UACPI_PARSE_OP_OPERAND, P UACPI_PARSE_OP_TARGET, P UACPI_PARSE_OP_OBJECT_ALLOC_TYPED,
        I UACPI_OBJECT_INTEGER, P UACPI_PARSE_OP_INVOKE_HANDLER, P UACPI_PARSE_OP_STORE_TO_TARGET,
        I 1, P UACPI_PARSE_OP_OBJECT_TRANSFER_TO_PREV]"

definition UACPI_DO_BUILD_BUFFER_FIELD_OP :: "string \<Rightarrow> nat \<Rightarrow> nat \<Rightarrow> decode_byte list \<Rightarrow> uacpi_op_spec" where
  "UACPI_DO_BUILD_BUFFER_FIELD_OP kind code node_idx args =
     UACPI_OP (kind @ ''FieldOp'') code 0
       ([P UACPI_PARSE_OP_TERM_ARG_UNWRAP_INTERNAL, P UACPI_PARSE_OP_TYPECHECK,
        I UACPI_OBJECT_BUFFER, P UACPI_PARSE_OP_OPERAND] @ args @
        [P UACPI_PARSE_OP_CREATE_NAMESTRING_OR_NULL_IF_LOAD,
        P UACPI_PARSE_OP_SKIP_WITH_WARN_IF_NULL, I node_idx, P UACPI_PARSE_OP_OBJECT_ALLOC_TYPED,
        I UACPI_OBJECT_BUFFER_FIELD, P UACPI_PARSE_OP_INVOKE_HANDLER,
        P UACPI_PARSE_OP_INSTALL_NAMESPACE_NODE, I node_idx])"

definition UACPI_BUILD_BUFFER_FIELD_OP :: "string \<Rightarrow> nat \<Rightarrow> uacpi_op_spec" where
  "UACPI_BUILD_BUFFER_FIELD_OP kind code =
     UACPI_DO_BUILD_BUFFER_FIELD_OP (''Create'' @ kind) code 2 []"

definition UACPI_INTEGER_LITERAL_OP :: "string \<Rightarrow> nat \<Rightarrow> nat \<Rightarrow> uacpi_op_spec" where
  "UACPI_INTEGER_LITERAL_OP kind code bytes =
     UACPI_OP (kind @ ''Prefix'') code UACPI_OP_PROPERTY_TERM_ARG
       [P UACPI_PARSE_OP_LOAD_IMM_AS_OBJECT, I bytes, P UACPI_PARSE_OP_OBJECT_TRANSFER_TO_PREV]"

definition UACPI_BUILD_BINARY_LOGIC_OP :: "string \<Rightarrow> nat \<Rightarrow> uacpi_op_spec" where
  "UACPI_BUILD_BINARY_LOGIC_OP kind code =
     UACPI_OP (kind @ ''Op'') code UACPI_OP_PROPERTY_TERM_ARG
       [P UACPI_PARSE_OP_COMPUTATIONAL_DATA, P UACPI_PARSE_OP_COMPUTATIONAL_DATA,
        P UACPI_PARSE_OP_OBJECT_ALLOC_TYPED, I UACPI_OBJECT_INTEGER,
        P UACPI_PARSE_OP_INVOKE_HANDLER, P UACPI_PARSE_OP_OBJECT_TRANSFER_TO_PREV]"

definition UACPI_BUILD_TO_OP :: "string \<Rightarrow> nat \<Rightarrow> nat \<Rightarrow> uacpi_op_spec" where
  "UACPI_BUILD_TO_OP kind code dst_type =
     UACPI_OP (''To'' @ kind @ ''Op'') code UACPI_OP_PROPERTY_TERM_ARG
       [P UACPI_PARSE_OP_COMPUTATIONAL_DATA, P UACPI_PARSE_OP_TARGET,
        P UACPI_PARSE_OP_OBJECT_ALLOC_TYPED, I dst_type, P UACPI_PARSE_OP_INVOKE_HANDLER,
        P UACPI_PARSE_OP_STORE_TO_TARGET, I 1, P UACPI_PARSE_OP_OBJECT_TRANSFER_TO_PREV]"

definition UACPI_BUILD_INC_DEC_OP :: "string \<Rightarrow> nat \<Rightarrow> uacpi_op_spec" where
  "UACPI_BUILD_INC_DEC_OP prefix code =
     UACPI_OP (prefix @ ''Op'') code UACPI_OP_PROPERTY_TERM_ARG
       [P UACPI_PARSE_OP_SUPERNAME, P UACPI_PARSE_OP_OBJECT_ALLOC_TYPED, I UACPI_OBJECT_INTEGER,
        P UACPI_PARSE_OP_INVOKE_HANDLER, P UACPI_PARSE_OP_TRUNCATE_NUMBER,
        P UACPI_PARSE_OP_STORE_TO_TARGET, I 0, P UACPI_PARSE_OP_OBJECT_TRANSFER_TO_PREV]"

definition UACPI_BUILD_NAMED_SCOPE_OBJECT_OP :: "string \<Rightarrow> nat \<Rightarrow> nat \<Rightarrow> decode_byte list \<Rightarrow> uacpi_op_spec" where
  "UACPI_BUILD_NAMED_SCOPE_OBJECT_OP name code kind args =
     UACPI_OP (name @ ''Op'') (UACPI_EXT_OP code) 0
       ([P UACPI_PARSE_OP_TRACKED_PKGLEN, P UACPI_PARSE_OP_CREATE_NAMESTRING_OR_NULL_IF_LOAD] @ args @
        [P UACPI_PARSE_OP_SKIP_WITH_WARN_IF_NULL, I 1, P UACPI_PARSE_OP_OBJECT_ALLOC_TYPED, I kind,
        P UACPI_PARSE_OP_INVOKE_HANDLER, P UACPI_PARSE_OP_INSTALL_NAMESPACE_NODE, I 1])"

definition UACPI_BUILD_TO_FROM_BCD :: "string \<Rightarrow> nat \<Rightarrow> uacpi_op_spec" where
  "UACPI_BUILD_TO_FROM_BCD kind code =
     UACPI_OP (kind @ ''BCDOp'') (UACPI_EXT_OP code) UACPI_OP_PROPERTY_TERM_ARG
       [P UACPI_PARSE_OP_OPERAND, P UACPI_PARSE_OP_TARGET, P UACPI_PARSE_OP_OBJECT_ALLOC_TYPED,
        I UACPI_OBJECT_INTEGER, P UACPI_PARSE_OP_INVOKE_HANDLER, P UACPI_PARSE_OP_STORE_TO_TARGET,
        I 1, P UACPI_PARSE_OP_OBJECT_TRANSFER_TO_PREV]"

text \<open>The programs in arrays of their own.\<close>

definition PARSE_FIELD_ELEMENTS :: "nat \<Rightarrow> decode_byte list" where
  "PARSE_FIELD_ELEMENTS parse_loop_pc =
     [P UACPI_PARSE_OP_IF_HAS_DATA, I 44, P UACPI_PARSE_OP_LOAD_IMM, I 1,
      P UACPI_PARSE_OP_IF_LAST_EQUALS, I 0x00, I 3, P UACPI_PARSE_OP_PKGLEN, P UACPI_PARSE_OP_JMP,
      I parse_loop_pc, P UACPI_PARSE_OP_IF_LAST_EQUALS, I 0x01, I 6, P UACPI_PARSE_OP_LOAD_IMM,
      I 1, P UACPI_PARSE_OP_LOAD_IMM, I 1, P UACPI_PARSE_OP_JMP, I parse_loop_pc,
      P UACPI_PARSE_OP_IF_LAST_EQUALS, I 0x02, I 5, P UACPI_PARSE_OP_TERM_ARG_UNWRAP_INTERNAL,
      P UACPI_PARSE_OP_TYPECHECK, I UACPI_OBJECT_BUFFER, P UACPI_PARSE_OP_JMP, I parse_loop_pc,
      P UACPI_PARSE_OP_IF_LAST_EQUALS, I 0x03, I 8, P UACPI_PARSE_OP_LOAD_IMM, I 1,
      P UACPI_PARSE_OP_LOAD_IMM, I 1, P UACPI_PARSE_OP_LOAD_IMM, I 1, P UACPI_PARSE_OP_JMP,
      I parse_loop_pc, P UACPI_PARSE_OP_ITEM_POP, P UACPI_PARSE_OP_AML_PC_DECREMENT,
      P UACPI_PARSE_OP_CREATE_NAMESTRING, P UACPI_PARSE_OP_PKGLEN,
      P UACPI_PARSE_OP_OBJECT_ALLOC_TYPED, I UACPI_OBJECT_FIELD_UNIT, P UACPI_PARSE_OP_JMP,
      I parse_loop_pc, P UACPI_PARSE_OP_INVOKE_HANDLER, P UACPI_PARSE_OP_END]"

definition uacpi_field_op_decode_ops :: "nat list" where
  "uacpi_field_op_decode_ops = map byte_value
     ([P UACPI_PARSE_OP_TRACKED_PKGLEN, P UACPI_PARSE_OP_EXISTING_NAMESTRING,
      P UACPI_PARSE_OP_LOAD_IMM, I 1] @ PARSE_FIELD_ELEMENTS 4)"

definition uacpi_bank_field_op_decode_ops :: "nat list" where
  "uacpi_bank_field_op_decode_ops = map byte_value
     ([P UACPI_PARSE_OP_TRACKED_PKGLEN, P UACPI_PARSE_OP_EXISTING_NAMESTRING,
      P UACPI_PARSE_OP_EXISTING_NAMESTRING, P UACPI_PARSE_OP_OPERAND, P UACPI_PARSE_OP_LOAD_IMM, I 1] @ PARSE_FIELD_ELEMENTS 6)"

definition uacpi_index_field_op_decode_ops :: "nat list" where
  "uacpi_index_field_op_decode_ops = map byte_value
     ([P UACPI_PARSE_OP_TRACKED_PKGLEN, P UACPI_PARSE_OP_EXISTING_NAMESTRING,
      P UACPI_PARSE_OP_EXISTING_NAMESTRING, P UACPI_PARSE_OP_LOAD_IMM, I 1] @ PARSE_FIELD_ELEMENTS 5)"

definition uacpi_load_op_decode_ops :: "nat list" where
  "uacpi_load_op_decode_ops = map byte_value
     ([P UACPI_PARSE_OP_LOAD_ZERO_IMM, P UACPI_PARSE_OP_OBJECT_ALLOC_TYPED, I UACPI_OBJECT_METHOD,
      P UACPI_PARSE_OP_LOAD_ZERO_IMM, P UACPI_PARSE_OP_TERM_ARG_UNWRAP_INTERNAL,
      P UACPI_PARSE_OP_TARGET, P UACPI_PARSE_OP_INVOKE_HANDLER, P UACPI_PARSE_OP_IF_NULL, I 0, I 3,
      P UACPI_PARSE_OP_LOAD_FALSE_OBJECT, P UACPI_PARSE_OP_JMP, I 16,
      P UACPI_PARSE_OP_LOAD_TRUE_OBJECT, P UACPI_PARSE_OP_DISPATCH_TABLE_LOAD,
      P UACPI_PARSE_OP_INVOKE_HANDLER, P UACPI_PARSE_OP_STORE_TO_TARGET, I 4,
      P UACPI_PARSE_OP_OBJECT_TRANSFER_TO_PREV, P UACPI_PARSE_OP_END])"

definition uacpi_load_table_op_decode_ops :: "nat list" where
  "uacpi_load_table_op_decode_ops = map byte_value
     ([P UACPI_PARSE_OP_LOAD_ZERO_IMM, P UACPI_PARSE_OP_OBJECT_ALLOC_TYPED, I UACPI_OBJECT_METHOD,
      P UACPI_PARSE_OP_LOAD_ZERO_IMM, P UACPI_PARSE_OP_LOAD_ZERO_IMM,
      P UACPI_PARSE_OP_LOAD_INLINE_IMM, I 1, I 5, P UACPI_PARSE_OP_IF_NOT_NULL, I 4, I 5,
      P UACPI_PARSE_OP_STRING, P UACPI_PARSE_OP_IMM_DECREMENT, I 4, P UACPI_PARSE_OP_JMP, I 8,
      P UACPI_PARSE_OP_TERM_ARG_UNWRAP_INTERNAL, P UACPI_PARSE_OP_INVOKE_HANDLER,
      P UACPI_PARSE_OP_LOAD_TRUE_OBJECT, P UACPI_PARSE_OP_DISPATCH_TABLE_LOAD,
      P UACPI_PARSE_OP_INVOKE_HANDLER, P UACPI_PARSE_OP_IF_NOT_NULL, I 3, I 3,
      P UACPI_PARSE_OP_STORE_TO_TARGET_INDIRECT, I 3, I 10,
      P UACPI_PARSE_OP_OBJECT_TRANSFER_TO_PREV, P UACPI_PARSE_OP_END])"

section \<open>The table of instructions\<close>

definition opcodes_0 :: "uacpi_op_spec list" where
  "opcodes_0 =
    [UACPI_OP ''ZeroOp'' 0x00 (UACPI_OP_PROPERTY_TARGET OR UACPI_OP_PROPERTY_TERM_ARG)
       [P UACPI_PARSE_OP_LOAD_INLINE_IMM_AS_OBJECT, I 0x00, I 0x00, I 0x00, I 0x00, I 0x00, I 0x00,
        I 0x00, I 0x00, P UACPI_PARSE_OP_OBJECT_TRANSFER_TO_PREV],
     UACPI_OP ''OneOp'' 0x01 UACPI_OP_PROPERTY_TERM_ARG
       [P UACPI_PARSE_OP_LOAD_INLINE_IMM_AS_OBJECT, I 0x01, I 0x00, I 0x00, I 0x00, I 0x00, I 0x00,
        I 0x00, I 0x00, P UACPI_PARSE_OP_OBJECT_TRANSFER_TO_PREV],
     UACPI_BAD_OPCODE ''0x02'' 0x02,
     UACPI_BAD_OPCODE ''0x03'' 0x03,
     UACPI_BAD_OPCODE ''0x04'' 0x04,
     UACPI_BAD_OPCODE ''0x05'' 0x05,
     UACPI_OP ''AliasOp'' 0x06 0
       [P UACPI_PARSE_OP_EXISTING_NAMESTRING_OR_NULL_IF_LOAD,
        P UACPI_PARSE_OP_CREATE_NAMESTRING_OR_NULL_IF_LOAD,
        P UACPI_PARSE_OP_SKIP_WITH_WARN_IF_NULL, I 0, P UACPI_PARSE_OP_SKIP_WITH_WARN_IF_NULL, I 1,
        P UACPI_PARSE_OP_INVOKE_HANDLER, P UACPI_PARSE_OP_INSTALL_NAMESPACE_NODE, I 1],
     UACPI_BAD_OPCODE ''0x07'' 0x07,
     UACPI_OP ''NameOp'' 0x08 0
       [P UACPI_PARSE_OP_CREATE_NAMESTRING_OR_NULL_IF_LOAD,
        P UACPI_PARSE_OP_TERM_ARG_UNWRAP_INTERNAL, P UACPI_PARSE_OP_SKIP_WITH_WARN_IF_NULL, I 0,
        P UACPI_PARSE_OP_OBJECT_CONVERT_TO_DEEP_COPY, P UACPI_PARSE_OP_INVOKE_HANDLER,
        P UACPI_PARSE_OP_INSTALL_NAMESPACE_NODE, I 0],
     UACPI_BAD_OPCODE ''0x09'' 0x09,
     UACPI_INTEGER_LITERAL_OP ''Byte'' 0x0A 1,
     UACPI_INTEGER_LITERAL_OP ''Word'' 0x0B 2,
     UACPI_INTEGER_LITERAL_OP ''DWord'' 0x0C 4,
     UACPI_OP ''StringPrefix'' 0x0D UACPI_OP_PROPERTY_TERM_ARG
       [P UACPI_PARSE_OP_OBJECT_ALLOC_TYPED, I UACPI_OBJECT_STRING,
        P UACPI_PARSE_OP_INVOKE_HANDLER, P UACPI_PARSE_OP_OBJECT_TRANSFER_TO_PREV],
     UACPI_INTEGER_LITERAL_OP ''QWord'' 0x0E 8,
     UACPI_BAD_OPCODE ''0x0F'' 0x0F,
     UACPI_OP ''ScopeOp'' 0x10 0
       [P UACPI_PARSE_OP_TRACKED_PKGLEN, P UACPI_PARSE_OP_EXISTING_NAMESTRING_OR_NULL_IF_LOAD,
        P UACPI_PARSE_OP_SKIP_WITH_WARN_IF_NULL, I 1, P UACPI_PARSE_OP_INVOKE_HANDLER],
     UACPI_OP ''BufferOp'' 0x11 UACPI_OP_PROPERTY_TERM_ARG
       [P UACPI_PARSE_OP_TRACKED_PKGLEN, P UACPI_PARSE_OP_OPERAND, P UACPI_PARSE_OP_RECORD_AML_PC,
        P UACPI_PARSE_OP_OBJECT_ALLOC_TYPED, I UACPI_OBJECT_BUFFER,
        P UACPI_PARSE_OP_INVOKE_HANDLER, P UACPI_PARSE_OP_OBJECT_TRANSFER_TO_PREV],
     UACPI_BUILD_PACKAGE_OP ''Package'' 0x12 3 [P UACPI_PARSE_OP_LOAD_IMM, I 1],
     UACPI_BUILD_PACKAGE_OP ''VarPackage'' 0x13 2 [P UACPI_PARSE_OP_OPERAND],
     UACPI_OP ''MethodOp'' 0x14 0
       [P UACPI_PARSE_OP_TRACKED_PKGLEN, P UACPI_PARSE_OP_CREATE_NAMESTRING_OR_NULL_IF_LOAD,
        P UACPI_PARSE_OP_LOAD_IMM, I 1, P UACPI_PARSE_OP_SKIP_WITH_WARN_IF_NULL, I 1,
        P UACPI_PARSE_OP_RECORD_AML_PC, P UACPI_PARSE_OP_OBJECT_ALLOC_TYPED, I UACPI_OBJECT_METHOD,
        P UACPI_PARSE_OP_INVOKE_HANDLER, P UACPI_PARSE_OP_INSTALL_NAMESPACE_NODE, I 1],
     UACPI_OP ''ExternalOp'' 0x15 0
       [P UACPI_PARSE_OP_EXISTING_NAMESTRING_OR_NULL, P UACPI_PARSE_OP_LOAD_IMM, I 1,
        P UACPI_PARSE_OP_LOAD_IMM, I 1]]"

definition opcodes_1 :: "uacpi_op_spec list" where
  "opcodes_1 =
    [UACPI_BAD_OPCODE ''0x16'' 0x16,
     UACPI_BAD_OPCODE ''0x17'' 0x17,
     UACPI_BAD_OPCODE ''0x18'' 0x18,
     UACPI_BAD_OPCODE ''0x19'' 0x19,
     UACPI_BAD_OPCODE ''0x1A'' 0x1A,
     UACPI_BAD_OPCODE ''0x1B'' 0x1B,
     UACPI_BAD_OPCODE ''0x1C'' 0x1C,
     UACPI_BAD_OPCODE ''0x1D'' 0x1D,
     UACPI_BAD_OPCODE ''0x1E'' 0x1E,
     UACPI_BAD_OPCODE ''0x1F'' 0x1F,
     UACPI_BAD_OPCODE ''0x20'' 0x20,
     UACPI_BAD_OPCODE ''0x21'' 0x21,
     UACPI_BAD_OPCODE ''0x22'' 0x22,
     UACPI_BAD_OPCODE ''0x23'' 0x23,
     UACPI_BAD_OPCODE ''0x24'' 0x24,
     UACPI_BAD_OPCODE ''0x25'' 0x25,
     UACPI_BAD_OPCODE ''0x26'' 0x26,
     UACPI_BAD_OPCODE ''0x27'' 0x27,
     UACPI_BAD_OPCODE ''0x28'' 0x28,
     UACPI_BAD_OPCODE ''0x29'' 0x29,
     UACPI_BAD_OPCODE ''0x2A'' 0x2A,
     UACPI_BAD_OPCODE ''0x2B'' 0x2B,
     UACPI_BAD_OPCODE ''0x2C'' 0x2C,
     UACPI_BAD_OPCODE ''0x2D'' 0x2D,
     UACPI_UNRESOLVED_NAME_STRING_OP ''DualNamePrefix'' 0x2E,
     UACPI_UNRESOLVED_NAME_STRING_OP ''MultiNamePrefix'' 0x2F,
     UACPI_INTERNAL_OP ''0x30'' 0x30,
     UACPI_INTERNAL_OP ''0x31'' 0x31,
     UACPI_INTERNAL_OP ''0x32'' 0x32,
     UACPI_INTERNAL_OP ''0x33'' 0x33,
     UACPI_INTERNAL_OP ''0x34'' 0x34,
     UACPI_INTERNAL_OP ''0x35'' 0x35,
     UACPI_INTERNAL_OP ''0x36'' 0x36,
     UACPI_INTERNAL_OP ''0x37'' 0x37,
     UACPI_INTERNAL_OP ''0x38'' 0x38,
     UACPI_INTERNAL_OP ''0x39'' 0x39,
     UACPI_BAD_OPCODE ''0x3A'' 0x3A,
     UACPI_BAD_OPCODE ''0x3B'' 0x3B,
     UACPI_BAD_OPCODE ''0x3C'' 0x3C,
     UACPI_BAD_OPCODE ''0x3D'' 0x3D,
     UACPI_BAD_OPCODE ''0x3E'' 0x3E,
     UACPI_BAD_OPCODE ''0x3F'' 0x3F,
     UACPI_BAD_OPCODE ''0x40'' 0x40,
     UACPI_UNRESOLVED_NAME_STRING_OP ''A'' 0x41,
     UACPI_UNRESOLVED_NAME_STRING_OP ''B'' 0x42,
     UACPI_UNRESOLVED_NAME_STRING_OP ''C'' 0x43,
     UACPI_UNRESOLVED_NAME_STRING_OP ''D'' 0x44,
     UACPI_UNRESOLVED_NAME_STRING_OP ''E'' 0x45,
     UACPI_UNRESOLVED_NAME_STRING_OP ''F'' 0x46,
     UACPI_UNRESOLVED_NAME_STRING_OP ''G'' 0x47,
     UACPI_UNRESOLVED_NAME_STRING_OP ''H'' 0x48,
     UACPI_UNRESOLVED_NAME_STRING_OP ''I'' 0x49,
     UACPI_UNRESOLVED_NAME_STRING_OP ''J'' 0x4A,
     UACPI_UNRESOLVED_NAME_STRING_OP ''K'' 0x4B,
     UACPI_UNRESOLVED_NAME_STRING_OP ''L'' 0x4C,
     UACPI_UNRESOLVED_NAME_STRING_OP ''M'' 0x4D,
     UACPI_UNRESOLVED_NAME_STRING_OP ''N'' 0x4E,
     UACPI_UNRESOLVED_NAME_STRING_OP ''O'' 0x4F,
     UACPI_UNRESOLVED_NAME_STRING_OP ''P'' 0x50,
     UACPI_UNRESOLVED_NAME_STRING_OP ''Q'' 0x51,
     UACPI_UNRESOLVED_NAME_STRING_OP ''R'' 0x52,
     UACPI_UNRESOLVED_NAME_STRING_OP ''S'' 0x53,
     UACPI_UNRESOLVED_NAME_STRING_OP ''T'' 0x54,
     UACPI_UNRESOLVED_NAME_STRING_OP ''U'' 0x55,
     UACPI_UNRESOLVED_NAME_STRING_OP ''V'' 0x56,
     UACPI_UNRESOLVED_NAME_STRING_OP ''W'' 0x57,
     UACPI_UNRESOLVED_NAME_STRING_OP ''X'' 0x58,
     UACPI_UNRESOLVED_NAME_STRING_OP ''Y'' 0x59,
     UACPI_UNRESOLVED_NAME_STRING_OP ''Z'' 0x5A,
     UACPI_INTERNAL_OP ''0x5B'' 0x5B,
     UACPI_UNRESOLVED_NAME_STRING_OP ''RootChar'' 0x5C,
     UACPI_BAD_OPCODE ''0x5D'' 0x5D,
     UACPI_UNRESOLVED_NAME_STRING_OP ''ParentPrefixChar'' 0x5E,
     UACPI_UNRESOLVED_NAME_STRING_OP ''Underscore'' 0x5F,
     UACPI_LOCALX_OP ''0'' 0,
     UACPI_LOCALX_OP ''1'' 1,
     UACPI_LOCALX_OP ''2'' 2,
     UACPI_LOCALX_OP ''3'' 3,
     UACPI_LOCALX_OP ''4'' 4,
     UACPI_LOCALX_OP ''5'' 5,
     UACPI_LOCALX_OP ''6'' 6,
     UACPI_LOCALX_OP ''7'' 7,
     UACPI_ARGX_OP ''0'' 0,
     UACPI_ARGX_OP ''1'' 1,
     UACPI_ARGX_OP ''2'' 2,
     UACPI_ARGX_OP ''3'' 3,
     UACPI_ARGX_OP ''4'' 4,
     UACPI_ARGX_OP ''5'' 5,
     UACPI_ARGX_OP ''6'' 6,
     UACPI_BAD_OPCODE ''0x6F'' 0x6F,
     UACPI_OP ''StoreOp'' 0x70 UACPI_OP_PROPERTY_TERM_ARG
       [P UACPI_PARSE_OP_TERM_ARG, P UACPI_PARSE_OP_SUPERNAME, P UACPI_PARSE_OP_INVOKE_HANDLER,
        P UACPI_PARSE_OP_ITEM_POP, P UACPI_PARSE_OP_OBJECT_COPY_TO_PREV],
     UACPI_OP ''RefOfOp'' 0x71 UACPI_OP_PROPERTY_TERM_ARG
       [P UACPI_PARSE_OP_SUPERNAME, P UACPI_PARSE_OP_OBJECT_ALLOC, P UACPI_PARSE_OP_INVOKE_HANDLER,
        P UACPI_PARSE_OP_OBJECT_TRANSFER_TO_PREV]]"

definition opcodes_2 :: "uacpi_op_spec list" where
  "opcodes_2 =
    [UACPI_BUILD_BINARY_MATH_OP ''Add'' 0x72,
     UACPI_OP ''ConcatOp'' 0x73 UACPI_OP_PROPERTY_TERM_ARG
       [P UACPI_PARSE_OP_COMPUTATIONAL_DATA, P UACPI_PARSE_OP_COMPUTATIONAL_DATA,
        P UACPI_PARSE_OP_TARGET, P UACPI_PARSE_OP_OBJECT_ALLOC_TYPED, I UACPI_OBJECT_BUFFER,
        P UACPI_PARSE_OP_INVOKE_HANDLER, P UACPI_PARSE_OP_STORE_TO_TARGET, I 2,
        P UACPI_PARSE_OP_OBJECT_COPY_TO_PREV],
     UACPI_BUILD_BINARY_MATH_OP ''Subtract'' 0x74,
     UACPI_BUILD_INC_DEC_OP ''Increment'' 0x75,
     UACPI_BUILD_INC_DEC_OP ''Decrement'' 0x76,
     UACPI_BUILD_BINARY_MATH_OP ''Multiply'' 0x77,
     UACPI_OP ''DivideOp'' 0x78 UACPI_OP_PROPERTY_TERM_ARG
       [P UACPI_PARSE_OP_OPERAND, P UACPI_PARSE_OP_OPERAND, P UACPI_PARSE_OP_TARGET,
        P UACPI_PARSE_OP_TARGET, P UACPI_PARSE_OP_OBJECT_ALLOC_TYPED, I UACPI_OBJECT_INTEGER,
        P UACPI_PARSE_OP_OBJECT_ALLOC_TYPED, I UACPI_OBJECT_INTEGER,
        P UACPI_PARSE_OP_INVOKE_HANDLER, P UACPI_PARSE_OP_STORE_TO_TARGET, I 3,
        P UACPI_PARSE_OP_OBJECT_COPY_TO_PREV, P UACPI_PARSE_OP_STORE_TO_TARGET_INDIRECT, I 2, I 4],
     UACPI_BUILD_BINARY_MATH_OP ''ShiftLeft'' 0x79,
     UACPI_BUILD_BINARY_MATH_OP ''ShiftRight'' 0x7A,
     UACPI_BUILD_BINARY_MATH_OP ''And'' 0x7B,
     UACPI_BUILD_BINARY_MATH_OP ''Nand'' 0x7C,
     UACPI_BUILD_BINARY_MATH_OP ''Or'' 0x7D,
     UACPI_BUILD_BINARY_MATH_OP ''Nor'' 0x7E,
     UACPI_BUILD_BINARY_MATH_OP ''Xor'' 0x7F,
     UACPI_BUILD_UNARY_MATH_OP ''Not'' 0x80,
     UACPI_BUILD_UNARY_MATH_OP ''FindSetLeftBit'' 0x81,
     UACPI_BUILD_UNARY_MATH_OP ''FindSetRightBit'' 0x82,
     UACPI_OP ''DerefOfOp'' 0x83 UACPI_OP_PROPERTY_TERM_ARG
       [P UACPI_PARSE_OP_TERM_ARG_UNWRAP_INTERNAL, P UACPI_PARSE_OP_OBJECT_ALLOC,
        P UACPI_PARSE_OP_INVOKE_HANDLER, P UACPI_PARSE_OP_OBJECT_TRANSFER_TO_PREV],
     UACPI_OP ''ConcatResOp'' 0x84 UACPI_OP_PROPERTY_TERM_ARG
       [P UACPI_PARSE_OP_TERM_ARG_UNWRAP_INTERNAL, P UACPI_PARSE_OP_TYPECHECK,
        I UACPI_OBJECT_BUFFER, P UACPI_PARSE_OP_TERM_ARG_UNWRAP_INTERNAL,
        P UACPI_PARSE_OP_TYPECHECK, I UACPI_OBJECT_BUFFER, P UACPI_PARSE_OP_TARGET,
        P UACPI_PARSE_OP_OBJECT_ALLOC_TYPED, I UACPI_OBJECT_BUFFER,
        P UACPI_PARSE_OP_INVOKE_HANDLER, P UACPI_PARSE_OP_STORE_TO_TARGET, I 2,
        P UACPI_PARSE_OP_OBJECT_TRANSFER_TO_PREV],
     UACPI_BUILD_BINARY_MATH_OP ''Mod'' 0x85,
     UACPI_OP ''NotifyOp'' 0x86 0
       [P UACPI_PARSE_OP_EXISTING_NAMESTRING_OR_NULL_IF_LOAD, P UACPI_PARSE_OP_OPERAND,
        P UACPI_PARSE_OP_SKIP_WITH_WARN_IF_NULL, I 0, P UACPI_PARSE_OP_INVOKE_HANDLER],
     UACPI_OP ''SizeOfOp'' 0x87 UACPI_OP_PROPERTY_TERM_ARG
       [P UACPI_PARSE_OP_SUPERNAME, P UACPI_PARSE_OP_OBJECT_ALLOC_TYPED, I UACPI_OBJECT_INTEGER,
        P UACPI_PARSE_OP_INVOKE_HANDLER, P UACPI_PARSE_OP_OBJECT_TRANSFER_TO_PREV],
     UACPI_OP ''IndexOp'' 0x88 (UACPI_OP_PROPERTY_TERM_ARG OR UACPI_OP_PROPERTY_SUPERNAME OR UACPI_OP_PROPERTY_SIMPLE_NAME)
       [P UACPI_PARSE_OP_TERM_ARG_UNWRAP_INTERNAL, P UACPI_PARSE_OP_OPERAND,
        P UACPI_PARSE_OP_TARGET, P UACPI_PARSE_OP_EMPTY_OBJECT_ALLOC,
        P UACPI_PARSE_OP_INVOKE_HANDLER, P UACPI_PARSE_OP_STORE_TO_TARGET, I 2,
        P UACPI_PARSE_OP_OBJECT_TRANSFER_TO_PREV]]"

definition opcodes_3 :: "uacpi_op_spec list" where
  "opcodes_3 =
    [UACPI_OP ''MatchOp'' 0x89 UACPI_OP_PROPERTY_TERM_ARG
       [P UACPI_PARSE_OP_TERM_ARG_UNWRAP_INTERNAL, P UACPI_PARSE_OP_TYPECHECK,
        I UACPI_OBJECT_PACKAGE, P UACPI_PARSE_OP_LOAD_IMM, I 1, P UACPI_PARSE_OP_OPERAND,
        P UACPI_PARSE_OP_LOAD_IMM, I 1, P UACPI_PARSE_OP_OPERAND, P UACPI_PARSE_OP_OPERAND,
        P UACPI_PARSE_OP_OBJECT_ALLOC_TYPED, I UACPI_OBJECT_INTEGER,
        P UACPI_PARSE_OP_INVOKE_HANDLER, P UACPI_PARSE_OP_OBJECT_TRANSFER_TO_PREV],
     UACPI_BUILD_BUFFER_FIELD_OP ''DWord'' 0x8A,
     UACPI_BUILD_BUFFER_FIELD_OP ''Word'' 0x8B,
     UACPI_BUILD_BUFFER_FIELD_OP ''Byte'' 0x8C,
     UACPI_BUILD_BUFFER_FIELD_OP ''Bit'' 0x8D,
     UACPI_OP ''ObjectTypeOp'' 0x8E UACPI_OP_PROPERTY_TERM_ARG
       [P UACPI_PARSE_OP_TERM_ARG_OR_NAMED_OBJECT, P UACPI_PARSE_OP_OBJECT_ALLOC_TYPED,
        I UACPI_OBJECT_INTEGER, P UACPI_PARSE_OP_INVOKE_HANDLER,
        P UACPI_PARSE_OP_OBJECT_TRANSFER_TO_PREV],
     UACPI_BUILD_BUFFER_FIELD_OP ''QWord'' 0x8F,
     UACPI_BUILD_BINARY_LOGIC_OP ''Land'' 0x90,
     UACPI_BUILD_BINARY_LOGIC_OP ''Lor'' 0x91,
     UACPI_OP ''LnotOp'' 0x92 UACPI_OP_PROPERTY_TERM_ARG
       [P UACPI_PARSE_OP_OPERAND, P UACPI_PARSE_OP_OBJECT_ALLOC, P UACPI_PARSE_OP_INVOKE_HANDLER,
        P UACPI_PARSE_OP_OBJECT_TRANSFER_TO_PREV],
     UACPI_BUILD_BINARY_LOGIC_OP ''LEqual'' 0x93,
     UACPI_BUILD_BINARY_LOGIC_OP ''LGreater'' 0x94,
     UACPI_BUILD_BINARY_LOGIC_OP ''LLess'' 0x95,
     UACPI_BUILD_TO_OP ''Buffer'' 0x96 UACPI_OBJECT_BUFFER,
     UACPI_BUILD_TO_OP ''DecimalString'' 0x97 UACPI_OBJECT_STRING,
     UACPI_BUILD_TO_OP ''HexString'' 0x98 UACPI_OBJECT_STRING,
     UACPI_BUILD_TO_OP ''Integer'' 0x99 UACPI_OBJECT_INTEGER,
     UACPI_BAD_OPCODE ''0x9A'' 0x9A,
     UACPI_BAD_OPCODE ''0x9B'' 0x9B,
     UACPI_OP ''ToStringOp'' 0x9C UACPI_OP_PROPERTY_TERM_ARG
       [P UACPI_PARSE_OP_TERM_ARG_UNWRAP_INTERNAL, P UACPI_PARSE_OP_TYPECHECK,
        I UACPI_OBJECT_BUFFER, P UACPI_PARSE_OP_OPERAND, P UACPI_PARSE_OP_TARGET,
        P UACPI_PARSE_OP_OBJECT_ALLOC_TYPED, I UACPI_OBJECT_STRING,
        P UACPI_PARSE_OP_INVOKE_HANDLER, P UACPI_PARSE_OP_STORE_TO_TARGET, I 2,
        P UACPI_PARSE_OP_OBJECT_TRANSFER_TO_PREV],
     UACPI_OP ''CopyObjectOp'' 0x9D UACPI_OP_PROPERTY_TERM_ARG
       [P UACPI_PARSE_OP_TERM_ARG, P UACPI_PARSE_OP_OBJECT_COPY_TO_PREV,
        P UACPI_PARSE_OP_SIMPLE_NAME, P UACPI_PARSE_OP_INVOKE_HANDLER],
     UACPI_OP ''MidOp'' 0x9E UACPI_OP_PROPERTY_TERM_ARG
       [P UACPI_PARSE_OP_TERM_ARG_UNWRAP_INTERNAL, P UACPI_PARSE_OP_OPERAND,
        P UACPI_PARSE_OP_OPERAND, P UACPI_PARSE_OP_TARGET, P UACPI_PARSE_OP_OBJECT_ALLOC_TYPED,
        I UACPI_OBJECT_BUFFER, P UACPI_PARSE_OP_INVOKE_HANDLER, P UACPI_PARSE_OP_STORE_TO_TARGET,
        I 3, P UACPI_PARSE_OP_OBJECT_TRANSFER_TO_PREV],
     UACPI_OP ''ContinueOp'' 0x9F 0
       [P UACPI_PARSE_OP_INVOKE_HANDLER],
     UACPI_OP ''IfOp'' 0xA0 0
       [P UACPI_PARSE_OP_TRACKED_PKGLEN, P UACPI_PARSE_OP_OPERAND, P UACPI_PARSE_OP_IF_LAST_NULL,
        I 3, P UACPI_PARSE_OP_EMIT_SKIP_WARN, P UACPI_PARSE_OP_JMP, I 9,
        P UACPI_PARSE_OP_IF_LAST_FALSE, I 4, P UACPI_PARSE_OP_SWITCH_TO_NEXT_IF_EQUALS, I 0xA1,
        I 0x00, P UACPI_PARSE_OP_END, P UACPI_PARSE_OP_INVOKE_HANDLER]]"

definition opcodes_4 :: "uacpi_op_spec list" where
  "opcodes_4 =
    [UACPI_OP ''ElseOp'' 0xA1 0
       [P UACPI_PARSE_OP_IF_SWITCHED_FROM, I 0xA0, I 0x00, I 10, P UACPI_PARSE_OP_IF_LAST_NULL,
        I 3, P UACPI_PARSE_OP_TRACKED_PKGLEN, P UACPI_PARSE_OP_EMIT_SKIP_WARN,
        P UACPI_PARSE_OP_END, P UACPI_PARSE_OP_ITEM_POP, P UACPI_PARSE_OP_ITEM_POP,
        P UACPI_PARSE_OP_PKGLEN, P UACPI_PARSE_OP_INVOKE_HANDLER, P UACPI_PARSE_OP_END,
        P UACPI_PARSE_OP_TRACKED_PKGLEN],
     UACPI_OP ''WhileOp'' 0xA2 0
       [P UACPI_PARSE_OP_TRACKED_PKGLEN, P UACPI_PARSE_OP_OPERAND,
        P UACPI_PARSE_OP_SKIP_WITH_WARN_IF_NULL, I 1, P UACPI_PARSE_OP_IF_LAST_TRUE, I 1,
        P UACPI_PARSE_OP_INVOKE_HANDLER],
     UACPI_OP ''NoopOp'' 0xA3 0
       [P UACPI_PARSE_OP_END],
     UACPI_OP ''ReturnOp'' 0xA4 0
       [P UACPI_PARSE_OP_TERM_ARG_UNWRAP_INTERNAL, P UACPI_PARSE_OP_INVOKE_HANDLER],
     UACPI_OP ''BreakOp'' 0xA5 0
       [P UACPI_PARSE_OP_INVOKE_HANDLER],
     UACPI_BAD_OPCODE ''0xA6'' 0xA6,
     UACPI_BAD_OPCODE ''0xA7'' 0xA7,
     UACPI_BAD_OPCODE ''0xA8'' 0xA8,
     UACPI_BAD_OPCODE ''0xA9'' 0xA9,
     UACPI_BAD_OPCODE ''0xAA'' 0xAA,
     UACPI_BAD_OPCODE ''0xAB'' 0xAB,
     UACPI_BAD_OPCODE ''0xAC'' 0xAC,
     UACPI_BAD_OPCODE ''0xAD'' 0xAD,
     UACPI_BAD_OPCODE ''0xAE'' 0xAE,
     UACPI_BAD_OPCODE ''0xAF'' 0xAF,
     UACPI_BAD_OPCODE ''0xB0'' 0xB0,
     UACPI_BAD_OPCODE ''0xB1'' 0xB1,
     UACPI_BAD_OPCODE ''0xB2'' 0xB2,
     UACPI_BAD_OPCODE ''0xB3'' 0xB3,
     UACPI_BAD_OPCODE ''0xB4'' 0xB4,
     UACPI_BAD_OPCODE ''0xB5'' 0xB5,
     UACPI_BAD_OPCODE ''0xB6'' 0xB6,
     UACPI_BAD_OPCODE ''0xB7'' 0xB7,
     UACPI_BAD_OPCODE ''0xB8'' 0xB8,
     UACPI_BAD_OPCODE ''0xB9'' 0xB9,
     UACPI_BAD_OPCODE ''0xBA'' 0xBA,
     UACPI_BAD_OPCODE ''0xBB'' 0xBB,
     UACPI_BAD_OPCODE ''0xBC'' 0xBC,
     UACPI_BAD_OPCODE ''0xBD'' 0xBD,
     UACPI_BAD_OPCODE ''0xBE'' 0xBE,
     UACPI_BAD_OPCODE ''0xBF'' 0xBF,
     UACPI_BAD_OPCODE ''0xC0'' 0xC0,
     UACPI_BAD_OPCODE ''0xC1'' 0xC1,
     UACPI_BAD_OPCODE ''0xC2'' 0xC2,
     UACPI_BAD_OPCODE ''0xC3'' 0xC3,
     UACPI_BAD_OPCODE ''0xC4'' 0xC4,
     UACPI_BAD_OPCODE ''0xC5'' 0xC5,
     UACPI_BAD_OPCODE ''0xC6'' 0xC6,
     UACPI_BAD_OPCODE ''0xC7'' 0xC7,
     UACPI_BAD_OPCODE ''0xC8'' 0xC8,
     UACPI_BAD_OPCODE ''0xC9'' 0xC9,
     UACPI_BAD_OPCODE ''0xCA'' 0xCA,
     UACPI_BAD_OPCODE ''0xCB'' 0xCB,
     UACPI_OP ''BreakPointOp'' 0xCC 0
       [P UACPI_PARSE_OP_INVOKE_HANDLER],
     UACPI_BAD_OPCODE ''0xCD'' 0xCD,
     UACPI_BAD_OPCODE ''0xCE'' 0xCE,
     UACPI_BAD_OPCODE ''0xCF'' 0xCF,
     UACPI_BAD_OPCODE ''0xD0'' 0xD0,
     UACPI_BAD_OPCODE ''0xD1'' 0xD1,
     UACPI_BAD_OPCODE ''0xD2'' 0xD2,
     UACPI_BAD_OPCODE ''0xD3'' 0xD3,
     UACPI_BAD_OPCODE ''0xD4'' 0xD4,
     UACPI_BAD_OPCODE ''0xD5'' 0xD5,
     UACPI_BAD_OPCODE ''0xD6'' 0xD6,
     UACPI_BAD_OPCODE ''0xD7'' 0xD7,
     UACPI_BAD_OPCODE ''0xD8'' 0xD8,
     UACPI_BAD_OPCODE ''0xD9'' 0xD9,
     UACPI_BAD_OPCODE ''0xDA'' 0xDA,
     UACPI_BAD_OPCODE ''0xDB'' 0xDB,
     UACPI_BAD_OPCODE ''0xDC'' 0xDC,
     UACPI_BAD_OPCODE ''0xDD'' 0xDD,
     UACPI_BAD_OPCODE ''0xDE'' 0xDE,
     UACPI_BAD_OPCODE ''0xDF'' 0xDF,
     UACPI_BAD_OPCODE ''0xE0'' 0xE0,
     UACPI_BAD_OPCODE ''0xE1'' 0xE1,
     UACPI_BAD_OPCODE ''0xE2'' 0xE2]"

definition opcodes_5 :: "uacpi_op_spec list" where
  "opcodes_5 =
    [UACPI_BAD_OPCODE ''0xE3'' 0xE3,
     UACPI_BAD_OPCODE ''0xE4'' 0xE4,
     UACPI_BAD_OPCODE ''0xE5'' 0xE5,
     UACPI_BAD_OPCODE ''0xE6'' 0xE6,
     UACPI_BAD_OPCODE ''0xE7'' 0xE7,
     UACPI_BAD_OPCODE ''0xE8'' 0xE8,
     UACPI_BAD_OPCODE ''0xE9'' 0xE9,
     UACPI_BAD_OPCODE ''0xEA'' 0xEA,
     UACPI_BAD_OPCODE ''0xEB'' 0xEB,
     UACPI_BAD_OPCODE ''0xEC'' 0xEC,
     UACPI_BAD_OPCODE ''0xED'' 0xED,
     UACPI_BAD_OPCODE ''0xEE'' 0xEE,
     UACPI_BAD_OPCODE ''0xEF'' 0xEF,
     UACPI_BAD_OPCODE ''0xF0'' 0xF0,
     UACPI_BAD_OPCODE ''0xF1'' 0xF1,
     UACPI_BAD_OPCODE ''0xF2'' 0xF2,
     UACPI_BAD_OPCODE ''0xF3'' 0xF3,
     UACPI_OP ''InternalOpReadFieldAsBuffer'' 0xF4 (UACPI_OP_PROPERTY_TERM_ARG OR UACPI_OP_PROPERTY_RESERVED)
       [P UACPI_PARSE_OP_OBJECT_ALLOC_TYPED, I UACPI_OBJECT_BUFFER,
        P UACPI_PARSE_OP_INVOKE_HANDLER, P UACPI_PARSE_OP_OBJECT_TRANSFER_TO_PREV],
     UACPI_OP ''InternalOpReadFieldAsInteger'' 0xF5 (UACPI_OP_PROPERTY_TERM_ARG OR UACPI_OP_PROPERTY_RESERVED)
       [P UACPI_PARSE_OP_OBJECT_ALLOC_TYPED, I UACPI_OBJECT_INTEGER,
        P UACPI_PARSE_OP_INVOKE_HANDLER, P UACPI_PARSE_OP_OBJECT_TRANSFER_TO_PREV],
     UACPI_OP ''InternalOpNamedObject'' 0xF6 (UACPI_OP_PROPERTY_SIMPLE_NAME OR UACPI_OP_PROPERTY_SUPERNAME OR UACPI_OP_PROPERTY_TERM_ARG OR UACPI_OP_PROPERTY_RESERVED)
       [P UACPI_PARSE_OP_EMPTY_OBJECT_ALLOC, P UACPI_PARSE_OP_INVOKE_HANDLER,
        P UACPI_PARSE_OP_OBJECT_TRANSFER_TO_PREV],
     UACPI_METHOD_CALL_OPCODE ''0'' 0,
     UACPI_METHOD_CALL_OPCODE ''1'' 1,
     UACPI_METHOD_CALL_OPCODE ''2'' 2,
     UACPI_METHOD_CALL_OPCODE ''3'' 3,
     UACPI_METHOD_CALL_OPCODE ''4'' 4,
     UACPI_METHOD_CALL_OPCODE ''5'' 5,
     UACPI_METHOD_CALL_OPCODE ''6'' 6,
     UACPI_METHOD_CALL_OPCODE ''7'' 7,
     UACPI_OP ''OnesOp'' 0xFF UACPI_OP_PROPERTY_TERM_ARG
       [P UACPI_PARSE_OP_LOAD_INLINE_IMM_AS_OBJECT, I 0xFF, I 0xFF, I 0xFF, I 0xFF, I 0xFF, I 0xFF,
        I 0xFF, I 0xFF, P UACPI_PARSE_OP_TRUNCATE_NUMBER, P UACPI_PARSE_OP_OBJECT_TRANSFER_TO_PREV]]"

definition opcode_table :: "uacpi_op_spec list" where
  "opcode_table = opcodes_0 @ opcodes_1 @ opcodes_2 @ opcodes_3 @ opcodes_4 @ opcodes_5"

definition ext_opcodes_0 :: "uacpi_op_spec list" where
  "ext_opcodes_0 =
    [UACPI_OP ''ReservedExtOp'' (UACPI_EXT_OP 0x00) 0
       [P UACPI_PARSE_OP_BAD_OPCODE],
     UACPI_OP ''MutexOp'' (UACPI_EXT_OP 0x01) 0
       [P UACPI_PARSE_OP_CREATE_NAMESTRING_OR_NULL_IF_LOAD, P UACPI_PARSE_OP_LOAD_IMM, I 1,
        P UACPI_PARSE_OP_SKIP_WITH_WARN_IF_NULL, I 0, P UACPI_PARSE_OP_OBJECT_ALLOC_TYPED,
        I UACPI_OBJECT_MUTEX, P UACPI_PARSE_OP_INVOKE_HANDLER,
        P UACPI_PARSE_OP_INSTALL_NAMESPACE_NODE, I 0],
     UACPI_OP ''EventOp'' (UACPI_EXT_OP 0x02) 0
       [P UACPI_PARSE_OP_CREATE_NAMESTRING_OR_NULL_IF_LOAD,
        P UACPI_PARSE_OP_SKIP_WITH_WARN_IF_NULL, I 0, P UACPI_PARSE_OP_OBJECT_ALLOC_TYPED,
        I UACPI_OBJECT_EVENT, P UACPI_PARSE_OP_INVOKE_HANDLER,
        P UACPI_PARSE_OP_INSTALL_NAMESPACE_NODE, I 0],
     UACPI_OP ''CondRefOfOp'' (UACPI_EXT_OP 0x12) UACPI_OP_PROPERTY_TERM_ARG
       [P UACPI_PARSE_OP_SUPERNAME_OR_UNRESOLVED, P UACPI_PARSE_OP_TARGET,
        P UACPI_PARSE_OP_IF_NULL, I 0, I 3, P UACPI_PARSE_OP_LOAD_FALSE_OBJECT,
        P UACPI_PARSE_OP_OBJECT_TRANSFER_TO_PREV, P UACPI_PARSE_OP_END,
        P UACPI_PARSE_OP_OBJECT_ALLOC, P UACPI_PARSE_OP_INVOKE_HANDLER,
        P UACPI_PARSE_OP_STORE_TO_TARGET, I 1, P UACPI_PARSE_OP_LOAD_TRUE_OBJECT,
        P UACPI_PARSE_OP_OBJECT_TRANSFER_TO_PREV],
     UACPI_DO_BUILD_BUFFER_FIELD_OP ''Create'' (UACPI_EXT_OP 0x13) 3 [P UACPI_PARSE_OP_OPERAND],
     UACPI_OUT_OF_LINE_OP ''LoadTableOp'' (UACPI_EXT_OP 0x1F) uacpi_load_table_op_decode_ops (UACPI_OP_PROPERTY_TERM_ARG OR UACPI_OP_PROPERTY_OUT_OF_LINE),
     UACPI_OUT_OF_LINE_OP ''LoadOp'' (UACPI_EXT_OP 0x20) uacpi_load_op_decode_ops (UACPI_OP_PROPERTY_TERM_ARG OR UACPI_OP_PROPERTY_OUT_OF_LINE),
     UACPI_OP ''StallOp'' (UACPI_EXT_OP 0x21) 0
       [P UACPI_PARSE_OP_OPERAND, P UACPI_PARSE_OP_INVOKE_HANDLER],
     UACPI_OP ''SleepOp'' (UACPI_EXT_OP 0x22) 0
       [P UACPI_PARSE_OP_OPERAND, P UACPI_PARSE_OP_INVOKE_HANDLER],
     UACPI_OP ''AcquireOp'' (UACPI_EXT_OP 0x23) UACPI_OP_PROPERTY_TERM_ARG
       [P UACPI_PARSE_OP_SUPERNAME, P UACPI_PARSE_OP_LOAD_IMM, I 2,
        P UACPI_PARSE_OP_LOAD_TRUE_OBJECT, P UACPI_PARSE_OP_INVOKE_HANDLER,
        P UACPI_PARSE_OP_OBJECT_TRANSFER_TO_PREV],
     UACPI_OP ''SignalOp'' (UACPI_EXT_OP 0x24) 0
       [P UACPI_PARSE_OP_SUPERNAME, P UACPI_PARSE_OP_INVOKE_HANDLER],
     UACPI_OP ''WaitOp'' (UACPI_EXT_OP 0x25) UACPI_OP_PROPERTY_TERM_ARG
       [P UACPI_PARSE_OP_SUPERNAME, P UACPI_PARSE_OP_OPERAND, P UACPI_PARSE_OP_LOAD_TRUE_OBJECT,
        P UACPI_PARSE_OP_INVOKE_HANDLER, P UACPI_PARSE_OP_OBJECT_TRANSFER_TO_PREV]]"

definition ext_opcodes_1 :: "uacpi_op_spec list" where
  "ext_opcodes_1 =
    [UACPI_OP ''ResetOp'' (UACPI_EXT_OP 0x26) 0
       [P UACPI_PARSE_OP_SUPERNAME, P UACPI_PARSE_OP_INVOKE_HANDLER],
     UACPI_OP ''ReleaseOp'' (UACPI_EXT_OP 0x27) 0
       [P UACPI_PARSE_OP_SUPERNAME, P UACPI_PARSE_OP_INVOKE_HANDLER],
     UACPI_BUILD_TO_FROM_BCD ''From'' 0x28,
     UACPI_BUILD_TO_FROM_BCD ''To'' 0x29,
     UACPI_OP ''UnloadOp'' (UACPI_EXT_OP 0x2A) 0
       [P UACPI_PARSE_OP_SUPERNAME, P UACPI_PARSE_OP_INVOKE_HANDLER],
     UACPI_OP ''RevisionOp'' (UACPI_EXT_OP 0x30) UACPI_OP_PROPERTY_TERM_ARG
       [P UACPI_PARSE_OP_LOAD_INLINE_IMM_AS_OBJECT, I 0x01, I 0x00, I 0x00, I 0x00, I 0x00, I 0x00,
        I 0x00, I 0x00, P UACPI_PARSE_OP_OBJECT_TRANSFER_TO_PREV],
     UACPI_OP ''DebugOp'' (UACPI_EXT_OP 0x31) (UACPI_OP_PROPERTY_TERM_ARG OR UACPI_OP_PROPERTY_SUPERNAME OR UACPI_OP_PROPERTY_TARGET)
       [P UACPI_PARSE_OP_OBJECT_ALLOC_TYPED, I UACPI_OBJECT_DEBUG,
        P UACPI_PARSE_OP_OBJECT_TRANSFER_TO_PREV],
     UACPI_OP ''FatalOp'' (UACPI_EXT_OP 0x32) 0
       [P UACPI_PARSE_OP_LOAD_IMM, I 1, P UACPI_PARSE_OP_LOAD_IMM, I 4, P UACPI_PARSE_OP_OPERAND,
        P UACPI_PARSE_OP_INVOKE_HANDLER],
     UACPI_OP ''TimerOp'' (UACPI_EXT_OP 0x33) UACPI_OP_PROPERTY_TERM_ARG
       [P UACPI_PARSE_OP_OBJECT_ALLOC_TYPED, I UACPI_OBJECT_INTEGER,
        P UACPI_PARSE_OP_INVOKE_HANDLER, P UACPI_PARSE_OP_OBJECT_TRANSFER_TO_PREV],
     UACPI_OP ''OpRegionOp'' (UACPI_EXT_OP 0x80) 0
       [P UACPI_PARSE_OP_CREATE_NAMESTRING_OR_NULL_IF_LOAD, P UACPI_PARSE_OP_LOAD_IMM, I 1,
        P UACPI_PARSE_OP_OPERAND, P UACPI_PARSE_OP_OPERAND,
        P UACPI_PARSE_OP_SKIP_WITH_WARN_IF_NULL, I 0, P UACPI_PARSE_OP_OBJECT_ALLOC_TYPED,
        I UACPI_OBJECT_OPERATION_REGION, P UACPI_PARSE_OP_INVOKE_HANDLER,
        P UACPI_PARSE_OP_INSTALL_NAMESPACE_NODE, I 0],
     UACPI_OUT_OF_LINE_OP ''FieldOp'' (UACPI_EXT_OP 0x81) uacpi_field_op_decode_ops UACPI_OP_PROPERTY_OUT_OF_LINE,
     UACPI_BUILD_NAMED_SCOPE_OBJECT_OP ''Device'' 0x82 UACPI_OBJECT_DEVICE [],
     UACPI_BUILD_NAMED_SCOPE_OBJECT_OP ''Processor'' 0x83 UACPI_OBJECT_PROCESSOR [P UACPI_PARSE_OP_LOAD_IMM, I 1, P UACPI_PARSE_OP_LOAD_IMM, I 4, P UACPI_PARSE_OP_LOAD_IMM, I 1],
     UACPI_BUILD_NAMED_SCOPE_OBJECT_OP ''PowerRes'' 0x84 UACPI_OBJECT_POWER_RESOURCE [P UACPI_PARSE_OP_LOAD_IMM, I 1, P UACPI_PARSE_OP_LOAD_IMM, I 2],
     UACPI_BUILD_NAMED_SCOPE_OBJECT_OP ''ThermalZone'' 0x85 UACPI_OBJECT_THERMAL_ZONE [],
     UACPI_OUT_OF_LINE_OP ''IndexFieldOp'' (UACPI_EXT_OP 0x86) uacpi_index_field_op_decode_ops UACPI_OP_PROPERTY_OUT_OF_LINE,
     UACPI_OUT_OF_LINE_OP ''BankFieldOp'' (UACPI_EXT_OP 0x87) uacpi_bank_field_op_decode_ops UACPI_OP_PROPERTY_OUT_OF_LINE]"

definition ext_opcodes_2 :: "uacpi_op_spec list" where
  "ext_opcodes_2 =
    [UACPI_OP ''DataRegionOp'' (UACPI_EXT_OP 0x88) 0
       [P UACPI_PARSE_OP_CREATE_NAMESTRING_OR_NULL_IF_LOAD, P UACPI_PARSE_OP_STRING,
        P UACPI_PARSE_OP_STRING, P UACPI_PARSE_OP_STRING, P UACPI_PARSE_OP_SKIP_WITH_WARN_IF_NULL,
        I 0, P UACPI_PARSE_OP_OBJECT_ALLOC_TYPED, I UACPI_OBJECT_OPERATION_REGION,
        P UACPI_PARSE_OP_INVOKE_HANDLER, P UACPI_PARSE_OP_INSTALL_NAMESPACE_NODE, I 0]]"

definition ext_opcode_table :: "uacpi_op_spec list" where
  "ext_opcode_table = ext_opcodes_0 @ ext_opcodes_1 @ ext_opcodes_2"

text \<open>The low byte of an extended instruction leads to its place; the other entries are 0.  The
  array is written here as the pairs of its initialiser.\<close>

definition ext_op_indices :: "(nat \<times> nat) list" where
  "ext_op_indices =
    [(0x01, 1), (0x02, 2), (0x12, 3), (0x13, 4), (0x1F, 5), (0x20, 6), (0x21, 7), (0x22, 8),
     (0x23, 9), (0x24, 10), (0x25, 11), (0x26, 12), (0x27, 13), (0x28, 14), (0x29, 15), (0x2A, 16),
     (0x30, 17), (0x31, 18), (0x32, 19), (0x33, 20), (0x80, 21), (0x81, 22), (0x82, 23),
     (0x83, 24), (0x84, 25), (0x85, 26), (0x86, 27), (0x87, 28), (0x88, 29)]"

definition ext_op_to_idx :: "nat \<Rightarrow> nat" where
  "ext_op_to_idx n = (case map_of ext_op_indices n of None \<Rightarrow> 0 | Some i \<Rightarrow> i)"

definition uacpi_get_op_spec :: "nat \<Rightarrow> uacpi_op_spec" where
  "uacpi_get_op_spec op =
     (if op > 0xFF then ext_opcode_table ! ext_op_to_idx (op mod 256) else opcode_table ! op)"

text \<open>The array of names; an operation without an entry has the null pointer.\<close>

primrec pop_names :: "uacpi_parse_op \<Rightarrow> string option" where
  "pop_names UACPI_PARSE_OP_END = Some ''<END-OF-OP>''"
| "pop_names UACPI_PARSE_OP_SKIP_WITH_WARN_IF_NULL = Some ''SKIP_WITH_WARN_IF_NULL''"
| "pop_names UACPI_PARSE_OP_EMIT_SKIP_WARN = Some ''EMIT_SKIP_WARN''"
| "pop_names UACPI_PARSE_OP_SIMPLE_NAME = Some ''SIMPLE_NAME''"
| "pop_names UACPI_PARSE_OP_SUPERNAME = Some ''SUPERNAME''"
| "pop_names UACPI_PARSE_OP_SUPERNAME_OR_UNRESOLVED = Some ''SUPERNAME_OR_UNRESOLVED''"
| "pop_names UACPI_PARSE_OP_TERM_ARG = Some ''TERM_ARG''"
| "pop_names UACPI_PARSE_OP_TERM_ARG_UNWRAP_INTERNAL = Some ''TERM_ARG_UNWRAP_INTERNAL''"
| "pop_names UACPI_PARSE_OP_TERM_ARG_OR_NAMED_OBJECT = Some ''TERM_ARG_OR_NAMED_OBJECT''"
| "pop_names UACPI_PARSE_OP_TERM_ARG_OR_NAMED_OBJECT_OR_UNRESOLVED = Some ''TERM_ARG_OR_NAMED_OBJECT_OR_UNRESOLVED''"
| "pop_names UACPI_PARSE_OP_OPERAND = Some ''OPERAND''"
| "pop_names UACPI_PARSE_OP_STRING = Some ''STRING''"
| "pop_names UACPI_PARSE_OP_COMPUTATIONAL_DATA = Some ''COMPUTATIONAL_DATA''"
| "pop_names UACPI_PARSE_OP_TARGET = Some ''TARGET''"
| "pop_names UACPI_PARSE_OP_PKGLEN = Some ''PKGLEN''"
| "pop_names UACPI_PARSE_OP_TRACKED_PKGLEN = Some ''TRACKED_PKGLEN''"
| "pop_names UACPI_PARSE_OP_CREATE_NAMESTRING = Some ''CREATE_NAMESTRING''"
| "pop_names UACPI_PARSE_OP_CREATE_NAMESTRING_OR_NULL_IF_LOAD = Some ''CREATE_NAMESTRING_OR_NULL_IF_LOAD''"
| "pop_names UACPI_PARSE_OP_EXISTING_NAMESTRING = Some ''EXISTING_NAMESTRING''"
| "pop_names UACPI_PARSE_OP_EXISTING_NAMESTRING_OR_NULL = Some ''EXISTING_NAMESTRING_OR_NULL''"
| "pop_names UACPI_PARSE_OP_EXISTING_NAMESTRING_OR_NULL_IF_LOAD = Some ''EXISTING_NAMESTRING_OR_NULL_IF_LOAD''"
| "pop_names UACPI_PARSE_OP_INVOKE_HANDLER = Some ''INVOKE_HANDLER''"
| "pop_names UACPI_PARSE_OP_OBJECT_ALLOC = Some ''OBJECT_ALLOC''"
| "pop_names UACPI_PARSE_OP_EMPTY_OBJECT_ALLOC = Some ''EMPTY_OBJECT_ALLOC''"
| "pop_names UACPI_PARSE_OP_OBJECT_CONVERT_TO_SHALLOW_COPY = Some ''OBJECT_CONVERT_TO_SHALLOW_COPY''"
| "pop_names UACPI_PARSE_OP_OBJECT_CONVERT_TO_DEEP_COPY = Some ''OBJECT_CONVERT_TO_DEEP_COPY''"
| "pop_names UACPI_PARSE_OP_OBJECT_ALLOC_TYPED = Some ''OBJECT_ALLOC_TYPED''"
| "pop_names UACPI_PARSE_OP_RECORD_AML_PC = Some ''RECORD_AML_PC''"
| "pop_names UACPI_PARSE_OP_LOAD_INLINE_IMM_AS_OBJECT = Some ''LOAD_INLINE_IMM_AS_OBJECT''"
| "pop_names UACPI_PARSE_OP_LOAD_INLINE_IMM = Some ''LOAD_INLINE_IMM''"
| "pop_names UACPI_PARSE_OP_LOAD_ZERO_IMM = Some ''LOAD_ZERO_IMM''"
| "pop_names UACPI_PARSE_OP_LOAD_IMM = Some ''LOAD_IMM''"
| "pop_names UACPI_PARSE_OP_LOAD_IMM_AS_OBJECT = Some ''LOAD_IMM_AS_OBJECT''"
| "pop_names UACPI_PARSE_OP_LOAD_FALSE_OBJECT = Some ''LOAD_FALSE_OBJECT''"
| "pop_names UACPI_PARSE_OP_LOAD_TRUE_OBJECT = Some ''LOAD_TRUE_OBJECT''"
| "pop_names UACPI_PARSE_OP_TRUNCATE_NUMBER = Some ''TRUNCATE_NUMBER''"
| "pop_names UACPI_PARSE_OP_TYPECHECK = Some ''TYPECHECK''"
| "pop_names UACPI_PARSE_OP_INSTALL_NAMESPACE_NODE = Some ''INSTALL_NAMESPACE_NODE''"
| "pop_names UACPI_PARSE_OP_OBJECT_TRANSFER_TO_PREV = Some ''OBJECT_TRANSFER_TO_PREV''"
| "pop_names UACPI_PARSE_OP_OBJECT_COPY_TO_PREV = Some ''OBJECT_COPY_TO_PREV''"
| "pop_names UACPI_PARSE_OP_STORE_TO_TARGET = Some ''STORE_TO_TARGET''"
| "pop_names UACPI_PARSE_OP_STORE_TO_TARGET_INDIRECT = Some ''STORE_TO_TARGET_INDIRECT''"
| "pop_names UACPI_PARSE_OP_UNREACHABLE = Some ''UNREACHABLE''"
| "pop_names UACPI_PARSE_OP_BAD_OPCODE = Some ''BAD_OPCODE''"
| "pop_names UACPI_PARSE_OP_AML_PC_DECREMENT = Some ''AML_PC_DECREMENT''"
| "pop_names UACPI_PARSE_OP_IMM_DECREMENT = Some ''IMM_DECREMENT''"
| "pop_names UACPI_PARSE_OP_ITEM_POP = Some ''ITEM_POP''"
| "pop_names UACPI_PARSE_OP_DISPATCH_METHOD_CALL = Some ''DISPATCH_METHOD_CALL''"
| "pop_names UACPI_PARSE_OP_DISPATCH_TABLE_LOAD = Some ''DISPATCH_TABLE_LOAD''"
| "pop_names UACPI_PARSE_OP_CONVERT_NAMESTRING = Some ''CONVERT_NAMESTRING''"
| "pop_names UACPI_PARSE_OP_IF_HAS_DATA = Some ''IF_HAS_DATA''"
| "pop_names UACPI_PARSE_OP_IF_NULL = Some ''IF_NULL''"
| "pop_names UACPI_PARSE_OP_IF_LAST_NULL = Some ''IF_LAST_NULL''"
| "pop_names UACPI_PARSE_OP_IF_NOT_NULL = Some ''IF_NOT_NULL''"
| "pop_names UACPI_PARSE_OP_IF_LAST_NOT_NULL = Some ''IF_NOT_NULL''"
| "pop_names UACPI_PARSE_OP_IF_LAST_EQUALS = Some ''IF_LAST_EQUALS''"
| "pop_names UACPI_PARSE_OP_IF_LAST_FALSE = Some ''IF_LAST_FALSE''"
| "pop_names UACPI_PARSE_OP_IF_LAST_TRUE = Some ''IF_LAST_TRUE''"
| "pop_names UACPI_PARSE_OP_SWITCH_TO_NEXT_IF_EQUALS = Some ''SWITCH_TO_NEXT_IF_EQUALS''"
| "pop_names UACPI_PARSE_OP_IF_SWITCHED_FROM = Some ''IF_SWITCHED_FROM''"
| "pop_names UACPI_PARSE_OP_JMP = Some ''JMP''"

definition uacpi_parse_op_to_string :: "nat \<Rightarrow> string option" where
  "uacpi_parse_op_to_string op =
     (if op > UACPI_PARSE_OP_MAX then Some ''<INVALID-OP>'' else pop_names (parse_ops ! op))"

section \<open>The tables agree\<close>

lemma op_fields [simp]:
  "op_code (UACPI_OP n c p xs) = c" "properties (UACPI_OP n c p xs) = p"
  "length (decode_ops (UACPI_OP n c p xs)) = max 16 (length xs)"
  "op_code (UACPI_OUT_OF_LINE_OP n c a p) = c" "properties (UACPI_OUT_OF_LINE_OP n c a p) = p"
  "decode_ops (UACPI_OUT_OF_LINE_OP n c a p) = a"
  by (simp_all add: UACPI_OP_def UACPI_OUT_OF_LINE_OP_def)

lemmas op_macros =
  UACPI_INTERNAL_OP_def UACPI_BAD_OPCODE_def UACPI_METHOD_CALL_OPCODE_def
  UACPI_UNRESOLVED_NAME_STRING_OP_def UACPI_BUILD_LOCAL_OR_ARG_OP_def UACPI_LOCALX_OP_def
  UACPI_ARGX_OP_def UACPI_BUILD_PACKAGE_OP_def UACPI_BUILD_BINARY_MATH_OP_def
  UACPI_BUILD_UNARY_MATH_OP_def UACPI_DO_BUILD_BUFFER_FIELD_OP_def
  UACPI_BUILD_BUFFER_FIELD_OP_def UACPI_INTEGER_LITERAL_OP_def UACPI_BUILD_BINARY_LOGIC_OP_def
  UACPI_BUILD_TO_OP_def UACPI_BUILD_INC_DEC_OP_def UACPI_BUILD_NAMED_SCOPE_OBJECT_OP_def
  UACPI_BUILD_TO_FROM_BCD_def

lemmas op_property_defs =
  UACPI_OP_PROPERTY_TERM_ARG_def UACPI_OP_PROPERTY_SUPERNAME_def UACPI_OP_PROPERTY_SIMPLE_NAME_def
  UACPI_OP_PROPERTY_TARGET_def UACPI_OP_PROPERTY_OUT_OF_LINE_def UACPI_OP_PROPERTY_RESERVED_def

lemmas op_tables = opcode_table_def ext_opcode_table_def opcodes_0_def opcodes_1_def opcodes_2_def
  opcodes_3_def opcodes_4_def opcodes_5_def ext_opcodes_0_def ext_opcodes_1_def ext_opcodes_2_def

lemma opcode_table_codes: "map op_code opcode_table = [0..<0x100]"
  by (simp add: op_tables op_macros) code_simp

lemma ext_table_codes:
  "list_all (\<lambda>(i, k). k < length ext_opcode_table \<and> op_code (ext_opcode_table ! k) = UACPI_EXT_OP i) ((0, 0) # ext_op_indices)"
  by (simp add: op_tables op_macros ext_op_indices_def)

lemma tables_length: "length opcode_table = 0x100" "length ext_opcode_table = 30"
  by (simp_all add: op_tables)

lemma opcode_table_in_line:
  "list_all (\<lambda>s. properties s AND UACPI_OP_PROPERTY_OUT_OF_LINE = 0 \<and> length (decode_ops s) = 16) opcode_table"
  by (simp add: op_tables op_macros op_property_defs)

lemma ext_opcode_table_in_line:
  "list_all (\<lambda>s. (properties s AND UACPI_OP_PROPERTY_OUT_OF_LINE = 0) = (length (decode_ops s) = 16)) ext_opcode_table"
  by (simp add: op_tables op_macros op_property_defs UACPI_EXT_OP_def uacpi_field_op_decode_ops_def
      uacpi_bank_field_op_decode_ops_def uacpi_index_field_op_decode_ops_def uacpi_load_op_decode_ops_def
      uacpi_load_table_op_decode_ops_def PARSE_FIELD_ELEMENTS_def)

lemma one_byte_code: "op < 0x100 \<Longrightarrow> op_code (uacpi_get_op_spec op) = op"
  using arg_cong [OF opcode_table_codes, of "\<lambda>xs. xs ! op"] by (simp add: uacpi_get_op_spec_def tables_length)

lemma extended_code:
  assumes "i < 0x100"
  shows "op_code (uacpi_get_op_spec (UACPI_EXT_OP i)) = UACPI_EXT_OP (if i \<in> fst ` set ext_op_indices then i else 0)"
proof -
  have "op_code (ext_opcode_table ! ext_op_to_idx i) = UACPI_EXT_OP (if i \<in> fst ` set ext_op_indices then i else 0)"
  proof (cases "map_of ext_op_indices i")
    case None
    then have "i \<notin> fst ` set ext_op_indices" by (simp add: map_of_eq_None_iff)
    with None ext_table_codes show ?thesis by (simp add: ext_op_to_idx_def)
  next
    case (Some k)
    from map_of_SomeD [OF this] have "(i, k) \<in> set ext_op_indices" .
    moreover from this have "i \<in> fst ` set ext_op_indices" by force
    ultimately show ?thesis using ext_table_codes Some by (auto simp: ext_op_to_idx_def list_all_iff)
  qed
  moreover have "UACPI_EXT_OP i mod 256 = i"
    using assms by (simp only: UACPI_EXT_OP_def UACPI_EXT_PREFIX_def mod_mult_self3 mod_less)
  moreover have "UACPI_EXT_OP i > 0xFF" by (simp add: UACPI_EXT_OP_def UACPI_EXT_PREFIX_def)
  ultimately show ?thesis by (simp add: uacpi_get_op_spec_def)
qed

section \<open>Properties\<close>

text \<open>The tables of the instructions fit together.  The entry of every one-byte instruction
  is at the place of its code; every extended instruction that has an index leads to the entry
  with its code, and any other one to the reserved entry; and a program is out of line exactly
  where it is not an array of 16 bytes.\<close>

lemma instruction_tables_agree:
  "op_code (uacpi_get_op_spec (unat (b :: u8))) = unat b
   \<and> op_code (uacpi_get_op_spec (UACPI_EXT_OP (unat b))) =
       UACPI_EXT_OP (if unat b \<in> fst ` set ext_op_indices then unat b else 0)
   \<and> list_all (\<lambda>s. (properties s AND UACPI_OP_PROPERTY_OUT_OF_LINE = 0) = (length (decode_ops s) = 16))
       (opcode_table @ ext_opcode_table)"
proof -
  have "unat b < 0x100" using unsigned_less [of b] by simp
  moreover have "list_all (\<lambda>s. (properties s AND UACPI_OP_PROPERTY_OUT_OF_LINE = 0) = (length (decode_ops s) = 16)) opcode_table"
    using opcode_table_in_line by (auto simp: list_all_iff)
  ultimately show ?thesis using one_byte_code extended_code ext_opcode_table_in_line by simp
qed

end
