(* ===== verification/Parse_Check.thy ===== *)
theory Parse_Check
  imports Opcodes "HOL-Library.Monad_Syntax" "HOL-Library.Sublist"
begin

text \<open>
  A verifier for the programs of parse operations.  A program works on a list of items; the
  verifier runs it on what is known of their kinds, and accepts it if every operation finds
  items of the kind it works on and every jump leads to an operation.
\<close>

section \<open>Items\<close>





section \<open>What is known of the items\<close>








section \<open>The effect of an operation\<close>





definition WhileOp :: nat where "WhileOp = 0xA2"







section \<open>Certificates\<close>















section \<open>Handlers\<close>





section \<open>All programs\<close>









































section \<open>Properties\<close>


end
