(* ===== verification/Namespace.thy ===== *)
theory Namespace
  imports Acpi_Base Refcount "HOL-Library.Monad_Syntax" "HOL-Library.Multiset"
begin

text \<open>
  The namespace of \<^verbatim>\<open>src/kern/acpi/namespace.c\<close>: nodes in memory, linked to their parent, their
  first child and their next sibling.  A node is known by its address; the predefined nodes are at
  the addresses below 10.  \<open>None\<close> as the result of a function is the use of a null pointer or of
  memory that holds no node, a write outside the path buffer, or a loop that does not end.
\<close>

section \<open>Nodes\<close>

type_synonym ptr = "nat option"

record uacpi_namespace_node =
  shareable :: uacpi_shareable
  node_name :: string
  flags :: u32
  object :: u64
  parent :: ptr
  child :: ptr
  next_peer :: ptr

definition UACPI_NAMESPACE_NODE_FLAG_ALIAS :: u32 where "UACPI_NAMESPACE_NODE_FLAG_ALIAS = 1"
definition UACPI_NAMESPACE_NODE_FLAG_DANGLING :: u32 where "UACPI_NAMESPACE_NODE_FLAG_DANGLING = 2"
definition UACPI_NAMESPACE_NODE_FLAG_TEMPORARY :: u32 where "UACPI_NAMESPACE_NODE_FLAG_TEMPORARY = 4"
definition UACPI_NAMESPACE_NODE_PREDEFINED :: u32 where "UACPI_NAMESPACE_NODE_PREDEFINED = 0x80000000"

definition UACPI_PREDEFINED_NAMESPACE_ROOT :: nat where "UACPI_PREDEFINED_NAMESPACE_ROOT = 0"
definition UACPI_PREDEFINED_NAMESPACE_GPE :: nat where "UACPI_PREDEFINED_NAMESPACE_GPE = 1"
definition UACPI_PREDEFINED_NAMESPACE_GL :: nat where "UACPI_PREDEFINED_NAMESPACE_GL = 6"
definition UACPI_PREDEFINED_NAMESPACE_OS :: nat where "UACPI_PREDEFINED_NAMESPACE_OS = 7"
definition UACPI_PREDEFINED_NAMESPACE_OSI :: nat where "UACPI_PREDEFINED_NAMESPACE_OSI = 8"
definition UACPI_PREDEFINED_NAMESPACE_REV :: nat where "UACPI_PREDEFINED_NAMESPACE_REV = 9"
definition UACPI_PREDEFINED_NAMESPACE_MAX :: nat where
  "UACPI_PREDEFINED_NAMESPACE_MAX = UACPI_PREDEFINED_NAMESPACE_REV"

type_synonym nodes = "nat \<Rightarrow> uacpi_namespace_node option"

definition deref :: "nodes \<Rightarrow> ptr \<Rightarrow> uacpi_namespace_node option" where
  "deref m p = Option.bind p m"

definition uacpi_namespace_root :: nat where "uacpi_namespace_root = UACPI_PREDEFINED_NAMESPACE_ROOT"

definition uacpi_namespace_get_predefined :: "nat \<Rightarrow> ptr" where
  "uacpi_namespace_get_predefined ns = (if UACPI_PREDEFINED_NAMESPACE_MAX < ns then None else Some ns)"

definition has_flag :: "u32 \<Rightarrow> uacpi_namespace_node \<Rightarrow> bool" where
  "has_flag f n \<longleftrightarrow> flags n AND f \<noteq> 0"

definition uacpi_namespace_node_is_alias :: "uacpi_namespace_node \<Rightarrow> bool" where
  "uacpi_namespace_node_is_alias n = has_flag UACPI_NAMESPACE_NODE_FLAG_ALIAS n"

definition uacpi_namespace_node_is_dangling :: "uacpi_namespace_node \<Rightarrow> bool" where
  "uacpi_namespace_node_is_dangling n = has_flag UACPI_NAMESPACE_NODE_FLAG_DANGLING n"

definition uacpi_namespace_node_is_temporary :: "uacpi_namespace_node \<Rightarrow> bool" where
  "uacpi_namespace_node_is_temporary n = has_flag UACPI_NAMESPACE_NODE_FLAG_TEMPORARY n"

definition uacpi_namespace_node_is_predefined :: "uacpi_namespace_node \<Rightarrow> bool" where
  "uacpi_namespace_node_is_predefined n = has_flag UACPI_NAMESPACE_NODE_PREDEFINED n"

text \<open>The predefined nodes, before the namespace is initialized.\<close>

definition MAKE_PREDEFINED :: "string \<Rightarrow> uacpi_namespace_node" where
  "MAKE_PREDEFINED text4 =
     \<lparr>shareable = \<lparr>share_count = 0\<rparr>, node_name = text4, flags = UACPI_NAMESPACE_NODE_PREDEFINED, object = 0,
      parent = None, child = None, next_peer = None\<rparr>"

definition predefined_namespaces :: "uacpi_namespace_node list" where
  "predefined_namespaces =
    [MAKE_PREDEFINED (CHR 0x5C # replicate 3 (CHR 0x00)), MAKE_PREDEFINED ''_GPE'', MAKE_PREDEFINED ''_PR_'',
     MAKE_PREDEFINED ''_SB_'', MAKE_PREDEFINED ''_SI_'', MAKE_PREDEFINED ''_TZ_'', MAKE_PREDEFINED ''_GL_'',
     MAKE_PREDEFINED ''_OS_'', MAKE_PREDEFINED ''_OSI'', MAKE_PREDEFINED ''_REV'']"

section \<open>The host\<close>

text \<open>What the namespace uses of other parts of the library: objects, their references, handlers
  of operation regions, locks and memory.\<close>

record 'h ns_host =
  object_type :: "'h \<Rightarrow> u64 \<Rightarrow> nat"
  unwrap_internal_reference :: "'h \<Rightarrow> u64 \<Rightarrow> u64"
  object_is_reference :: "'h \<Rightarrow> u64 \<Rightarrow> bool"
  object_is_region :: "'h \<Rightarrow> u64 \<Rightarrow> bool"
  object_ref :: "u64 \<Rightarrow> 'h \<Rightarrow> 'h"
  object_unref :: "u64 \<Rightarrow> 'h \<Rightarrow> 'h"
  opregion_uninstall_handler :: "nat \<Rightarrow> 'h \<Rightarrow> 'h"
  read_lock :: "'h \<Rightarrow> uacpi_status \<times> 'h"
  read_unlock :: "'h \<Rightarrow> uacpi_status \<times> 'h"
  write_lock :: "'h \<Rightarrow> uacpi_status \<times> 'h"
  write_unlock :: "'h \<Rightarrow> uacpi_status \<times> 'h"
  alloc_node :: "'h \<Rightarrow> ptr \<times> 'h"
  room_for_path :: "nat \<Rightarrow> 'h \<Rightarrow> bool"

record 'h namespace =
  nodes :: nodes
  host :: 'h

definition node_upd :: "nat \<Rightarrow> (uacpi_namespace_node \<Rightarrow> uacpi_namespace_node) \<Rightarrow> nodes \<Rightarrow> nodes" where
  "node_upd a f m = (case m a of None \<Rightarrow> m | Some n \<Rightarrow> m(a \<mapsto> f n))"

lemma node_upd_other: "b \<noteq> a \<Longrightarrow> node_upd a f m b = m b"
  by (simp add: node_upd_def split: option.split)

section \<open>Objects of nodes\<close>

definition uacpi_namespace_node_get_object :: "('h, 'x) ns_host_scheme \<Rightarrow> 'h \<Rightarrow> uacpi_namespace_node \<Rightarrow> u64" where
  "uacpi_namespace_node_get_object k h n =
     (if object n = 0 then 0 else unwrap_internal_reference k h (object n))"

definition uacpi_object_get_type_bit :: "('h, 'x) ns_host_scheme \<Rightarrow> 'h \<Rightarrow> u64 \<Rightarrow> u32" where
  "uacpi_object_get_type_bit k h obj = push_bit (object_type k h obj) 1"

definition uacpi_object_is_one_of :: "('h, 'x) ns_host_scheme \<Rightarrow> 'h \<Rightarrow> u64 \<Rightarrow> u32 \<Rightarrow> bool" where
  "uacpi_object_is_one_of k h obj type_mask \<longleftrightarrow> uacpi_object_get_type_bit k h obj AND type_mask \<noteq> 0"

definition uacpi_namespace_node_get_object_typed :: "('h, 'x) ns_host_scheme \<Rightarrow> 'h \<Rightarrow> uacpi_namespace_node \<Rightarrow> u32 \<Rightarrow> u64" where
  "uacpi_namespace_node_get_object_typed k h n type_mask =
     (let obj = uacpi_namespace_node_get_object k h n
      in if obj = 0 then obj else if \<not> uacpi_object_is_one_of k h obj type_mask then 0 else obj)"

text \<open>The output parameter stays as it was where it is not written.\<close>

definition uacpi_namespace_node_is_one_of_unlocked ::
  "('h, 'x) ns_host_scheme \<Rightarrow> 'h namespace \<Rightarrow> ptr \<Rightarrow> u32 \<Rightarrow> bool \<Rightarrow> (uacpi_status \<times> bool) option" where
  "uacpi_namespace_node_is_one_of_unlocked k s p type_mask out =
     (if p = None then Some (UACPI_STATUS_INVALID_ARGUMENT, out)
      else do {
        n \<leftarrow> deref (nodes s) p;
        let obj = uacpi_namespace_node_get_object k (host s) n;
        if obj = 0 then Some (UACPI_STATUS_NOT_FOUND, out)
        else Some (UACPI_STATUS_OK, uacpi_object_is_one_of k (host s) obj type_mask) })"

definition uacpi_namespace_node_type_unlocked ::
  "('h, 'x) ns_host_scheme \<Rightarrow> 'h namespace \<Rightarrow> ptr \<Rightarrow> (uacpi_status \<times> nat option) option" where
  "uacpi_namespace_node_type_unlocked k s p =
     (if p = None then Some (UACPI_STATUS_INVALID_ARGUMENT, None)
      else do {
        n \<leftarrow> deref (nodes s) p;
        let obj = uacpi_namespace_node_get_object k (host s) n;
        if obj = 0 then Some (UACPI_STATUS_NOT_FOUND, None)
        else Some (UACPI_STATUS_OK, Some (object_type k (host s) obj)) })"

definition uacpi_namespace_node_type ::
  "('h, 'x) ns_host_scheme \<Rightarrow> 'h namespace \<Rightarrow> ptr \<Rightarrow> ((uacpi_status \<times> nat option) \<times> 'h) option" where
  "uacpi_namespace_node_type k s p =
     (let (ret, h) = read_lock k (host s)
      in if ret \<noteq> UACPI_STATUS_OK then Some ((ret, None), h)
      else do { r \<leftarrow> uacpi_namespace_node_type_unlocked k (s\<lparr>host := h\<rparr>) p; Some (r, snd (read_unlock k h)) })"

definition uacpi_namespace_node_is_one_of ::
  "('h, 'x) ns_host_scheme \<Rightarrow> 'h namespace \<Rightarrow> ptr \<Rightarrow> u32 \<Rightarrow> bool \<Rightarrow> ((uacpi_status \<times> bool) \<times> 'h) option" where
  "uacpi_namespace_node_is_one_of k s p type_mask out =
     (let (ret, h) = read_lock k (host s)
      in if ret \<noteq> UACPI_STATUS_OK then Some ((ret, out), h)
      else do {
        r \<leftarrow> uacpi_namespace_node_is_one_of_unlocked k (s\<lparr>host := h\<rparr>) p type_mask out;
        Some (r, snd (read_unlock k h)) })"

definition uacpi_namespace_node_is ::
  "('h, 'x) ns_host_scheme \<Rightarrow> 'h namespace \<Rightarrow> ptr \<Rightarrow> nat \<Rightarrow> bool \<Rightarrow> ((uacpi_status \<times> bool) \<times> 'h) option" where
  "uacpi_namespace_node_is k s p type_code out = uacpi_namespace_node_is_one_of k s p (push_bit type_code 1) out"

definition uacpi_namespace_node_acquire_object_typed ::
  "('h, 'x) ns_host_scheme \<Rightarrow> 'h namespace \<Rightarrow> ptr \<Rightarrow> u32 \<Rightarrow> ((uacpi_status \<times> u64 option) \<times> 'h namespace) option" where
  "uacpi_namespace_node_acquire_object_typed k s p type_mask =
     (let (ret, h) = read_lock k (host s); s = s\<lparr>host := h\<rparr>
      in if ret \<noteq> UACPI_STATUS_OK then Some ((ret, None), s)
      else do {
        obj \<leftarrow> (if p = None then Some 0
                else map_option (uacpi_namespace_node_get_object k h) (deref (nodes s) p));
        if obj = 0 \<or> \<not> uacpi_object_is_one_of k h obj type_mask
        then Some ((UACPI_STATUS_INVALID_ARGUMENT, None), s\<lparr>host := snd (read_unlock k h)\<rparr>)
        else Some ((UACPI_STATUS_OK, Some obj), s\<lparr>host := snd (read_unlock k (object_ref k obj h))\<rparr>) })"

definition uacpi_namespace_node_acquire_object ::
  "('h, 'x) ns_host_scheme \<Rightarrow> 'h namespace \<Rightarrow> ptr \<Rightarrow> ((uacpi_status \<times> u64 option) \<times> 'h namespace) option" where
  "uacpi_namespace_node_acquire_object k s p = uacpi_namespace_node_acquire_object_typed k s p 0xFFFFFFFF"

definition object_mutate_refcount :: "('h, 'x) ns_host_scheme \<Rightarrow> u64 \<Rightarrow> (u64 \<Rightarrow> 'h \<Rightarrow> 'h) \<Rightarrow> 'h \<Rightarrow> uacpi_status \<times> 'h" where
  "object_mutate_refcount k obj cb h =
     (if \<not> object_is_reference k h obj then (UACPI_STATUS_OK, cb obj h)
      else case read_lock k h of
        (ret, h) \<Rightarrow> if ret \<noteq> UACPI_STATUS_OK then (ret, h) else (ret, snd (read_unlock k (cb obj h))))"

definition uacpi_namespace_node_reacquire_object :: "('h, 'x) ns_host_scheme \<Rightarrow> u64 \<Rightarrow> 'h \<Rightarrow> uacpi_status \<times> 'h" where
  "uacpi_namespace_node_reacquire_object k obj h = object_mutate_refcount k obj (object_ref k) h"

definition uacpi_namespace_node_release_object :: "('h, 'x) ns_host_scheme \<Rightarrow> u64 \<Rightarrow> 'h \<Rightarrow> uacpi_status \<times> 'h" where
  "uacpi_namespace_node_release_object k obj h = object_mutate_refcount k obj (object_unref k) h"

definition namespace_node_detach_object :: "('h, 'x) ns_host_scheme \<Rightarrow> nat \<Rightarrow> 'h namespace \<Rightarrow> 'h namespace option" where
  "namespace_node_detach_object k a s =
     do { n \<leftarrow> nodes s a;
          let obj = uacpi_namespace_node_get_object k (host s) n;
          if obj = 0 then Some s
          else let h = (if object_is_region k (host s) obj then opregion_uninstall_handler k a (host s) else host s)
            in Some (s\<lparr>nodes := node_upd a (\<lambda>n. n\<lparr>object := 0\<rparr>) (nodes s), host := object_unref k (object n) h\<rparr>) }"

section \<open>Installing and removing nodes\<close>

definition uacpi_namespace_node_alloc :: "('h, 'x) ns_host_scheme \<Rightarrow> string \<Rightarrow> 'h namespace \<Rightarrow> ptr \<times> 'h namespace" where
  "uacpi_namespace_node_alloc k nm s =
     (case alloc_node k (host s) of
        (None, h) \<Rightarrow> (None, s\<lparr>host := h\<rparr>)
      | (Some a, h) \<Rightarrow>
          (Some a, s\<lparr>nodes := (nodes s)(a \<mapsto>
             \<lparr>shareable = uacpi_shareable_init \<lparr>share_count = 0\<rparr>, node_name = nm, flags = 0, object = 0,
              parent = None, child = None, next_peer = None\<rparr>), host := h\<rparr>))"

definition free_namespace_node :: "nat \<Rightarrow> nodes \<Rightarrow> nodes" where
  "free_namespace_node a m =
     (case m a of None \<Rightarrow> m
      | Some n \<Rightarrow>
          if \<not> uacpi_namespace_node_is_predefined n then m(a := None)
          else m(a \<mapsto> n\<lparr>flags := UACPI_NAMESPACE_NODE_PREDEFINED, object := 0, parent := None, child := None,
                          next_peer := None\<rparr>))"

definition uacpi_namespace_node_unref :: "nat \<Rightarrow> nodes \<Rightarrow> nodes option" where
  "uacpi_namespace_node_unref a m =
     do { n \<leftarrow> m a;
          case uacpi_shareable_unref_and_delete_if_last (Some (shareable n)) of
            (freed, Some sh) \<Rightarrow>
              let m = m(a \<mapsto> n\<lparr>shareable := sh\<rparr>)
              in Some (if freed then free_namespace_node a m else m)
          | (_, None) \<Rightarrow> None }"

text \<open>The last of the peers that follow a node.\<close>

partial_function (option) last_peer :: "nodes \<Rightarrow> nat \<Rightarrow> nat option" where
  "last_peer m a =
     do { n \<leftarrow> m a;
          case next_peer n of None \<Rightarrow> Some a | Some b \<Rightarrow> last_peer m b }"

definition uacpi_namespace_node_install :: "ptr \<Rightarrow> nat \<Rightarrow> nodes \<Rightarrow> (uacpi_status \<times> nodes) option" where
  "uacpi_namespace_node_install par a m =
     do { let p = (case par of None \<Rightarrow> uacpi_namespace_root | Some p \<Rightarrow> p);
          n \<leftarrow> m a;
          if uacpi_namespace_node_is_dangling n then Some (UACPI_STATUS_NAMESPACE_NODE_DANGLING, m)
          else do {
            pn \<leftarrow> m p;
            m \<leftarrow> (case child pn of
                    None \<Rightarrow> Some (node_upd p (\<lambda>n. n\<lparr>child := Some a\<rparr>) m)
                  | Some c \<Rightarrow> do { l \<leftarrow> last_peer m c; Some (node_upd l (\<lambda>n. n\<lparr>next_peer := Some a\<rparr>) m) });
            Some (UACPI_STATUS_OK, node_upd a (\<lambda>n. n\<lparr>parent := Some p\<rparr>) m) } }"

text \<open>The peer before a node; null where no peer is.\<close>

partial_function (option) peer_before :: "nodes \<Rightarrow> nat \<Rightarrow> ptr \<Rightarrow> ptr option" where
  "peer_before m a prev =
     (case prev of None \<Rightarrow> Some None
      | Some b \<Rightarrow> do { n \<leftarrow> m b; if next_peer n \<noteq> Some a then peer_before m a (next_peer n) else Some (Some b) })"

definition uacpi_namespace_node_uninstall ::
  "('h, 'x) ns_host_scheme \<Rightarrow> nat \<Rightarrow> 'h namespace \<Rightarrow> (uacpi_status \<times> 'h namespace) option" where
  "uacpi_namespace_node_uninstall k a s =
     do { n \<leftarrow> nodes s a;
          if uacpi_namespace_node_is_dangling n then Some (UACPI_STATUS_INTERNAL_ERROR, s)
          else if child n \<noteq> None then Some (UACPI_STATUS_DENIED, s)
          else do {
            s \<leftarrow> namespace_node_detach_object k a s;
            let m = nodes s;
            prev \<leftarrow> (case parent n of None \<Rightarrow> Some None | Some p \<Rightarrow> map_option child (m p));
            m' \<leftarrow> (if prev = Some a
                   then (case parent n of None \<Rightarrow> None
                         | Some p \<Rightarrow> Some (Some (node_upd p (\<lambda>q. q\<lparr>child := next_peer n\<rparr>) m)))
                   else do {
                     prev \<leftarrow> peer_before m a prev;
                     Some (case prev of None \<Rightarrow> None
                           | Some b \<Rightarrow> Some (node_upd b (\<lambda>q. q\<lparr>next_peer := next_peer n\<rparr>) m)) });
            (case m' of
               None \<Rightarrow> Some (UACPI_STATUS_INTERNAL_ERROR, s)
             | Some m \<Rightarrow> do {
                 m \<leftarrow> uacpi_namespace_node_unref a
                        (node_upd a (\<lambda>n. n\<lparr>flags := flags n OR UACPI_NAMESPACE_NODE_FLAG_DANGLING\<rparr>) m);
                 Some (UACPI_STATUS_OK, s\<lparr>nodes := m\<rparr>) }) } }"

section \<open>Looking names up\<close>

partial_function (option) find_peer :: "nodes \<Rightarrow> string \<Rightarrow> ptr \<Rightarrow> ptr option" where
  "find_peer m nm p =
     (case p of None \<Rightarrow> Some None
      | Some a \<Rightarrow> do { n \<leftarrow> m a; if node_name n = nm then Some (Some a) else find_peer m nm (next_peer n) })"

definition uacpi_namespace_node_find_sub_node :: "nodes \<Rightarrow> ptr \<Rightarrow> string \<Rightarrow> ptr option" where
  "uacpi_namespace_node_find_sub_node m par nm =
     do { n \<leftarrow> m (case par of None \<Rightarrow> uacpi_namespace_root | Some p \<Rightarrow> p); find_peer m nm (child n) }"

text \<open>A path is its characters before the terminating null; the cursor is what is left of it.\<close>

fun segment_chars :: "nat \<Rightarrow> string \<Rightarrow> string \<times> string" where
  "segment_chars 0 cs = ([], cs)"
| "segment_chars (Suc k) [] = (case segment_chars k [] of (nm, cs) \<Rightarrow> (CHR ''_'' # nm, cs))"
| "segment_chars (Suc k) (c # cs) =
     (if c = CHR ''.'' then (case segment_chars k (c # cs) of (nm, cs) \<Rightarrow> (CHR ''_'' # nm, cs))
      else (case segment_chars k cs of (nm, cs) \<Rightarrow> (c # nm, cs)))"

definition segment_to_name :: "string \<Rightarrow> string \<times> string" where
  "segment_to_name cs = segment_chars 4 cs"

text \<open>The prefix of a path: the node it leads to, whether a single name may still follow, whether
  the path ends there, and the rest of the path.\<close>

fun resolve_prefix :: "nodes \<Rightarrow> ptr \<Rightarrow> bool \<Rightarrow> bool \<Rightarrow> string \<Rightarrow> (uacpi_status \<times> ptr \<times> bool \<times> bool \<times> string) option" where
  "resolve_prefix m cur single carets [] = Some (UACPI_STATUS_OK, cur, single, True, [])"
| "resolve_prefix m cur single carets (c # cs) =
     (if c = CHR 0x5C then
        (if carets then Some (UACPI_STATUS_INVALID_ARGUMENT, cur, False, True, c # cs)
         else Some (UACPI_STATUS_OK, Some uacpi_namespace_root, False, False, cs))
      else if c = CHR ''^'' then
        (if cur = Some uacpi_namespace_root then Some (UACPI_STATUS_INVALID_ARGUMENT, cur, False, True, c # cs)
         else do { n \<leftarrow> deref m cur; resolve_prefix m (parent n) False True cs })
      else Some (UACPI_STATUS_OK, cur, single, False, c # cs))"

partial_function (option) search_above :: "nodes \<Rightarrow> string \<Rightarrow> ptr \<Rightarrow> ptr option" where
  "search_above m nm par =
     (case par of None \<Rightarrow> Some None
      | Some p \<Rightarrow> do { found \<leftarrow> uacpi_namespace_node_find_sub_node m (Some p) nm;
                     if found \<noteq> None then Some found
                     else do { n \<leftarrow> m p; search_above m nm (parent n) } })"

lemma segment_chars_shorter: "length (snd (segment_chars k cs)) \<le> length cs"
  by (induction k cs rule: segment_chars.induct) (auto split: prod.splits)

definition skip_dot :: "string \<Rightarrow> string" where
  "skip_dot cs = (case cs of [] \<Rightarrow> [] | c # rest \<Rightarrow> if c = CHR ''.'' then rest else cs)"

lemma segment_progress: "cs \<noteq> [] \<Longrightarrow> length (snd (segment_to_name (skip_dot cs))) < length cs"
proof (cases cs)
  case (Cons c rest)
  show ?thesis
  proof (cases "c = CHR ''.''")
    case True
    then show ?thesis using segment_chars_shorter [of 4 rest] Cons
      by (simp add: segment_to_name_def skip_dot_def le_imp_less_Suc)
  next
    case False
    have "length (snd (segment_chars 3 rest)) \<le> length rest" by (rule segment_chars_shorter)
    with False Cons show ?thesis
      by (auto simp: segment_to_name_def skip_dot_def numeral_eq_Suc split: prod.splits)
  qed
qed simp

function resolve_names :: "nodes \<Rightarrow> bool \<Rightarrow> ptr \<Rightarrow> bool \<Rightarrow> ptr \<Rightarrow> string \<Rightarrow> ptr option" where
  "resolve_names m search from single cur cs =
     (if cs = [] then Some cur
      else let seg = segment_to_name (skip_dot cs); single = (single \<and> snd seg = []) in
        do { found \<leftarrow> uacpi_namespace_node_find_sub_node m cur (fst seg);
             (if found \<noteq> None then resolve_names m search from single found (snd seg)
              else if \<not> search \<or> \<not> single then Some None
              else do { n \<leftarrow> deref m from; search_above m (fst seg) (parent n) }) })"
  by pat_completeness auto

termination
  by (relation "measure (\<lambda>(_, _, _, _, _, cs). length cs)") (auto simp: segment_progress)

declare resolve_names.simps [simp del]

definition uacpi_namespace_node_resolve ::
  "('h, 'x) ns_host_scheme \<Rightarrow> ptr \<Rightarrow> string \<Rightarrow> bool \<Rightarrow> bool \<Rightarrow> bool \<Rightarrow> 'h namespace \<Rightarrow> ((uacpi_status \<times> ptr) \<times> 'h namespace) option" where
  "uacpi_namespace_node_resolve k par path should_lock may_search_above permanent_only s =
     (let (ret, h) = (if should_lock then read_lock k (host s) else (UACPI_STATUS_OK, host s));
          unlock = (\<lambda>s. if should_lock then s\<lparr>host := snd (read_unlock k (host s))\<rparr> else s);
          s = s\<lparr>host := h\<rparr>; m = nodes s
      in if ret \<noteq> UACPI_STATUS_OK then Some ((ret, None), s)
      else do {
        (ret, cur, single, ended, rest) \<leftarrow>
          resolve_prefix m (if par = None then Some uacpi_namespace_root else par) True False path;
        if ret = UACPI_STATUS_INVALID_ARGUMENT then Some ((ret, None), unlock s)
        else do {
          cur \<leftarrow> (if ended then Some cur else resolve_names m may_search_above par single cur rest);
          (case cur of
             None \<Rightarrow> Some ((UACPI_STATUS_NOT_FOUND, None), unlock s)
           | Some a \<Rightarrow> do {
               n \<leftarrow> m a;
               if uacpi_namespace_node_is_temporary n \<and> permanent_only
               then Some ((UACPI_STATUS_DENIED, None), unlock s)
               else Some ((UACPI_STATUS_OK, Some a), unlock s) }) } })"

definition uacpi_namespace_node_find ::
  "('h, 'x) ns_host_scheme \<Rightarrow> ptr \<Rightarrow> string \<Rightarrow> 'h namespace \<Rightarrow> ((uacpi_status \<times> ptr) \<times> 'h namespace) option" where
  "uacpi_namespace_node_find k par path s = uacpi_namespace_node_resolve k par path True False True s"

definition uacpi_namespace_node_resolve_from_aml_namepath ::
  "('h, 'x) ns_host_scheme \<Rightarrow> ptr \<Rightarrow> string \<Rightarrow> 'h namespace \<Rightarrow> ((uacpi_status \<times> ptr) \<times> 'h namespace) option" where
  "uacpi_namespace_node_resolve_from_aml_namepath k scope path s =
     uacpi_namespace_node_resolve k scope path True True True s"

section \<open>Paths of nodes\<close>

partial_function (option) uacpi_namespace_node_depth :: "nodes \<Rightarrow> nat \<Rightarrow> nat option" where
  "uacpi_namespace_node_depth m a =
     do { n \<leftarrow> m a;
          case parent n of None \<Rightarrow> Some 0
          | Some p \<Rightarrow> do { d \<leftarrow> uacpi_namespace_node_depth m p; Some (Suc d) } }"

text \<open>A write of characters to a buffer; outside of it there is no result.\<close>

definition put_chars :: "nat \<Rightarrow> string \<Rightarrow> string \<Rightarrow> string option" where
  "put_chars off cs buf =
     (if off + length cs \<le> length buf then Some (take off buf @ cs @ drop (off + length cs) buf) else None)"

partial_function (option) fill_path :: "nodes \<Rightarrow> nat \<Rightarrow> nat \<Rightarrow> string \<Rightarrow> string option" where
  "fill_path m a off path =
     (if a = uacpi_namespace_root then Some path
      else do {
        n \<leftarrow> m a;
        if off < 4 then None
        else do {
          path \<leftarrow> put_chars (off - 4) (node_name n) path;
          up \<leftarrow> parent n;
          if up \<noteq> uacpi_namespace_root
          then (if off < 5 then None
                else do { path \<leftarrow> put_chars (off - 5) ''.'' path; fill_path m up (off - 5) path })
          else fill_path m up (off - 4) path } })"

text \<open>The inner \<open>None\<close> is the null pointer returned where there is no memory.\<close>

definition uacpi_namespace_node_generate_absolute_path ::
  "('h, 'x) ns_host_scheme \<Rightarrow> 'h namespace \<Rightarrow> nat \<Rightarrow> string option option" where
  "uacpi_namespace_node_generate_absolute_path k s a =
     do { d \<leftarrow> uacpi_namespace_node_depth (nodes s) a;
          let depth = d + 1;
          let bytes_needed = 1 + (depth - 1) * 4 + (if 2 < depth then depth - 2 else 0) + 1;
          if \<not> room_for_path k bytes_needed (host s) then Some None
          else do {
            path \<leftarrow> put_chars 0 [CHR 0x5C] (replicate bytes_needed (CHR 0x00));
            path \<leftarrow> put_chars (bytes_needed - 1) [CHR 0x00] path;
            path \<leftarrow> fill_path (nodes s) a (bytes_needed - 1) path;
            Some (Some path) } }"


section \<open>The tree\<close>

text \<open>What the nodes are meant to be: a tree of addresses.  The peers from \<open>p\<close> on, with what is
  below them, are the trees \<open>ts\<close>.\<close>

datatype ntree = NT nat "ntree list"

fun chain :: "nodes \<Rightarrow> ptr \<Rightarrow> ptr \<Rightarrow> ntree list \<Rightarrow> bool" where
  "chain m par p [] \<longleftrightarrow> p = None"
| "chain m par p (NT a ts # us) \<longleftrightarrow>
     p = Some a \<and> (\<exists>n. m a = Some n \<and> parent n = par \<and> chain m (Some a) (child n) ts \<and> chain m par (next_peer n) us)"

fun ptrs_of :: "ntree list \<Rightarrow> nat list" where
  "ptrs_of [] = []"
| "ptrs_of (NT a ts # us) = a # ptrs_of ts @ ptrs_of us"

definition represents :: "nodes \<Rightarrow> ntree list \<Rightarrow> bool" where
  "represents m ts \<longleftrightarrow>
     chain m None (Some uacpi_namespace_root) [NT uacpi_namespace_root ts]
     \<and> distinct (ptrs_of [NT uacpi_namespace_root ts])"

definition name_of :: "nodes \<Rightarrow> nat \<Rightarrow> string" where
  "name_of m a = node_name (the (m a))"

fun names_of :: "nodes \<Rightarrow> ntree list \<Rightarrow> string list" where
  "names_of m [] = []"
| "names_of m (NT a ts # us) = name_of m a # names_of m us"

fun unique_names :: "nodes \<Rightarrow> ntree list \<Rightarrow> bool" where
  "unique_names m [] \<longleftrightarrow> True"
| "unique_names m (NT a ts # us) \<longleftrightarrow> name_of m a \<notin> set (names_of m us) \<and> unique_names m ts \<and> unique_names m us"

text \<open>The nodes with the names that lead to them.\<close>

fun paths :: "nodes \<Rightarrow> ntree list \<Rightarrow> (nat \<times> string list) list" where
  "paths m [] = []"
| "paths m (NT a ts # us) =
     (a, [name_of m a]) # map (\<lambda>(b, ns). (b, name_of m a # ns)) (paths m ts) @ paths m us"

fun kids_of :: "nat \<Rightarrow> ntree list \<Rightarrow> ntree list option" where
  "kids_of a [] = None"
| "kids_of a (NT b ts # us) =
     (if a = b then Some ts else case kids_of a ts of Some ks \<Rightarrow> Some ks | None \<Rightarrow> kids_of a us)"

lemma chain_cong: "(\<And>a. a \<in> set (ptrs_of ts) \<Longrightarrow> m' a = m a) \<Longrightarrow> chain m' par p ts = chain m par p ts"
  by (induction m par p ts rule: chain.induct) simp_all

lemma chain_nodes: "chain m par p ts \<Longrightarrow> a \<in> set (ptrs_of ts) \<Longrightarrow> m a \<noteq> None"
  by (induction m par p ts rule: chain.induct) auto

lemma paths_ptrs: "map fst (paths m ts) = ptrs_of ts"
  by (induction m ts rule: paths.induct) (simp_all add: comp_def split_beta)

lemma paths_in: "(a, ns) \<in> set (paths m ts) \<Longrightarrow> a \<in> set (ptrs_of ts)"
  by (force simp: paths_ptrs [of m, symmetric])

lemma paths_nonempty: "(a, ns) \<in> set (paths m ts) \<Longrightarrow> ns \<noteq> []"
  by (induction m ts arbitrary: ns rule: paths.induct) auto


section \<open>Paths\<close>

lemma find_peer_chain:
  "chain m par p ts \<Longrightarrow> find_peer m nm p =
     Some (case List.find (\<lambda>t. case t of NT a _ \<Rightarrow> name_of m a = nm) ts of None \<Rightarrow> None | Some (NT a _) \<Rightarrow> Some a)"
proof (induction m par p ts rule: chain.induct)
  case (1 m par p)
  then show ?case by (subst find_peer.simps) simp
next
  case (2 m par p a ts us)
  then show ?case by (subst find_peer.simps) (auto simp: name_of_def)
qed

fun dotted :: "string list \<Rightarrow> string" where
  "dotted [] = []"
| "dotted (nm # ns) = CHR ''.'' # nm @ dotted ns"

definition name_segment :: "string \<Rightarrow> bool" where
  "name_segment nm \<longleftrightarrow> length nm = 4 \<and> CHR ''.'' \<notin> set nm \<and> CHR 0x00 \<notin> set nm"

lemma segment_to_name_segment:
  assumes "name_segment nm"
  shows "segment_to_name (nm @ dotted ns) = (nm, dotted ns)"
proof -
  obtain a b c d where "nm = [a, b, c, d]"
    using assms by (auto simp: name_segment_def numeral_eq_Suc length_Suc_conv)
  with assms show ?thesis by (auto simp: segment_to_name_def name_segment_def numeral_eq_Suc)
qed

lemma skip_dot_segment: "name_segment nm \<Longrightarrow> skip_dot (nm @ cs) = nm @ cs"
  by (cases nm) (auto simp: name_segment_def skip_dot_def)

lemma names_in: "NT b us \<in> set ts \<Longrightarrow> name_of m b \<in> set (names_of m ts)"
  by (induction m ts rule: names_of.induct) auto

lemma first_in_paths:
  "(a, nm # ns) \<in> set (paths m ts) \<Longrightarrow> unique_names m ts \<Longrightarrow>
     \<exists>b us. List.find (\<lambda>t. case t of NT a _ \<Rightarrow> name_of m a = nm) ts = Some (NT b us) \<and> NT b us \<in> set ts
       \<and> name_of m b = nm \<and> (if ns = [] then a = b else (a, ns) \<in> set (paths m us))"
proof (induction m ts arbitrary: a nm ns rule: paths.induct)
  case (2 m b ts us)
  show ?case
  proof (cases "name_of m b = nm")
    case True
    have "(a, nm # ns) \<notin> set (paths m us)"
    proof
      assume "(a, nm # ns) \<in> set (paths m us)"
      with 2 obtain c vs where "NT c vs \<in> set us" "name_of m c = nm" by fastforce
      with names_in [of c vs us m] 2(4) True show False by simp
    qed
    moreover have "ns \<noteq> []" if "(a, ns) \<in> set (paths m ts)" using that by (rule paths_nonempty)
    ultimately show ?thesis using 2(3) True by auto
  next
    case False
    with 2 show ?thesis by fastforce
  qed
qed simp

lemma chain_member:
  "chain m par p ts \<Longrightarrow> NT b us \<in> set ts \<Longrightarrow> \<exists>n. m b = Some n \<and> parent n = par \<and> chain m (Some b) (child n) us"
proof (induction m par p ts rule: chain.induct)
  case (2 m par p a ts vs)
  then show ?case by (cases "NT b us = NT a ts") auto
qed simp

lemma member_parts:
  "NT b us \<in> set ts \<Longrightarrow> b \<in> set (ptrs_of ts) \<and> set (ptrs_of us) \<subseteq> set (ptrs_of ts) \<and> (unique_names m ts \<longrightarrow> unique_names m us)"
proof (induction ts rule: ptrs_of.induct)
  case (2 a ts vs)
  then show ?case by (cases "NT b us = NT a ts") auto
qed simp

lemma resolve_names_dotted:
  assumes "chain m (Some q) (child n) ts" "m q = Some n" "unique_names m ts" "(a, ns) \<in> set (paths m ts)"
    and "\<forall>b\<in>set (ptrs_of ts). name_segment (name_of m b)" and "cs = dotted ns \<or> cs = tl (dotted ns)"
  shows "resolve_names m search from False (Some q) cs = Some (Some a)"
  using assms
proof (induction ns arbitrary: q n ts cs)
  case Nil
  then show ?case using paths_nonempty by blast
next
  case (Cons nm ns)
  from first_in_paths [OF Cons.prems(4,3)] obtain b us where
    b: "List.find (\<lambda>t. case t of NT a _ \<Rightarrow> name_of m a = nm) ts = Some (NT b us)" "NT b us \<in> set ts"
      "name_of m b = nm" "if ns = [] then a = b else (a, ns) \<in> set (paths m us)" by blast
  from chain_member [OF Cons.prems(1) b(2)] member_parts [OF b(2), of m] Cons.prems(3)
  obtain n' where n': "m b = Some n'" "chain m (Some b) (child n') us" "unique_names m us"
      "b \<in> set (ptrs_of ts)" "set (ptrs_of us) \<subseteq> set (ptrs_of ts)" by blast
  have seg: "name_segment nm" using Cons.prems(5) n'(4) b(3) by auto
  have sub: "uacpi_namespace_node_find_sub_node m (Some q) nm = Some (Some b)"
    using find_peer_chain [OF Cons.prems(1)] Cons.prems(2) b(1)
    by (simp add: uacpi_namespace_node_find_sub_node_def)
  have cs: "skip_dot cs = nm @ dotted ns" "cs \<noteq> []"
    using Cons.prems(6) skip_dot_segment [OF seg] seg by (auto simp: skip_dot_def name_segment_def)
  have "resolve_names m search from False (Some b) (dotted ns) = Some (Some a)"
  proof (cases "ns = []")
    case True
    with b(4) show ?thesis by (simp add: resolve_names.simps)
  next
    case False
    with b(4) n' Cons.prems(5) Cons.IH [of b n' us "dotted ns"] show ?thesis by auto
  qed
  then show ?case
    using cs sub by (subst resolve_names.simps) (simp add: segment_to_name_segment [OF seg] Let_def)
qed


lemma paths_member:
  "(a, nm # ns) \<in> set (paths m ts) \<Longrightarrow>
     \<exists>b us. NT b us \<in> set ts \<and> name_of m b = nm \<and> (ns = [] \<and> a = b \<or> (a, ns) \<in> set (paths m us))"
proof (induction m ts arbitrary: nm ns rule: paths.induct)
  case (2 m b ts us)
  consider "ns = []" "a = b" "nm = name_of m b" | "nm = name_of m b" "(a, ns) \<in> set (paths m ts)"
    | "(a, nm # ns) \<in> set (paths m us)" using 2(3) by auto
  then show ?case
  proof cases
    case 3
    from 2(2) [OF 3] obtain c vs where
      c: "NT c vs \<in> set us" "name_of m c = nm" "ns = [] \<and> a = c \<or> (a, ns) \<in> set (paths m vs)" by blast
    from c(1) have "NT c vs \<in> set (NT b ts # us)" by simp
    with c(2,3) show ?thesis by blast
  qed auto
qed simp

lemma paths_names: "(a, ns) \<in> set (paths m ts) \<Longrightarrow> set ns \<subseteq> name_of m ` set (ptrs_of ts)"
proof (induction m ts arbitrary: ns rule: paths.induct)
  case (2 m b ts us)
  consider "ns = [name_of m b]" | ms where "ns = name_of m b # ms" "(a, ms) \<in> set (paths m ts)"
    | "(a, ns) \<in> set (paths m us)" using 2(3) by auto
  then show ?case
  proof cases
    case (2 ms)
    with \<open>\<And>ns. (a, ns) \<in> set (paths m ts) \<Longrightarrow> _ ns\<close> show ?thesis by fastforce
  next
    case 3
    with \<open>\<And>ns. (a, ns) \<in> set (paths m us) \<Longrightarrow> _ ns\<close> show ?thesis by fastforce
  qed auto
qed simp

lemma depth_paths:
  "chain m (Some q) p ts \<Longrightarrow> (a, ns) \<in> set (paths m ts) \<Longrightarrow> uacpi_namespace_node_depth m q = Some d
    \<Longrightarrow> uacpi_namespace_node_depth m a = Some (d + length ns)"
proof (induction ns arbitrary: q p ts d)
  case Nil
  then show ?case using paths_nonempty by blast
next
  case (Cons nm ns)
  from paths_member [OF Cons.prems(2)] obtain b us where
    b: "NT b us \<in> set ts" "ns = [] \<and> a = b \<or> (a, ns) \<in> set (paths m us)" by blast
  from chain_member [OF Cons.prems(1) b(1)] obtain n where
    n: "m b = Some n" "parent n = Some q" "chain m (Some b) (child n) us" by blast
  have "uacpi_namespace_node_depth m b = Some (Suc d)"
    using n Cons.prems(3) by (subst uacpi_namespace_node_depth.simps) simp
  with b(2) Cons.IH [OF n(3)] show ?case by auto
qed

definition overwrite :: "nat \<Rightarrow> string \<Rightarrow> string \<Rightarrow> string" where
  "overwrite off cs buf = take off buf @ cs @ drop (off + length cs) buf"

lemma put_chars_fits: "off + length cs \<le> length buf \<Longrightarrow> put_chars off cs buf = Some (overwrite off cs buf)"
  by (simp add: put_chars_def overwrite_def)

lemma length_overwrite: "off + length cs \<le> length buf \<Longrightarrow> length (overwrite off cs buf) = length buf"
  by (simp add: overwrite_def)

lemma overwrite_join:
  "off + length as + length bs \<le> length buf \<Longrightarrow>
     overwrite off as (overwrite (off + length as) bs buf) = overwrite off (as @ bs) buf"
  by (simp add: overwrite_def add.assoc)

lemma length_dotted: "\<forall>nm\<in>set ns. length nm = 4 \<Longrightarrow> length (dotted ns) = 5 * length ns"
  by (induction ns) auto

lemma fill_path_step:
  assumes "m b = Some n" "parent n = Some q" "b \<noteq> uacpi_namespace_root" "q \<noteq> uacpi_namespace_root"
    and "length (node_name n) = 4" "off + 5 \<le> length buf"
  shows "fill_path m b (off + 5) buf = fill_path m q off (overwrite off (CHR ''.'' # node_name n) buf)"
proof -
  have "overwrite off ''.'' (overwrite (Suc off) (node_name n) buf) = overwrite off (CHR ''.'' # node_name n) buf"
    using overwrite_join [of off "''.''" "node_name n" buf] assms by simp
  with assms show ?thesis
    by (subst fill_path.simps) (simp add: put_chars_fits length_overwrite)
qed

lemma fill_path_last:
  assumes "m b = Some n" "parent n = Some uacpi_namespace_root" "b \<noteq> uacpi_namespace_root"
    and "length (node_name n) = 4" "off + 4 \<le> length buf"
  shows "fill_path m b (off + 4) buf = Some (overwrite off (node_name n) buf)"
  using assms by (subst fill_path.simps) (simp add: put_chars_fits fill_path.simps)

lemma fill_path_dotted:
  assumes "chain m (Some q) p ts" "(a, ns) \<in> set (paths m ts)" "q \<noteq> uacpi_namespace_root"
    and "uacpi_namespace_root \<notin> set (ptrs_of ts)" "\<forall>b\<in>set (ptrs_of ts). length (name_of m b) = 4"
    and "off + 5 * length ns \<le> length buf"
  shows "fill_path m a (off + 5 * length ns) buf = fill_path m q off (overwrite off (dotted ns) buf)"
  using assms
proof (induction ns arbitrary: q p ts off buf)
  case Nil
  then show ?case using paths_nonempty by blast
next
  case (Cons nm ns)
  from paths_member [OF Cons.prems(2)] obtain b us where
    b: "NT b us \<in> set ts" "name_of m b = nm" "ns = [] \<and> a = b \<or> (a, ns) \<in> set (paths m us)" by blast
  from chain_member [OF Cons.prems(1) b(1)] obtain n where
    n: "m b = Some n" "parent n = Some q" "chain m (Some b) (child n) us" by blast
  have sub: "b \<in> set (ptrs_of ts)" "set (ptrs_of us) \<subseteq> set (ptrs_of ts)" using member_parts [OF b(1)] by auto
  have nm: "node_name n = nm" "length nm = 4" using b(2) n(1) sub Cons.prems(5) by (auto simp: name_of_def)
  have b0: "b \<noteq> uacpi_namespace_root" using sub Cons.prems(4) by blast
  note step = fill_path_step [of m b n q, OF n(1,2) b0 Cons.prems(3), unfolded nm]
  show ?case
  proof (cases "ns = []")
    case True
    then have "a = b" using b(3) paths_nonempty by blast
    with True step [of off buf] nm Cons.prems(6) show ?thesis by simp
  next
    case False
    with b(3) have a: "(a, ns) \<in> set (paths m us)" by simp
    have len: "\<forall>x\<in>set (ptrs_of us). length (name_of m x) = 4" using sub Cons.prems(5) by blast
    have ns: "\<forall>x\<in>set ns. length x = 4"
      using paths_names [OF a] len by auto
    have "fill_path m a (off + 5 + 5 * length ns) buf = fill_path m b (off + 5) (overwrite (off + 5) (dotted ns) buf)"
      using Cons.IH [OF n(3) a b0 _ len, of "off + 5" buf] sub Cons.prems(4,6) by auto
    also have "\<dots> = fill_path m q off (overwrite off (CHR ''.'' # nm) (overwrite (off + 5) (dotted ns) buf))"
      using step Cons.prems(6) nm ns by (simp add: length_overwrite length_dotted)
    also have "overwrite off (CHR ''.'' # nm) (overwrite (off + 5) (dotted ns) buf) = overwrite off (dotted (nm # ns)) buf"
      using overwrite_join [of off "CHR ''.'' # nm" "dotted ns" buf] Cons.prems(6) nm ns by (simp add: length_dotted)
    finally show ?thesis by (simp add: algebra_simps)
  qed
qed

lemma fill_path_from_root:
  assumes "chain m (Some uacpi_namespace_root) p ts" "(a, ns) \<in> set (paths m ts)"
    and "uacpi_namespace_root \<notin> set (ptrs_of ts)" "\<forall>b\<in>set (ptrs_of ts). length (name_of m b) = 4"
    and "off + 5 * length ns \<le> Suc (length buf)"
  shows "fill_path m a (off + 5 * length ns - 1) buf = Some (overwrite off (tl (dotted ns)) buf)"
proof (cases ns)
  case Nil
  then show ?thesis using assms paths_nonempty by blast
next
  case (Cons nm ns')
  from paths_member [OF assms(2) [unfolded Cons]] obtain b us where
    b: "NT b us \<in> set ts" "name_of m b = nm" "ns' = [] \<and> a = b \<or> (a, ns') \<in> set (paths m us)" by blast
  from chain_member [OF assms(1) b(1)] obtain n where
    n: "m b = Some n" "parent n = Some uacpi_namespace_root" "chain m (Some b) (child n) us" by blast
  have sub: "b \<in> set (ptrs_of ts)" "set (ptrs_of us) \<subseteq> set (ptrs_of ts)" using member_parts [OF b(1)] by auto
  have nm: "node_name n = nm" "length nm = 4" using b(2) n(1) sub assms(4) by (auto simp: name_of_def)
  have b0: "b \<noteq> uacpi_namespace_root" using sub assms(3) by blast
  note last = fill_path_last [of m b n, OF n(1,2) b0, unfolded nm]
  show ?thesis
  proof (cases "ns' = []")
    case True
    then have "a = b" using b(3) paths_nonempty by blast
    with True last [of off buf] nm assms(5) Cons show ?thesis by (simp add: add.commute)
  next
    case False
    with b(3) have a: "(a, ns') \<in> set (paths m us)" by simp
    have len: "\<forall>x\<in>set (ptrs_of us). length (name_of m x) = 4" using sub assms(4) by blast
    have ns: "\<forall>x\<in>set ns'. length x = 4"
      using paths_names [OF a] len by auto
    have fit: "off + 4 + 5 * length ns' \<le> length buf" using assms(5) Cons by simp
    have "fill_path m a (off + 4 + 5 * length ns') buf = fill_path m b (off + 4) (overwrite (off + 4) (dotted ns') buf)"
      using fill_path_dotted [OF n(3) a b0 _ len fit] sub assms(3) by auto
    also have "\<dots> = Some (overwrite off nm (overwrite (off + 4) (dotted ns') buf))"
      using last fit nm ns by (simp add: length_overwrite length_dotted)
    also have "overwrite off nm (overwrite (off + 4) (dotted ns') buf) = overwrite off (nm @ dotted ns') buf"
      using overwrite_join [of off nm "dotted ns'" buf] fit nm ns by (simp add: length_dotted)
    finally show ?thesis using Cons by (simp add: algebra_simps)
  qed
qed


lemma empty_path_buffer:
  assumes "0 < l"
  shows "overwrite l [z] (overwrite 0 [c] (replicate (Suc l) z)) = c # replicate l z"
proof (cases l)
  case (Suc k)
  then show ?thesis by (simp add: overwrite_def min_def replicate_append_same flip: replicate_Suc)
qed (use assms in simp)

section \<open>Installing and removing on the tree\<close>

fun add_child :: "nat \<Rightarrow> nat \<Rightarrow> ntree list \<Rightarrow> ntree list" where
  "add_child q a [] = []"
| "add_child q a (NT b ts # us) =
     (if b = q then NT b (ts @ [NT a []]) # us else NT b (add_child q a ts) # add_child q a us)"

fun remove_node :: "nat \<Rightarrow> ntree list \<Rightarrow> ntree list" where
  "remove_node a [] = []"
| "remove_node a (NT b ts # us) = (if b = a then us else NT b (remove_node a ts) # remove_node a us)"

lemma add_child_other: "q \<notin> set (ptrs_of ts) \<Longrightarrow> add_child q a ts = ts"
  by (induction q a ts rule: add_child.induct) auto

lemma remove_node_other: "a \<notin> set (ptrs_of ts) \<Longrightarrow> remove_node a ts = ts"
  by (induction a ts rule: remove_node.induct) auto

lemma ptrs_of_append: "ptrs_of (ts @ us) = ptrs_of ts @ ptrs_of us"
  by (induction ts rule: ptrs_of.induct) simp_all

lemma add_child_ptrs:
  "q \<in> set (ptrs_of ts) \<Longrightarrow> a \<notin> set (ptrs_of ts) \<Longrightarrow> distinct (ptrs_of ts) \<Longrightarrow>
     set (ptrs_of (add_child q a ts)) = insert a (set (ptrs_of ts)) \<and> distinct (ptrs_of (add_child q a ts))"
proof (induction q a ts rule: add_child.induct)
  case (2 q a b ts us)
  show ?case
  proof (cases "b = q")
    case True
    with 2 show ?thesis by (auto simp: ptrs_of_append)
  next
    case False
    show ?thesis
    proof (cases "q \<in> set (ptrs_of ts)")
      case True
      then have "q \<notin> set (ptrs_of us)" using 2(5) by auto
      with 2 True False show ?thesis by (auto simp: add_child_other)
    next
      case q: False
      then have "q \<in> set (ptrs_of us)" using 2(3) False by simp
      with 2 q False show ?thesis by (auto simp: add_child_other)
    qed
  qed
qed simp

text \<open>The last peer of a chain is the root of its last tree.\<close>

fun last_root :: "ntree list \<Rightarrow> nat" where
  "last_root [] = 0"
| "last_root [NT a ts] = a"
| "last_root (_ # t # us) = last_root (t # us)"

lemma last_peer_chain: "chain m par (Some p) ts \<Longrightarrow> last_peer m p = Some (last_root ts)"
proof (induction ts arbitrary: p rule: last_root.induct)
  case (2 a ts)
  then show ?case by (subst last_peer.simps) auto
next
  case (3 t u us)
  obtain a ts where t: "t = NT a ts" by (cases t)
  obtain b vs where u: "u = NT b vs" by (cases u)
  from 3 t u show ?case by (subst last_peer.simps) auto
qed simp

lemma last_root_in: "ts \<noteq> [] \<Longrightarrow> last_root ts \<in> set (ptrs_of ts)"
proof (induction ts rule: last_root.induct)
  case (3 t u us)
  then show ?case by (cases t) auto
qed auto

text \<open>A chain is extended where the last of the peers gets a next one.\<close>

lemma chain_extended:
  assumes "chain m par p ts" "ts \<noteq> []" "distinct (ptrs_of ts)" "a \<notin> set (ptrs_of ts)"
    and "m' a = Some na" "parent na = par" "child na = None" "next_peer na = None"
    and "\<And>b. b \<in> set (ptrs_of ts) \<Longrightarrow> m' b = (if b = last_root ts then map_option (\<lambda>n. n\<lparr>next_peer := Some a\<rparr>) (m b) else m b)"
  shows "chain m' par p (ts @ [NT a []])"
  using assms
proof (induction ts arbitrary: p rule: last_root.induct)
  case (2 b ts)
  then obtain n where n: "p = Some b" "m b = Some n" "parent n = par" "chain m (Some b) (child n) ts" "next_peer n = None"
    by auto
  have "chain m' (Some b) (child n) ts = chain m (Some b) (child n) ts"
    by (rule chain_cong) (use 2 in auto)
  with n 2 show ?case by auto
next
  case (3 t u us)
  obtain b ts where t: "t = NT b ts" by (cases t)
  from 3(2) t obtain n where n: "p = Some b" "m b = Some n" "parent n = par" "chain m (Some b) (child n) ts"
      "chain m par (next_peer n) (u # us)" by auto
  have l: "last_root (u # us) \<in> set (ptrs_of (u # us))" by (rule last_root_in) simp
  have "b \<noteq> last_root (u # us)" "last_root (u # us) \<notin> set (ptrs_of ts)" using l 3(4) t by auto
  then have m': "m' b = m b" "chain m' (Some b) (child n) ts = chain m (Some b) (child n) ts"
    using 3(10) t by (simp, intro chain_cong) auto
  have "chain m' par (next_peer n) ((u # us) @ [NT a []])"
    using 3(1) [OF n(5)] 3(4-) t by auto
  with m' n t show ?case by auto
qed simp

lemma kids_in: "kids_of q ts = Some ks \<Longrightarrow> q \<in> set (ptrs_of ts) \<and> set (ptrs_of ks) \<subseteq> set (ptrs_of ts)"
  by (induction q ts rule: kids_of.induct) (auto split: if_splits option.splits)

lemma kids_apart: "kids_of q ts = Some ks \<Longrightarrow> distinct (ptrs_of ts) \<Longrightarrow> q \<notin> set (ptrs_of ks)"
  by (induction q ts rule: kids_of.induct) (auto split: if_splits option.splits)

lemma kids_None: "kids_of q ts = None \<longleftrightarrow> q \<notin> set (ptrs_of ts)"
  by (induction q ts rule: kids_of.induct) (auto split: option.splits)

lemma chain_kids:
  "chain m par p ts \<Longrightarrow> kids_of q ts = Some ks \<Longrightarrow> \<exists>n. m q = Some n \<and> chain m (Some q) (child n) ks"
  by (induction m par p ts rule: chain.induct) (auto split: if_splits option.splits)

lemma chain_add_child:
  assumes "chain m par p ts" "distinct (ptrs_of ts)" "kids_of q ts = Some ks" "a \<notin> set (ptrs_of ts)"
    and "m' a = Some na" "parent na = Some q" "child na = None" "next_peer na = None"
    and "\<And>b. b \<in> set (ptrs_of ts) \<Longrightarrow> m' b =
           (if ks = [] \<and> b = q then map_option (\<lambda>n. n\<lparr>child := Some a\<rparr>) (m b)
            else if ks \<noteq> [] \<and> b = last_root ks then map_option (\<lambda>n. n\<lparr>next_peer := Some a\<rparr>) (m b) else m b)"
  shows "chain m' par p (add_child q a ts)"
  using assms
proof (induction m par p ts rule: chain.induct)
  case (2 m par p b ts us)
  from 2(3) obtain n where n: "p = Some b" "m b = Some n" "parent n = par" "chain m (Some b) (child n) ts"
      "chain m par (next_peer n) us" by auto
  have inks: "ks \<noteq> [] \<Longrightarrow> last_root ks \<in> set (ptrs_of ks)" by (rule last_root_in)
  show ?case
  proof (cases "b = q")
    case True
    with 2(5) have ks: "ks = ts" by simp
    have us: "chain m' par (next_peer n) us = chain m par (next_peer n) us"
      by (rule chain_cong) (use 2(4,11) ks inks True in auto)
    show ?thesis
    proof (cases "ts = []")
      case ts: True
      with n us 2(7-) True ks show ?thesis by auto
    next
      case False
      have "chain m' (Some q) (child n) (ts @ [NT a []])"
        by (rule chain_extended [of m _ _ _ _ m' na]) (use 2(4-) n(4) True ks False in auto)
      moreover have "m' b = m b" using 2(4,11) ks inks True False by auto
      ultimately show ?thesis using n us True by auto
    qed
  next
    case False
    show ?thesis
    proof (cases "kids_of q ts")
      case None
      then have q: "kids_of q us = Some ks" "q \<notin> set (ptrs_of ts)"
        using 2(5) False None by (simp_all add: kids_None [symmetric])
      have away: "x \<notin> set (ptrs_of us) \<Longrightarrow> x \<in> insert b (set (ptrs_of ts)) \<Longrightarrow> m' x = m x" for x
        using 2(11) [of x] kids_in [OF q(1)] inks by auto
      have "chain m' (Some b) (child n) ts = chain m (Some b) (child n) ts"
        by (rule chain_cong) (use 2(4) away in auto)
      moreover have "m' b = m b" using away 2(4) by auto
      moreover have "chain m' par (next_peer n) (add_child q a us)"
        by (rule 2(2)) (use 2(4-) n q in auto)
      ultimately show ?thesis using n False q by (auto simp: add_child_other)
    next
      case (Some ks')
      then have q: "kids_of q ts = Some ks" using 2(5) False by (simp split: if_splits)
      then have sub: "q \<in> set (ptrs_of ts)" "set (ptrs_of ks) \<subseteq> set (ptrs_of ts)" using kids_in by auto
      then have qu: "q \<notin> set (ptrs_of us)" using 2(4) by auto
      have away: "x \<notin> set (ptrs_of ts) \<Longrightarrow> x \<in> insert b (set (ptrs_of us)) \<Longrightarrow> m' x = m x" for x
        using 2(11) [of x] sub inks by auto
      have "chain m' par (next_peer n) us = chain m par (next_peer n) us"
        by (rule chain_cong) (use 2(4) away in auto)
      moreover have "m' b = m b" using away 2(4) by auto
      moreover have "chain m' (Some b) (child n) (add_child q a ts)"
        by (rule 2(1)) (use 2(4-) n q in auto)
      ultimately show ?thesis using n False qu by (auto simp: add_child_other)
    qed
  qed
qed simp

text \<open>Every node of a chain is pointed to exactly once.\<close>

definition ptr_list :: "ptr \<Rightarrow> nat list" where
  "ptr_list p = (case p of None \<Rightarrow> [] | Some c \<Rightarrow> [c])"

lemma in_ptr_list [simp]: "a \<in> set (ptr_list p) \<longleftrightarrow> p = Some a"
  by (auto simp: ptr_list_def split: option.splits)

definition targets :: "nodes \<Rightarrow> nat \<Rightarrow> nat list" where
  "targets m b = (case m b of None \<Rightarrow> [] | Some n \<Rightarrow> ptr_list (child n) @ ptr_list (next_peer n))"

lemma chain_targets:
  "chain m par p ts \<Longrightarrow> mset (ptr_list p) + mset (concat (map (targets m) (ptrs_of ts))) = mset (ptrs_of ts)"
proof (induction m par p ts rule: chain.induct)
  case (2 m par p b ts us)
  from 2(3) obtain n where n: "p = Some b" "m b = Some n" "chain m (Some b) (child n) ts" "chain m par (next_peer n) us"
    by auto
  have "targets m b = ptr_list (child n) @ ptr_list (next_peer n)" "ptr_list p = [b]"
    using n by (simp_all add: targets_def ptr_list_def)
  then show ?case
    by (simp add: 2(1) [OF n(3), symmetric] 2(2) [OF n(4), symmetric])
qed (simp add: ptr_list_def)

lemma distinct_concat_apart:
  "distinct (concat (map f xs)) \<Longrightarrow> distinct xs \<Longrightarrow> x \<in> set xs \<Longrightarrow> y \<in> set xs \<Longrightarrow> x \<noteq> y \<Longrightarrow> z \<in> set (f x) \<Longrightarrow> z \<notin> set (f y)"
  by (induction xs) auto

lemma distinct_concat_part: "distinct (concat (map f xs)) \<Longrightarrow> x \<in> set xs \<Longrightarrow> distinct (f x)"
  by (induction xs) auto

lemma pointed_once:
  assumes "chain m par p ts" "distinct (ptrs_of ts)" "b \<in> set (ptrs_of ts)" "a \<in> set (targets m b)"
  shows "distinct (targets m b)" and "p \<noteq> Some a"
    and "\<And>c. c \<in> set (ptrs_of ts) \<Longrightarrow> c \<noteq> b \<Longrightarrow> a \<notin> set (targets m c)"
proof -
  let ?l = "ptr_list p @ concat (map (targets m) (ptrs_of ts))"
  have "mset ?l = mset (ptrs_of ts)" using chain_targets [OF assms(1)] by simp
  then have d: "distinct ?l" using assms(2) mset_eq_imp_distinct_iff by blast
  then have dc: "distinct (concat (map (targets m) (ptrs_of ts)))" by simp
  from distinct_concat_part [OF this assms(3)] show "distinct (targets m b)" .
  from d assms(3,4) show "p \<noteq> Some a" by auto
  show "a \<notin> set (targets m c)" if "c \<in> set (ptrs_of ts)" "c \<noteq> b" for c
    using distinct_concat_apart [OF dc assms(2,3) that(1) that(2) [symmetric] assms(4)] .
qed

text \<open>Taking a node out: the pointer that leads to it leads to its next peer.\<close>

definition bypass :: "nat \<Rightarrow> ptr \<Rightarrow> uacpi_namespace_node \<Rightarrow> uacpi_namespace_node" where
  "bypass a nx n = n\<lparr>child := if child n = Some a then nx else child n,
                     next_peer := if next_peer n = Some a then nx else next_peer n\<rparr>"

lemma bypass_none: "child n \<noteq> Some a \<Longrightarrow> next_peer n \<noteq> Some a \<Longrightarrow> bypass a nx n = n"
  by (simp add: bypass_def)

lemma chain_start: "chain m par p ts \<Longrightarrow> a \<notin> set (ptrs_of ts) \<Longrightarrow> p \<noteq> Some a"
  by (induction m par p ts rule: chain.induct) auto

lemma chain_remove:
  assumes "chain m par p ts" "distinct (ptrs_of ts)" "m a = Some na" "child na = None"
    and "\<And>b. b \<in> set (ptrs_of ts) \<Longrightarrow> b \<noteq> a \<Longrightarrow> m' b = map_option (bypass a (next_peer na)) (m b)"
  shows "chain m' par (if p = Some a then next_peer na else p) (remove_node a ts)"
  using assms
proof (induction m par p ts rule: chain.induct)
  case (2 m par p b ts us)
  from 2(3) obtain n where n: "p = Some b" "m b = Some n" "parent n = par" "chain m (Some b) (child n) ts"
      "chain m par (next_peer n) us" by auto
  have us: "chain m' par (if next_peer n = Some a then next_peer na else next_peer n) (remove_node a us)"
    by (rule 2(2)) (use 2(4-) n in auto)
  show ?case
  proof (cases "b = a")
    case True
    with 2(4) have a: "a \<notin> set (ptrs_of us)" by simp
    with n(5) have "next_peer n \<noteq> Some a" by (rule chain_start)
    with us n True 2(5) a show ?thesis by (simp add: remove_node_other)
  next
    case False
    have "chain m' (Some b) (if child n = Some a then next_peer na else child n) (remove_node a ts)"
      by (rule 2(1)) (use 2(4-) n in auto)
    with us n False 2(7) [of b] show ?thesis by (simp add: bypass_def)
  qed
qed simp

lemma peer_before_chain:
  "chain m par p ts \<Longrightarrow> NT a us \<in> set ts \<Longrightarrow> distinct (ptrs_of ts) \<Longrightarrow> p \<noteq> Some a \<Longrightarrow>
     \<exists>b n. peer_before m a p = Some (Some b) \<and> m b = Some n \<and> next_peer n = Some a \<and> b \<in> set (ptrs_of ts) \<and> b \<noteq> a"
proof (induction m par p ts rule: chain.induct)
  case (2 m par p b ts vs)
  from 2(3) obtain n where n: "p = Some b" "m b = Some n" "chain m par (next_peer n) vs" by auto
  from 2(4,6) n have a: "NT a us \<in> set vs" by auto
  show ?case
  proof (cases "next_peer n = Some a")
    case True
    moreover have "b \<noteq> a" using member_parts [OF a] 2(5) by auto
    ultimately show ?thesis using n by (subst peer_before.simps) auto
  next
    case False
    from 2(2) [OF n(3) a _ False] 2(5) obtain c n' where
      "peer_before m a (next_peer n) = Some (Some c)" "m c = Some n'" "next_peer n' = Some a" "c \<in> set (ptrs_of vs)"
        "c \<noteq> a" by auto
    with n False show ?thesis by (subst peer_before.simps) auto
  qed
qed simp

lemma below_parent:
  "a \<in> set (ptrs_of ts) \<Longrightarrow> distinct (ptrs_of ts) \<Longrightarrow>
     (\<exists>us. NT a us \<in> set ts) \<or> (\<exists>q ks us. kids_of q ts = Some ks \<and> NT a us \<in> set ks)"
proof (induction ts rule: ptrs_of.induct)
  case (2 b ts vs)
  consider "a = b" | "a \<in> set (ptrs_of ts)" | "a \<in> set (ptrs_of vs)" using 2(3) by auto
  then show ?case
  proof cases
    case ts: 2
    with 2(1,4) consider us where "NT a us \<in> set ts" | q ks us where "kids_of q ts = Some ks" "NT a us \<in> set ks"
      by auto
    then show ?thesis
    proof cases
      case (1 us)
      then show ?thesis by (intro disjI2 exI [of _ b] exI [of _ ts] exI [of _ us]) simp
    next
      case (2 q ks us)
      then have "q \<noteq> b" using kids_in [of q ts] \<open>distinct _\<close> by auto
      with 2 show ?thesis by (intro disjI2 exI [of _ q] exI [of _ ks] exI [of _ us]) simp
    qed
  next
    case vs: 3
    with 2(2,4) consider us where "NT a us \<in> set vs" | q ks us where "kids_of q vs = Some ks" "NT a us \<in> set ks"
      by auto
    then show ?thesis
    proof cases
      case (2 q ks us)
      then have "q \<noteq> b" "kids_of q ts = None" using kids_in [of q vs] \<open>distinct _\<close> by (auto simp: kids_None)
      with 2 show ?thesis by (intro disjI2 exI [of _ q] exI [of _ ks] exI [of _ us]) simp
    qed auto
  qed auto
qed simp

lemma remove_node_ptrs:
  "distinct (ptrs_of ts) \<Longrightarrow> distinct (ptrs_of (remove_node a ts)) \<and> set (ptrs_of (remove_node a ts)) \<subseteq> set (ptrs_of ts) - {a}"
  by (induction a ts rule: remove_node.induct) auto

text \<open>The nodes after a removal, on the nodes that stay.\<close>

lemma unref_result:
  assumes "m a = Some n"
  shows "\<exists>m'. uacpi_namespace_node_unref a m = Some m' \<and> (\<forall>b. b \<noteq> a \<longrightarrow> m' b = m b)"
proof -
  obtain bugged h where h: "uacpi_bugged_shareable (shareable n) = (bugged, h)" by fastforce
  obtain old h' where "uacpi_shareable_unref h = (old, h')" by fastforce
  with h obtain freed sh where "uacpi_shareable_unref_and_delete_if_last (Some (shareable n)) = (freed, Some sh)"
    by (cases bugged) (auto simp: uacpi_shareable_unref_and_delete_if_last_def)
  with assms show ?thesis
    by (auto simp: uacpi_namespace_node_unref_def free_namespace_node_def Let_def)
qed

lemma detach_object:
  assumes "nodes s a = Some n"
  shows "\<exists>s' obj. namespace_node_detach_object k a s = Some s' \<and> nodes s' = (nodes s)(a \<mapsto> n\<lparr>object := obj\<rparr>)"
proof (cases "uacpi_namespace_node_get_object k (host s) n = 0")
  case True
  have "nodes s = (nodes s)(a \<mapsto> n\<lparr>object := object n\<rparr>)" using assms by auto
  with True assms show ?thesis by (auto simp: namespace_node_detach_object_def intro!: exI [of _ "object n"])
next
  case False
  with assms show ?thesis
    by (auto simp: namespace_node_detach_object_def node_upd_def Let_def intro!: exI [of _ "0 :: u64"])
qed

lemma kids_distinct: "kids_of q ts = Some ks \<Longrightarrow> distinct (ptrs_of ts) \<Longrightarrow> distinct (ptrs_of ks)"
  by (induction q ts rule: kids_of.induct) (auto split: if_splits option.splits)

definition links :: "uacpi_namespace_node \<Rightarrow> ptr \<times> ptr \<times> ptr" where
  "links n = (parent n, child n, next_peer n)"

lemma chain_links:
  "chain m par p ts \<Longrightarrow> (\<And>a. a \<in> set (ptrs_of ts) \<Longrightarrow> map_option links (m' a) = map_option links (m a)) \<Longrightarrow>
     chain m' par p ts"
proof (induction m par p ts rule: chain.induct)
  case (2 m par p b ts us)
  from 2(3) obtain n where n: "p = Some b" "m b = Some n" "parent n = par" "chain m (Some b) (child n) ts"
      "chain m par (next_peer n) us" by auto
  from 2(4) [of b] n obtain n' where n': "m' b = Some n'" "links n' = links n" by auto
  have "chain m' (Some b) (child n) ts" by (rule 2(1)) (use 2(4) n in auto)
  moreover have "chain m' par (next_peer n) us" by (rule 2(2)) (use 2(4) n in auto)
  ultimately show ?case using n n' by (auto simp: links_def)
qed simp

text \<open>What removing a leaf does: every pointer to it now leads to its next peer.\<close>

lemma uninstall_leaf:
  assumes tree: "represents (nodes s) ts" and a: "a \<in> set (ptrs_of ts)"
    and n: "nodes s a = Some n" "child n = None" "\<not> uacpi_namespace_node_is_dangling n"
  shows "\<exists>s'. uacpi_namespace_node_uninstall k a s = Some (UACPI_STATUS_OK, s')
    \<and> (\<forall>b\<in>set (ptrs_of [NT uacpi_namespace_root ts]). b \<noteq> a \<longrightarrow> nodes s' b = map_option (bypass a (next_peer n)) (nodes s b))"
proof -
  let ?f = "[NT uacpi_namespace_root ts]" let ?m = "nodes s"
  have c: "chain ?m None (Some uacpi_namespace_root) ?f" and d: "distinct (ptrs_of ?f)"
    using tree by (simp_all only: represents_def)
  have a': "a \<in> set (ptrs_of ?f)" "a \<noteq> uacpi_namespace_root" using a d by auto
  from below_parent [OF a'(1) d] a'(2) obtain q ks us where
    q: "kids_of q ?f = Some ks" "NT a us \<in> set ks" by auto
  from chain_kids [OF c q(1)] obtain nq where nq: "?m q = Some nq" "chain ?m (Some q) (child nq) ks" by blast
  have qa: "q \<noteq> a" using kids_apart [OF q(1) d] member_parts [OF q(2)] by blast
  have par: "parent n = Some q" using chain_member [OF nq(2) q(2)] n(1) by auto
  have kd: "distinct (ptrs_of ks)"
    using q(1) d by (rule kids_distinct)
  from detach_object [OF n(1), of k] obtain s1 obj where
    s1: "namespace_node_detach_object k a s = Some s1" "nodes s1 = ?m(a \<mapsto> n\<lparr>object := obj\<rparr>)" by blast
  have flag: "\<exists>m'. uacpi_namespace_node_unref a
        (node_upd a (\<lambda>n. n\<lparr>flags := flags n OR UACPI_NAMESPACE_NODE_FLAG_DANGLING\<rparr>) m2) = Some m'
      \<and> (\<forall>b. b \<noteq> a \<longrightarrow> m' b = m2 b)" if "m2 a \<noteq> None" for m2
    using that unref_result [of "node_upd a (\<lambda>n. n\<lparr>flags := flags n OR UACPI_NAMESPACE_NODE_FLAG_DANGLING\<rparr>) m2" a]
    by (auto simp: node_upd_def)
  have only: "map_option (bypass a (next_peer n)) (?m b) = ?m b" if "b \<in> set (ptrs_of ?f)" "a \<notin> set (targets ?m b)" for b
    using that by (cases "?m b") (auto simp: targets_def bypass_none)
  have qin: "q \<in> set (ptrs_of ?f)" using kids_in [OF q(1)] by blast
  show ?thesis
  proof (cases "child nq = Some a")
    case True
    have t: "a \<in> set (targets ?m q)" using nq True by (simp add: targets_def)
    note once = pointed_once [OF c d qin t]
    have "next_peer nq \<noteq> Some a" using once(1) nq True by (auto simp: targets_def)
    then have upd: "bypass a (next_peer n) nq = nq\<lparr>child := next_peer n\<rparr>" using True by (simp add: bypass_def)
    let ?m2 = "node_upd q (\<lambda>q. q\<lparr>child := next_peer n\<rparr>) (nodes s1)"
    obtain m' where m': "uacpi_namespace_node_unref a
        (node_upd a (\<lambda>n. n\<lparr>flags := flags n OR UACPI_NAMESPACE_NODE_FLAG_DANGLING\<rparr>) ?m2) = Some m'"
        "\<forall>b. b \<noteq> a \<longrightarrow> m' b = ?m2 b"
      using flag [of ?m2] s1(2) nq(1) qa by (auto simp: node_upd_def)
    have "uacpi_namespace_node_uninstall k a s = Some (UACPI_STATUS_OK, s1\<lparr>nodes := m'\<rparr>)"
      using n s1 par nq qa True m'(1) by (simp add: uacpi_namespace_node_uninstall_def)
    moreover have "m' b = map_option (bypass a (next_peer n)) (?m b)" if "b \<in> set (ptrs_of ?f)" "b \<noteq> a" for b
      using that m'(2) s1(2) nq(1) upd only [of b] once(3) [of b] by (cases "b = q") (auto simp: node_upd_def)
    ultimately show ?thesis by auto
  next
    case False
    have c1: "chain (nodes s1) (Some q) (child nq) ks"
      using nq(2) by (rule chain_links) (use s1(2) n(1) in \<open>auto simp: links_def\<close>)
    from peer_before_chain [OF c1 q(2) kd False] obtain b nb where
      b: "peer_before (nodes s1) a (child nq) = Some (Some b)" "nodes s1 b = Some nb" "next_peer nb = Some a"
        "b \<in> set (ptrs_of ks)" and ba: "b \<noteq> a" by blast
    have bin: "b \<in> set (ptrs_of ?f)" using b(4) kids_in [OF q(1)] by blast
    have nb: "?m b = Some nb" using b(2) s1(2) ba by simp
    have t: "a \<in> set (targets ?m b)" using nb b(3) by (simp add: targets_def)
    note once = pointed_once [OF c d bin t]
    have "child nb \<noteq> Some a" using once(1) nb b(3) by (auto simp: targets_def)
    then have upd: "bypass a (next_peer n) nb = nb\<lparr>next_peer := next_peer n\<rparr>" using b(3) by (simp add: bypass_def)
    let ?m2 = "node_upd b (\<lambda>q. q\<lparr>next_peer := next_peer n\<rparr>) (nodes s1)"
    obtain m' where m': "uacpi_namespace_node_unref a
        (node_upd a (\<lambda>n. n\<lparr>flags := flags n OR UACPI_NAMESPACE_NODE_FLAG_DANGLING\<rparr>) ?m2) = Some m'"
        "\<forall>b. b \<noteq> a \<longrightarrow> m' b = ?m2 b"
      using flag [of ?m2] s1(2) b(2) ba by (auto simp: node_upd_def)
    have "uacpi_namespace_node_uninstall k a s = Some (UACPI_STATUS_OK, s1\<lparr>nodes := m'\<rparr>)"
      using n s1 par nq qa False m'(1) b(1) by (simp add: uacpi_namespace_node_uninstall_def)
    moreover have "m' x = map_option (bypass a (next_peer n)) (?m x)" if "x \<in> set (ptrs_of ?f)" "x \<noteq> a" for x
      using that m'(2) s1(2) nb upd only [of x] once(3) [of x] by (cases "x = b") (auto simp: node_upd_def)
    ultimately show ?thesis by auto
  qed
qed

lemma install_tree:
  assumes tree: "represents m ts" and q: "q \<in> set (ptrs_of [NT uacpi_namespace_root ts])"
    and a: "a \<notin> set (ptrs_of [NT uacpi_namespace_root ts])"
    and na: "m a = Some na" "\<not> uacpi_namespace_node_is_dangling na" "child na = None" "next_peer na = None"
  shows "\<exists>m' ts'. uacpi_namespace_node_install (Some q) a m = Some (UACPI_STATUS_OK, m')
    \<and> add_child q a [NT uacpi_namespace_root ts] = [NT uacpi_namespace_root ts'] \<and> represents m' ts'
    \<and> (\<forall>b. b \<noteq> a \<and> b \<notin> set (ptrs_of [NT uacpi_namespace_root ts]) \<longrightarrow> m' b = m b)"
proof -
  let ?f = "[NT uacpi_namespace_root ts]"
  have c: "chain m None (Some uacpi_namespace_root) ?f" and d: "distinct (ptrs_of ?f)"
    using tree by (simp_all only: represents_def)
  from q obtain ks where ks: "kids_of q ?f = Some ks" using kids_None [of q ?f] by fastforce
  from chain_kids [OF c ks] obtain nq where nq: "m q = Some nq" "chain m (Some q) (child nq) ks" by blast
  have qa: "q \<noteq> a" "ks \<noteq> [] \<Longrightarrow> last_root ks \<noteq> a" using q a last_root_in kids_in [OF ks] by blast+
  let ?m1 = "if ks = [] then node_upd q (\<lambda>n. n\<lparr>child := Some a\<rparr>) m
     else node_upd (last_root ks) (\<lambda>n. n\<lparr>next_peer := Some a\<rparr>) m"
  let ?m2 = "node_upd a (\<lambda>n. n\<lparr>parent := Some q\<rparr>) ?m1"
  have "child nq = None \<longleftrightarrow> ks = []" using nq(2) by (cases ks rule: ptrs_of.cases) auto
  then have inst: "uacpi_namespace_node_install (Some q) a m = Some (UACPI_STATUS_OK, ?m2)"
    using na nq last_peer_chain [of m "Some q" _ ks] by (auto simp: uacpi_namespace_node_install_def split: option.splits)
  have "chain ?m2 None (Some uacpi_namespace_root) (add_child q a ?f)"
    by (rule chain_add_child [OF c d ks a, where na = "na\<lparr>parent := Some q\<rparr>"])
      (use na qa nq a in \<open>auto simp: node_upd_def split: option.splits\<close>)
  moreover obtain ts' where ts': "add_child q a ?f = [NT uacpi_namespace_root ts']"
    by (cases "uacpi_namespace_root = q") simp_all
  moreover have "distinct (ptrs_of (add_child q a ?f))" using add_child_ptrs [OF q a d] by blast
  ultimately have "represents ?m2 ts'" by (simp only: represents_def)
  moreover have "?m2 b = m b" if b: "b \<noteq> a" "b \<notin> set (ptrs_of ?f)" for b
  proof -
    have "b \<noteq> q" "ks \<noteq> [] \<Longrightarrow> b \<noteq> last_root ks" using b(2) q last_root_in kids_in [OF ks] by blast+
    with b(1) show ?thesis by (cases "ks = []") (simp_all add: node_upd_other)
  qed
  ultimately show ?thesis using inst ts' by blast
qed

section \<open>Properties\<close>

text \<open>C14: paths lead back.  For every node below the root of a well-formed namespace whose siblings
  have different names, the absolute path that is generated for it fits its buffer exactly, and
  resolving that path, from any node, gives the node back.\<close>

theorem absolute_path_roundtrip:
  assumes tree: "represents (nodes s) ts" and uniq: "unique_names (nodes s) ts"
    and names: "\<forall>b\<in>set (ptrs_of ts). name_segment (name_of (nodes s) b)" and a: "a \<in> set (ptrs_of ts)"
    and mem: "\<And>n. room_for_path k n (host s)"
    and vis: "permanent = False \<or> \<not> uacpi_namespace_node_is_temporary (the (nodes s a))"
  shows "\<exists>path. uacpi_namespace_node_generate_absolute_path k s a = Some (Some (path @ [CHR 0x00]))
    \<and> CHR 0x00 \<notin> set path
    \<and> uacpi_namespace_node_resolve k from path False search permanent s = Some ((UACPI_STATUS_OK, Some a), s)"
proof -
  let ?m = "nodes s"
  from tree obtain n where n: "?m uacpi_namespace_root = Some n" "parent n = None"
      "chain ?m (Some uacpi_namespace_root) (child n) ts" and root: "uacpi_namespace_root \<notin> set (ptrs_of ts)"
    by (auto simp: represents_def)
  from a obtain ns where ns: "(a, ns) \<in> set (paths ?m ts)"
    using paths_ptrs [of ?m ts] by (metis (no_types, lifting) imageE list.set_map prod.collapse)
  have len: "\<forall>b\<in>set (ptrs_of ts). length (name_of ?m b) = 4" using names by (auto simp: name_segment_def)
  have segs: "\<forall>x\<in>set ns. name_segment x" using paths_names [OF ns] names by auto
  then have lens: "\<forall>x\<in>set ns. length x = 4" by (auto simp: name_segment_def)
  have ne: "ns \<noteq> []" using ns by (rule paths_nonempty)
  let ?text = "tl (dotted ns)" let ?L = "5 * length ns"
  have text_len: "length ?text = ?L - 1" using length_dotted [OF lens] by simp
  have depth: "uacpi_namespace_node_depth ?m a = Some (length ns)"
  proof -
    have "uacpi_namespace_node_depth ?m uacpi_namespace_root = Some 0"
      using n by (subst uacpi_namespace_node_depth.simps) simp
    from depth_paths [OF n(3) ns this] show ?thesis by simp
  qed
  have bytes: "1 + (length ns + 1 - 1) * 4 + (if 2 < length ns + 1 then length ns + 1 - 2 else 0) + 1 = Suc ?L"
    using ne by (cases ns) auto
  let ?buf = "overwrite ?L [CHR 0x00] (overwrite 0 [CHR 0x5C] (replicate (Suc ?L) (CHR 0x00)))"
  have buf: "?buf = CHR 0x5C # replicate ?L (CHR 0x00)"
    by (rule empty_path_buffer) (use ne in simp)
  have "fill_path ?m a (1 + ?L - 1) ?buf = Some (overwrite 1 ?text ?buf)"
    using n(3) ns root len by (rule fill_path_from_root) (simp only: buf, simp)
  then have fill: "fill_path ?m a ?L ?buf = Some ((CHR 0x5C # ?text) @ [CHR 0x00])"
    unfolding buf using ne text_len by (cases ns) (simp_all add: overwrite_def)
  have gen: "uacpi_namespace_node_generate_absolute_path k s a = Some (Some ((CHR 0x5C # ?text) @ [CHR 0x00]))"
    unfolding uacpi_namespace_node_generate_absolute_path_def depth
    using mem fill by (simp only: bytes Let_def Option.bind.simps) (simp add: put_chars_fits length_overwrite del: replicate_Suc)
  have "CHR 0x00 \<notin> set (dotted ns)"
    using segs by (induction ns) (auto simp: name_segment_def)
  then have nul: "CHR 0x00 \<notin> set (CHR 0x5C # ?text)" by (cases "dotted ns") auto
  have "resolve_names ?m search from False (Some uacpi_namespace_root) ?text = Some (Some a)"
    using n(3) n(1) uniq ns names by (rule resolve_names_dotted) simp
  then have "uacpi_namespace_node_resolve k from (CHR 0x5C # ?text) False search permanent s = Some ((UACPI_STATUS_OK, Some a), s)"
    using chain_nodes [OF n(3) a] vis
    by (auto simp: uacpi_namespace_node_resolve_def)
  with gen nul show ?thesis by blast
qed

definition example_host :: "unit ns_host" where
  "example_host = \<lparr>object_type = \<lambda>h obj. 6, unwrap_internal_reference = \<lambda>h obj. obj, object_is_reference = \<lambda>h obj. False,
     object_is_region = \<lambda>h obj. False, object_ref = \<lambda>obj h. h, object_unref = \<lambda>obj h. h,
     opregion_uninstall_handler = \<lambda>a h. h, read_lock = \<lambda>h. (UACPI_STATUS_OK, h), read_unlock = \<lambda>h. (UACPI_STATUS_OK, h),
     write_lock = \<lambda>h. (UACPI_STATUS_OK, h), write_unlock = \<lambda>h. (UACPI_STATUS_OK, h), alloc_node = \<lambda>h. (Some 12, h),
     room_for_path = \<lambda>n h. True\<rparr>"

definition example_node :: "string \<Rightarrow> ptr \<Rightarrow> ptr \<Rightarrow> ptr \<Rightarrow> uacpi_namespace_node" where
  "example_node nm up down peer =
     \<lparr>shareable = \<lparr>share_count = 1\<rparr>, node_name = nm, flags = 0, object = 7, parent = up, child = down, next_peer = peer\<rparr>"

definition example_nodes :: nodes where
  "example_nodes =
     [0 \<mapsto> example_node ''_ROOT'' None (Some 1) None, 1 \<mapsto> example_node ''_SB_'' (Some 0) (Some 2) (Some 4),
      2 \<mapsto> example_node ''PCI0'' (Some 1) None (Some 3), 3 \<mapsto> example_node ''CPU0'' (Some 1) None None,
      4 \<mapsto> example_node ''_TZ_'' (Some 0) None None, 5 \<mapsto> example_node ''CPU1'' None None None]"

definition example_namespace :: "unit namespace" where
  "example_namespace = \<lparr>nodes = example_nodes, host = ()\<rparr>"

lemma example_represents: "represents (nodes example_namespace) [NT 1 [NT 2 [], NT 3 []], NT 4 []]"
  by (simp add: represents_def uacpi_namespace_root_def UACPI_PREDEFINED_NAMESPACE_ROOT_def example_namespace_def
      example_nodes_def example_node_def)

lemma absolute_path_roundtrip_witness:
  "\<exists>path. uacpi_namespace_node_generate_absolute_path example_host example_namespace 3 = Some (Some (path @ [CHR 0x00]))
    \<and> CHR 0x00 \<notin> set path
    \<and> uacpi_namespace_node_resolve example_host (Some 4) path False True True example_namespace
        = Some ((UACPI_STATUS_OK, Some 3), example_namespace)"
  by (rule absolute_path_roundtrip [OF example_represents])
    (simp_all add: example_namespace_def example_nodes_def example_node_def name_of_def name_segment_def example_host_def
      uacpi_namespace_node_is_temporary_def has_flag_def)

text \<open>C16: installing a node keeps the namespace a tree.  A node that is in no list of peers becomes
  the last child of its parent, wherever that is in the tree, and nothing else changes.\<close>

theorem install_adds_child:
  assumes tree: "represents m ts" and q: "q \<in> set (ptrs_of [NT uacpi_namespace_root ts])"
    and a: "a \<notin> set (ptrs_of [NT uacpi_namespace_root ts])"
    and na: "m a = Some na" "\<not> uacpi_namespace_node_is_dangling na" "child na = None" "next_peer na = None"
  shows "\<exists>m' ts'. uacpi_namespace_node_install (Some q) a m = Some (UACPI_STATUS_OK, m')
    \<and> add_child q a [NT uacpi_namespace_root ts] = [NT uacpi_namespace_root ts'] \<and> represents m' ts'"
  using install_tree [OF assms] by blast

lemma install_adds_child_witness:
  "\<exists>m' ts'. uacpi_namespace_node_install (Some 2) 5 example_nodes = Some (UACPI_STATUS_OK, m')
    \<and> add_child 2 5 [NT uacpi_namespace_root [NT 1 [NT 2 [], NT 3 []], NT 4 []]] = [NT uacpi_namespace_root ts']
    \<and> represents m' ts'"
  by (rule install_adds_child [OF example_represents [unfolded example_namespace_def namespace.simps]])
    (simp_all add: example_nodes_def example_node_def uacpi_namespace_root_def UACPI_PREDEFINED_NAMESPACE_ROOT_def
      uacpi_namespace_node_is_dangling_def has_flag_def, simp_all)

text \<open>C17: removing a node keeps the namespace a tree.  A node without children, wherever it is among
  its peers, is taken out, and the rest stays as it is.\<close>

theorem uninstall_removes_node:
  assumes tree: "represents (nodes s) ts" and a: "a \<in> set (ptrs_of ts)"
    and na: "nodes s a = Some na" "child na = None" "\<not> uacpi_namespace_node_is_dangling na"
  shows "\<exists>s'. uacpi_namespace_node_uninstall k a s = Some (UACPI_STATUS_OK, s') \<and> represents (nodes s') (remove_node a ts)"
proof -
  let ?f = "[NT uacpi_namespace_root ts]"
  have c: "chain (nodes s) None (Some uacpi_namespace_root) ?f" and d: "distinct (ptrs_of ?f)"
    using tree by (simp_all only: represents_def)
  from uninstall_leaf [OF tree a na] obtain s' where s': "uacpi_namespace_node_uninstall k a s = Some (UACPI_STATUS_OK, s')"
    "\<forall>x\<in>set (ptrs_of ?f). x \<noteq> a \<longrightarrow> nodes s' x = map_option (bypass a (next_peer na)) (nodes s x)" by blast
  have r: "uacpi_namespace_root \<noteq> a" using a d by auto
  have "chain (nodes s') None (Some uacpi_namespace_root) (remove_node a ?f)"
    using chain_remove [OF c d na(1,2), of "nodes s'"] s'(2) r by simp
  moreover have "distinct (ptrs_of (remove_node a ?f))" using remove_node_ptrs [OF d] by blast
  ultimately have "represents (nodes s') (remove_node a ts)" using r by (simp add: represents_def)
  with s'(1) show ?thesis by blast
qed

lemma uninstall_removes_node_witness:
  "\<exists>s'. uacpi_namespace_node_uninstall example_host 2 example_namespace = Some (UACPI_STATUS_OK, s')
    \<and> represents (nodes s') (remove_node 2 [NT 1 [NT 2 [], NT 3 []], NT 4 []])"
  by (rule uninstall_removes_node [OF example_represents])
    (simp_all add: example_namespace_def example_nodes_def example_node_def uacpi_namespace_node_is_dangling_def has_flag_def,
     simp_all)

end
