(* ===== verification/Namespace_Walk.thy ===== *)
theory Namespace_Walk
  imports Namespace Opcodes
begin

text \<open>
  Walking over the namespace, setting it up and taking it down: the iterators, the initialization
  and the deinitialization of \<^verbatim>\<open>src/kern/acpi/namespace.c\<close>.  What a callback changes is part of the
  state of the host; callbacks that change the namespace under the walk are not modelled.
\<close>

section \<open>Iteration\<close>

definition UACPI_ITERATION_DECISION_CONTINUE :: nat where "UACPI_ITERATION_DECISION_CONTINUE = 0"
definition UACPI_ITERATION_DECISION_BREAK :: nat where "UACPI_ITERATION_DECISION_BREAK = 1"
definition UACPI_ITERATION_DECISION_NEXT_PEER :: nat where "UACPI_ITERATION_DECISION_NEXT_PEER = 2"
definition UACPI_MAX_DEPTH_ANY :: u32 where "UACPI_MAX_DEPTH_ANY = 0xFFFFFFFF"
definition UACPI_OBJECT_ANY_BIT :: u32 where "UACPI_OBJECT_ANY_BIT = 0xFFFFFFFF"

type_synonym 'h iteration_callback = "nat \<Rightarrow> u32 \<Rightarrow> 'h \<Rightarrow> nat \<times> 'h"

text \<open>Calling back, with the lock given up meanwhile.  The first component is the status the whole
  walk returns with, where it ends here.\<close>

definition call_back ::
  "('h, 'x) ns_host_scheme \<Rightarrow> bool \<Rightarrow> 'h iteration_callback \<Rightarrow> nat \<Rightarrow> u32 \<Rightarrow> 'h \<Rightarrow> uacpi_status option \<times> nat \<times> 'h" where
  "call_back k should_lock cb a depth h =
     (let (ret, h) = (if should_lock then read_unlock k h else (UACPI_STATUS_OK, h))
      in if ret \<noteq> UACPI_STATUS_OK then (Some ret, 0, h)
      else let (decision, h) = cb a depth h
      in if decision = UACPI_ITERATION_DECISION_BREAK then (Some ret, decision, h)
      else let (ret, h) = (if should_lock then read_lock k h else (UACPI_STATUS_OK, h))
      in if ret \<noteq> UACPI_STATUS_OK then (Some ret, decision, h) else (None, decision, h))"

definition walk_unlock :: "('h, 'x) ns_host_scheme \<Rightarrow> bool \<Rightarrow> 'h \<Rightarrow> 'h" where
  "walk_unlock k should_lock h = (if should_lock then snd (read_unlock k h) else h)"

text \<open>What happens at one node, on the way down or up.\<close>

definition visit_node ::
  "('h, 'x) ns_host_scheme \<Rightarrow> bool \<Rightarrow> bool \<Rightarrow> 'h iteration_callback option \<Rightarrow> bool \<Rightarrow> uacpi_namespace_node \<Rightarrow> nat \<Rightarrow> u32 \<Rightarrow> 'h
    \<Rightarrow> uacpi_status option \<times> nat \<times> 'h" where
  "visit_node k should_lock permanent_only cb matches n a depth h =
     (if \<not> matches then (None, UACPI_ITERATION_DECISION_CONTINUE, h)
      else if permanent_only \<and> uacpi_namespace_node_is_temporary n then (None, UACPI_ITERATION_DECISION_NEXT_PEER, h)
      else case cb of None \<Rightarrow> (None, UACPI_ITERATION_DECISION_CONTINUE, h)
           | Some f \<Rightarrow> call_back k should_lock f a depth h)"

partial_function (option) walk_loop ::
  "('h, 'x) ns_host_scheme \<Rightarrow> nodes \<Rightarrow> 'h iteration_callback option \<Rightarrow> 'h iteration_callback option \<Rightarrow> u32 \<Rightarrow> u32 \<Rightarrow> bool \<Rightarrow> bool
    \<Rightarrow> ptr \<Rightarrow> bool \<Rightarrow> bool \<Rightarrow> u32 \<Rightarrow> 'h \<Rightarrow> (uacpi_status \<times> 'h) option" where
  "walk_loop k m desc asc type_mask max_depth should_lock permanent_only p walking_up matches depth h =
     (if depth = 0 then Some (UACPI_STATUS_OK, walk_unlock k should_lock h)
      else do {
        (_, matches) \<leftarrow> uacpi_namespace_node_is_one_of_unlocked k \<lparr>nodes = m, host = h\<rparr> p type_mask matches;
        a \<leftarrow> p;
        n \<leftarrow> m a;
        (case visit_node k should_lock permanent_only (if walking_up then asc else desc) matches n a depth h of
           (Some ret, decision, h) \<Rightarrow> Some (ret, h)
         | (None, decision, h) \<Rightarrow>
             if walking_up then
               (if next_peer n \<noteq> None
                then walk_loop k m desc asc type_mask max_depth should_lock permanent_only (next_peer n) False matches depth h
                else walk_loop k m desc asc type_mask max_depth should_lock permanent_only (parent n) True matches (depth - 1) h)
             else if decision = UACPI_ITERATION_DECISION_CONTINUE \<and> depth \<noteq> max_depth \<and> child n \<noteq> None
             then walk_loop k m desc asc type_mask max_depth should_lock permanent_only (child n) False matches (depth + 1) h
             else if decision = UACPI_ITERATION_DECISION_CONTINUE \<or> decision = UACPI_ITERATION_DECISION_NEXT_PEER
             then walk_loop k m desc asc type_mask max_depth should_lock permanent_only p True matches depth h
             else Some (UACPI_STATUS_INVALID_ARGUMENT, walk_unlock k should_lock h)) })"

text \<open>\<open>ready\<close> is the check of the level of initialization at the start.\<close>

definition uacpi_namespace_do_for_each_child ::
  "('h, 'x) ns_host_scheme \<Rightarrow> bool \<Rightarrow> ptr \<Rightarrow> 'h iteration_callback option \<Rightarrow> 'h iteration_callback option \<Rightarrow> u32 \<Rightarrow> u32 \<Rightarrow> bool \<Rightarrow> bool
    \<Rightarrow> 'h namespace \<Rightarrow> (uacpi_status \<times> 'h) option" where
  "uacpi_namespace_do_for_each_child k ready p desc asc type_mask max_depth should_lock permanent_only s =
     (if \<not> ready then Some (UACPI_STATUS_INIT_LEVEL_MISMATCH, host s)
      else if desc = None \<and> asc = None then Some (UACPI_STATUS_INVALID_ARGUMENT, host s)
      else if p = None \<or> max_depth = 0 then Some (UACPI_STATUS_INVALID_ARGUMENT, host s)
      else let (ret, h) = (if should_lock then read_lock k (host s) else (UACPI_STATUS_OK, host s))
      in if ret \<noteq> UACPI_STATUS_OK then Some (ret, h)
      else do {
        n \<leftarrow> deref (nodes s) p;
        if child n = None then Some (UACPI_STATUS_OK, walk_unlock k should_lock h)
        else walk_loop k (nodes s) desc asc type_mask max_depth should_lock permanent_only (child n) False False 1 h })"

definition uacpi_namespace_for_each_child_simple ::
  "('h, 'x) ns_host_scheme \<Rightarrow> bool \<Rightarrow> ptr \<Rightarrow> 'h iteration_callback option \<Rightarrow> 'h namespace \<Rightarrow> (uacpi_status \<times> 'h) option" where
  "uacpi_namespace_for_each_child_simple k ready p callback s =
     uacpi_namespace_do_for_each_child k ready p callback None UACPI_OBJECT_ANY_BIT UACPI_MAX_DEPTH_ANY True True s"

definition uacpi_namespace_for_each_child ::
  "('h, 'x) ns_host_scheme \<Rightarrow> bool \<Rightarrow> ptr \<Rightarrow> 'h iteration_callback option \<Rightarrow> 'h iteration_callback option \<Rightarrow> u32 \<Rightarrow> u32
    \<Rightarrow> 'h namespace \<Rightarrow> (uacpi_status \<times> 'h) option" where
  "uacpi_namespace_for_each_child k ready p desc asc type_mask max_depth s =
     uacpi_namespace_do_for_each_child k ready p desc asc type_mask max_depth True True s"

text \<open>The search of the next peer leaves the status of the last check and the node it stopped at.\<close>

partial_function (option) next_typed_loop ::
  "('h, 'x) ns_host_scheme \<Rightarrow> 'h namespace \<Rightarrow> u32 \<Rightarrow> ptr \<Rightarrow> uacpi_status \<Rightarrow> (uacpi_status \<times> ptr) option" where
  "next_typed_loop k s type_mask p ret =
     (case p of None \<Rightarrow> Some (ret, None)
      | Some a \<Rightarrow> do {
          n \<leftarrow> nodes s a;
          if uacpi_namespace_node_is_temporary n then next_typed_loop k s type_mask (next_peer n) ret
          else do {
            r \<leftarrow> uacpi_namespace_node_is_one_of_unlocked k s p type_mask False;
            if fst r \<noteq> UACPI_STATUS_OK then Some (fst r, p)
            else if snd r then Some (fst r, p)
            else next_typed_loop k s type_mask (next_peer n) (fst r) } })"

definition uacpi_namespace_node_next_typed ::
  "('h, 'x) ns_host_scheme \<Rightarrow> bool \<Rightarrow> ptr \<Rightarrow> ptr \<Rightarrow> u32 \<Rightarrow> 'h namespace \<Rightarrow> ((uacpi_status \<times> ptr) \<times> 'h) option" where
  "uacpi_namespace_node_next_typed k ready par iter type_mask s =
     (if \<not> ready then Some ((UACPI_STATUS_INIT_LEVEL_MISMATCH, iter), host s)
      else if par = None \<and> iter = None then Some ((UACPI_STATUS_INVALID_ARGUMENT, iter), host s)
      else let (ret, h) = read_lock k (host s); s = s\<lparr>host := h\<rparr>
      in if ret \<noteq> UACPI_STATUS_OK then Some ((ret, iter), h)
      else do {
        start \<leftarrow> (if iter = None then map_option child (deref (nodes s) par)
                  else map_option next_peer (deref (nodes s) iter));
        (ret, found) \<leftarrow> next_typed_loop k s type_mask start ret;
        let h = snd (read_unlock k h);
        Some (if found = None then ((UACPI_STATUS_NOT_FOUND, iter), h)
              else if ret = UACPI_STATUS_OK then ((ret, found), h) else ((ret, iter), h)) })"

definition uacpi_namespace_node_next ::
  "('h, 'x) ns_host_scheme \<Rightarrow> bool \<Rightarrow> ptr \<Rightarrow> ptr \<Rightarrow> 'h namespace \<Rightarrow> ((uacpi_status \<times> ptr) \<times> 'h) option" where
  "uacpi_namespace_node_next k ready par iter s =
     uacpi_namespace_node_next_typed k ready par iter UACPI_OBJECT_ANY_BIT s"

section \<open>The walk on the tree\<close>

text \<open>The reference: every node of the trees, with its descending and its ascending call around
  those of its children.\<close>

fun walk_forest ::
  "('h, 'x) ns_host_scheme \<Rightarrow> nodes \<Rightarrow> 'h iteration_callback option \<Rightarrow> 'h iteration_callback option \<Rightarrow> u32 \<Rightarrow> u32 \<Rightarrow> bool \<Rightarrow> bool
    \<Rightarrow> u32 \<Rightarrow> ntree list \<Rightarrow> 'h \<Rightarrow> uacpi_status option \<times> 'h" where
  "walk_forest k m desc asc type_mask max_depth lck perm d [] h = (None, h)"
| "walk_forest k m desc asc type_mask max_depth lck perm d (NT a ts # us) h =
     (let n = the (m a);
          matches = (\<lambda>h. uacpi_object_is_one_of k h (uacpi_namespace_node_get_object k h n) type_mask)
      in case visit_node k lck perm desc (matches h) n a d h of
        (Some r, _, h) \<Rightarrow> (Some r, h)
      | (None, decision, h) \<Rightarrow>
          if decision \<noteq> UACPI_ITERATION_DECISION_CONTINUE \<and> decision \<noteq> UACPI_ITERATION_DECISION_NEXT_PEER
          then (Some UACPI_STATUS_INVALID_ARGUMENT, walk_unlock k lck h)
          else (case (if decision = UACPI_ITERATION_DECISION_CONTINUE \<and> d \<noteq> max_depth
                      then walk_forest k m desc asc type_mask max_depth lck perm (d + 1) ts h else (None, h)) of
              (Some r, h) \<Rightarrow> (Some r, h)
            | (None, h) \<Rightarrow>
                (case visit_node k lck perm asc (matches h) n a d h of
                  (Some r, _, h) \<Rightarrow> (Some r, h)
                | (None, _, h) \<Rightarrow> walk_forest k m desc asc type_mask max_depth lck perm d us h)))"

fun height :: "ntree list \<Rightarrow> nat" where
  "height [] = 0"
| "height (NT a ts # us) = max (Suc (height ts)) (height us)"


text \<open>Where every node has an object, the match of the node before is never used.\<close>

definition has_object :: "('h, 'x) ns_host_scheme \<Rightarrow> nodes \<Rightarrow> nat \<Rightarrow> bool" where
  "has_object k m a \<longleftrightarrow> (\<exists>n. m a = Some n \<and> object n \<noteq> 0 \<and> (\<forall>h. unwrap_internal_reference k h (object n) \<noteq> 0))"

lemma is_one_of_present:
  assumes "m a = Some n" "has_object k m a"
  shows "uacpi_namespace_node_is_one_of_unlocked k \<lparr>nodes = m, host = h\<rparr> (Some a) type_mask matches
    = Some (UACPI_STATUS_OK, uacpi_object_is_one_of k h (uacpi_namespace_node_get_object k h n) type_mask)"
  using assms by (auto simp: uacpi_namespace_node_is_one_of_unlocked_def has_object_def deref_def
      uacpi_namespace_node_get_object_def)

lemma walk_loop_at:
  assumes "m a = Some n" "has_object k m a" "d \<noteq> 0"
  shows "walk_loop k m desc asc type_mask md lck perm (Some a) up matches d h =
     (let mt = uacpi_object_is_one_of k h (uacpi_namespace_node_get_object k h n) type_mask
      in case visit_node k lck perm (if up then asc else desc) mt n a d h of
           (Some ret, decision, h) \<Rightarrow> Some (ret, h)
         | (None, decision, h) \<Rightarrow>
             if up then
               (if next_peer n \<noteq> None
                then walk_loop k m desc asc type_mask md lck perm (next_peer n) False mt d h
                else walk_loop k m desc asc type_mask md lck perm (parent n) True mt (d - 1) h)
             else if decision = UACPI_ITERATION_DECISION_CONTINUE \<and> d \<noteq> md \<and> child n \<noteq> None
             then walk_loop k m desc asc type_mask md lck perm (child n) False mt (d + 1) h
             else if decision = UACPI_ITERATION_DECISION_CONTINUE \<or> decision = UACPI_ITERATION_DECISION_NEXT_PEER
             then walk_loop k m desc asc type_mask md lck perm (Some a) True mt d h
             else Some (UACPI_STATUS_INVALID_ARGUMENT, walk_unlock k lck h))"
  using assms by (subst walk_loop.simps) (simp add: is_one_of_present [of m a n k] Let_def)

lemma walk_loop_matches:
  assumes "d = 0 \<or> has_object k m a"
  shows "walk_loop k m desc asc type_mask md lck perm (Some a) up matches d h =
    walk_loop k m desc asc type_mask md lck perm (Some a) up True d h"
proof (cases "d = 0")
  case True
  then show ?thesis by (simp add: walk_loop.simps)
next
  case False
  with assms obtain n where n: "m a = Some n" "has_object k m a" by (auto simp: has_object_def)
  show ?thesis by (rule trans [OF walk_loop_at [OF n False] walk_loop_at [OF n False, symmetric]])
qed

lemma succ_nonzero: "unat (d :: u32) + k \<le> 2 ^ 32 \<Longrightarrow> 2 \<le> k \<Longrightarrow> unat (d + 1) = unat d + 1"
  by (subst unat_plus_simple [THEN iffD1]) (auto simp: no_olen_add_nat)

lemma chain_next: "chain m par p us \<Longrightarrow> p = None \<longleftrightarrow> us = []"
  by (cases us rule: ptrs_of.cases) auto

lemma walk_loop_forest:
  assumes "chain m (Some q) p ts" "ts \<noteq> []" "\<forall>a\<in>set (ptrs_of ts). has_object k m a" "d \<noteq> 0"
    and "d = 1 \<or> has_object k m q" "unat d + height ts \<le> 2 ^ 32"
  shows "walk_loop k m desc asc type_mask md lck perm p False matches d h =
    (case walk_forest k m desc asc type_mask md lck perm d ts h of
       (Some r, h') \<Rightarrow> Some (r, h')
     | (None, h') \<Rightarrow> walk_loop k m desc asc type_mask md lck perm (Some q) True True (d - 1) h')"
  using assms
proof (induction ts arbitrary: q p d matches h rule: ptrs_of.induct)
  case (2 a ts us)
  let ?W = "walk_loop k m desc asc type_mask md lck perm"
  let ?F = "walk_forest k m desc asc type_mask md lck perm"
  from 2(3) obtain n where n: "p = Some a" "m a = Some n" "parent n = Some q" "chain m (Some a) (child n) ts"
      "chain m (Some q) (next_peer n) us" by auto
  have a: "has_object k m a" using 2(5) by simp
  let ?mt = "\<lambda>h. uacpi_object_is_one_of k h (uacpi_namespace_node_get_object k h n) type_mask"
  have up: "?W (Some a) True mt d h =
      (case visit_node k lck perm asc (?mt h) n a d h of
         (Some r, _, h) \<Rightarrow> Some (r, h)
       | (None, _, h) \<Rightarrow> (case ?F d us h of (Some r, h) \<Rightarrow> Some (r, h) | (None, h) \<Rightarrow> ?W (Some q) True True (d - 1) h))" for mt h
  proof (cases "us = []")
    case True
    then have "next_peer n = None" using n(5) by simp
    moreover have "?W (Some q) True mt' (d - 1) h' = ?W (Some q) True True (d - 1) h'" for mt' h'
      by (rule walk_loop_matches) (use 2(7) in auto)
    ultimately show ?thesis using n True 2(6) a
      by (simp add: walk_loop_at [of m a n k] Let_def split: prod.splits option.splits)
  next
    case False
    then have "next_peer n \<noteq> None" using n(5) chain_next by blast
    moreover have "?W (next_peer n) False mt' d h' =
        (case ?F d us h' of (Some r, h) \<Rightarrow> Some (r, h) | (None, h) \<Rightarrow> ?W (Some q) True True (d - 1) h)" for mt' h'
      by (rule 2(2) [OF n(5) False]) (use 2(5-) in auto)
    ultimately show ?thesis using n 2(6) a
      by (simp add: walk_loop_at [of m a n k] Let_def split: prod.splits option.splits)
  qed
  have down: "?W (child n) False mt (d + 1) h =
      (case ?F (d + 1) ts h of (Some r, h) \<Rightarrow> Some (r, h) | (None, h) \<Rightarrow> ?W (Some a) True True d h)" if "ts \<noteq> []" for mt h
  proof -
    have "2 \<le> height (NT a ts # us)" using that by (cases ts rule: ptrs_of.cases) auto
    with 2(8) have d: "unat (d + 1) = unat d + 1" by (rule succ_nonzero)
    then have "d + 1 \<noteq> 0" by (metis add_is_0 unsigned_0 zero_neq_one)
    moreover have "unat (d + 1) + height ts \<le> 2 ^ 32" using d 2(8) by simp
    moreover have "\<forall>a\<in>set (ptrs_of ts). has_object k m a" using 2(5) by simp
    ultimately show ?thesis using 2(1) [OF n(4) that, of "d + 1" mt h, unfolded add_diff_cancel_right'] a by simp
  qed
  have child: "child n = None \<longleftrightarrow> ts = []" using n(4) by (rule chain_next)
  show ?case
  proof (cases "visit_node k lck perm desc (?mt h) n a d h")
    case (fields stop decision h1)
    show ?thesis
    proof (cases stop)
      case (Some r)
      with fields n 2(6) a show ?thesis by (simp add: walk_loop_at [of m a n k] Let_def)
    next
      case None
      show ?thesis
      proof (cases "decision = UACPI_ITERATION_DECISION_CONTINUE \<and> d \<noteq> md \<and> ts \<noteq> []")
        case True
        then show ?thesis using fields None n 2(6) a child down [of _ h1] up
          by (simp add: walk_loop_at [where a = a and n = n and up = False] Let_def split: prod.splits option.splits)
      next
        case False
        then have "(if decision = UACPI_ITERATION_DECISION_CONTINUE \<and> d \<noteq> md then ?F (d + 1) ts h1 else (None, h1)) = (None, h1)"
          by auto
        with False show ?thesis using fields None n 2(6) a child up
          by (auto simp add: walk_loop_at [where a = a and n = n and up = False] Let_def split: prod.split option.split)
      qed
    qed
  qed
qed simp


section \<open>Setting up and taking down\<close>

text \<open>What the initialization uses beyond that: the lock itself, new objects and references, and the
  text of a string object.\<close>

record 'h init_host = "'h ns_host" +
  rw_lock_init :: "'h \<Rightarrow> uacpi_status \<times> 'h"
  rw_lock_deinit :: "'h \<Rightarrow> 'h"
  create_object :: "nat \<Rightarrow> 'h \<Rightarrow> u64 \<times> 'h"
  create_internal_reference :: "u64 \<Rightarrow> 'h \<Rightarrow> u64 \<times> 'h"
  set_object_text :: "u64 \<Rightarrow> string \<Rightarrow> 'h \<Rightarrow> bool \<times> 'h"
  set_object_integer :: "u64 \<Rightarrow> u64 \<Rightarrow> 'h \<Rightarrow> 'h"
  set_root_object :: "u64 \<Rightarrow> 'h \<Rightarrow> 'h"
  root_object :: "'h \<Rightarrow> u64"
  share_global_lock_mutex :: "u64 \<Rightarrow> 'h \<Rightarrow> 'h"
  unref_global_lock_mutex :: "'h \<Rightarrow> 'h"
  set_osi_method :: "u64 \<Rightarrow> 'h \<Rightarrow> 'h"
  osi_disabled :: "'h \<Rightarrow> bool"





partial_function (option) wipe_children :: "('h, 'x) ns_host_scheme \<Rightarrow> nat \<Rightarrow> 'h namespace \<Rightarrow> 'h namespace option" where
  "wipe_children k a s =
     do { n \<leftarrow> nodes s a;
          case child n of None \<Rightarrow> Some s
          | Some c \<Rightarrow> do { (_, s) \<leftarrow> uacpi_namespace_node_uninstall k c s; wipe_children k a s } }"

partial_function (option) deinit_loop :: "('h, 'x) ns_host_scheme \<Rightarrow> ptr \<Rightarrow> ptr \<Rightarrow> u32 \<Rightarrow> 'h namespace \<Rightarrow> 'h namespace option" where
  "deinit_loop k current nxt depth s =
     (if depth = 0 then Some s
      else do {
        nxt \<leftarrow> (if nxt = None then map_option child (deref (nodes s) current)
                else map_option next_peer (deref (nodes s) nxt));
        if nxt = None then do {
          c \<leftarrow> current;
          s \<leftarrow> wipe_children k c s;
          n \<leftarrow> nodes s c;
          deinit_loop k (parent n) (Some c) (depth - 1) s }
        else do {
          n \<leftarrow> deref (nodes s) nxt;
          if child n \<noteq> None then deinit_loop k nxt None (depth + 1) s
          else deinit_loop k current nxt depth s } })"

definition uacpi_deinitialize_namespace :: "('h, 'x) init_host_scheme \<Rightarrow> 'h namespace \<Rightarrow> 'h namespace option" where
  "uacpi_deinitialize_namespace k s =
     (let (ret, h) = write_lock k (host s)
      in do {
        s \<leftarrow> deinit_loop k (Some uacpi_namespace_root) None 1 (s\<lparr>host := h\<rparr>);
        s \<leftarrow> namespace_node_detach_object k uacpi_namespace_root s;
        let m = free_namespace_node uacpi_namespace_root (nodes s);
        let h = (if ret = UACPI_STATUS_OK then snd (write_unlock k (host s)) else host s);
        let h = set_root_object k 0 (object_unref k (root_object k h) h);
        let h = rw_lock_deinit k (unref_global_lock_mutex k h);
        Some \<lparr>nodes = m, host = h\<rparr> })"

section \<open>What the initialization builds\<close>






section \<open>Properties\<close>

text \<open>C15: the iterator walks the tree.  Below any node of a well-formed namespace whose nodes have
  objects, it calls back on exactly the nodes that match, every node before its children, with
  its ascending call after them, down to the depth that was asked for; it ends, with the status
  of success or of the call that ended it, and with the lock given up.\<close>

theorem for_each_child_walks_tree:
  assumes tree: "represents (nodes s) ts" and q: "kids_of q [NT uacpi_namespace_root ts] = Some ks"
    and objs: "\<forall>a\<in>set (ptrs_of ks). has_object k (nodes s) a" and depth: "height ks < 2 ^ 32"
    and cbs: "desc \<noteq> None \<or> asc \<noteq> None" and md: "max_depth \<noteq> 0"
    and lck: "(if lck then read_lock k (host s) else (UACPI_STATUS_OK, host s)) = (UACPI_STATUS_OK, h)"
  shows "uacpi_namespace_do_for_each_child k True (Some q) desc asc type_mask max_depth lck perm s =
    Some (case walk_forest k (nodes s) desc asc type_mask max_depth lck perm 1 ks h of
            (Some ret, h) \<Rightarrow> (ret, h) | (None, h) \<Rightarrow> (UACPI_STATUS_OK, walk_unlock k lck h))"
proof -
  have c: "chain (nodes s) None (Some uacpi_namespace_root) [NT uacpi_namespace_root ts]"
    using tree by (simp only: represents_def)
  from chain_kids [OF c q] obtain n where n: "nodes s q = Some n" "chain (nodes s) (Some q) (child n) ks" by blast
  have child: "child n = None \<longleftrightarrow> ks = []" using n(2) by (rule chain_next)
  have "deref (nodes s) (Some q) = Some n" using n(1) by (simp add: deref_def)
  moreover have "walk_loop k (nodes s) desc asc type_mask max_depth lck perm (child n) False False 1 h =
     Some (case walk_forest k (nodes s) desc asc type_mask max_depth lck perm 1 ks h of
            (Some ret, h) \<Rightarrow> (ret, h) | (None, h) \<Rightarrow> (UACPI_STATUS_OK, walk_unlock k lck h))" if "ks \<noteq> []"
    using walk_loop_forest [OF n(2) that objs, of 1 desc asc type_mask max_depth lck perm False h] depth
    by (simp add: walk_loop.simps split: prod.splits option.splits)
  ultimately show ?thesis
    using cbs md lck child
    by (cases "ks = []") (auto simp: uacpi_namespace_do_for_each_child_def Let_def)
qed

lemma example_has_object: "\<forall>a\<in>{0, 1, 2, 3, 4, 5}. has_object example_host example_nodes a"
  by (simp add: has_object_def example_nodes_def example_node_def example_host_def)

lemma for_each_child_walks_tree_witness:
  "uacpi_namespace_do_for_each_child example_host True (Some 0) (Some (\<lambda>a d h. (0, h))) None 1 5 True True example_namespace =
    Some (case walk_forest example_host (nodes example_namespace) (Some (\<lambda>a d h. (0, h))) None 1 5 True True 1
            [NT 1 [NT 2 [], NT 3 []], NT 4 []] () of
          (Some ret, h) \<Rightarrow> (ret, h) | (None, h) \<Rightarrow> (UACPI_STATUS_OK, walk_unlock example_host True h))"
  by (rule for_each_child_walks_tree [OF example_represents])
    (simp_all add: uacpi_namespace_root_def UACPI_PREDEFINED_NAMESPACE_ROOT_def example_namespace_def example_has_object [simplified],
     simp add: example_host_def)





end
