(* ===== verification/Spec2Isabelle.thy ===== *)
theory Spec2Isabelle
  imports Mem Serial Paging Pmm Gdt Interrupts Table_Install Kernel_Acpi Refcount Format Rw_Lock Osi Bit_Field Registers Parse_Check Namespace_Walk
begin

text \<open>
  A model of kptrOS, a small x86-64 kernel (\<^verbatim>\<open>src/kern\<close>) that carries the ACPI library
  uACPI (\<^verbatim>\<open>src/kern/acpi\<close>, \<^verbatim>\<open>include/uacpi\<close>).

  \<^bold>\<open>The program.\<close>  The boot loader enters \<^verbatim>\<open>kernel_main\<close>, which loads the segment and
  interrupt descriptors, sets up the pages of physical memory from the boot memory map, finds
  the ACPI tables and starts the timer.  Everything prints on the serial port; a fault prints a
  report and halts.  The library gets its memory and its tables through the host functions of
  \<^verbatim>\<open>src/kern/acpi.c\<close>.  The kernel compiles the library in its bare-bones mode, which has
  the table store, the built-in C library and little else; the other files of the library are in
  the repository and are modelled as the code they are, for the mode in which they are compiled.

  \<^bold>\<open>Theories of the kernel.\<close>
  \<^descr> \<^verbatim>\<open>Prelude\<close>: machine integers, loops over machine addresses, lemmas on words and lists.
  \<^descr> \<^verbatim>\<open>Mem\<close>: byte memory as a function from addresses; \<^verbatim>\<open>mem/memcpy.c\<close>, \<^verbatim>\<open>memmove.c\<close>,
    \<^verbatim>\<open>memset.c\<close>, \<^verbatim>\<open>memcmp.c\<close> and the library's built-in versions.  Locale \<open>block_move\<close> states
    what a move of overlapping blocks owes its caller; both versions interpret it.
  \<^descr> \<^verbatim>\<open>Serial\<close>: \<^verbatim>\<open>serial/serial.c\<close>, the console as the list of bytes sent to the port.
  \<^descr> \<^verbatim>\<open>Paging\<close>: \<^verbatim>\<open>mem/paging.c\<close>, the four boot tables and the loops that fill them.
  \<^descr> \<^verbatim>\<open>Pmm\<close>: \<^verbatim>\<open>mem/pmm.c\<close>, the table of page addresses and its bitmap.  Locale
    \<open>page_allocator\<close> has the laws of allocation and release.
  \<^descr> \<^verbatim>\<open>Gdt\<close>, \<^verbatim>\<open>Interrupts\<close>: \<^verbatim>\<open>cpu/gdt.c\<close>, \<^verbatim>\<open>cpu/idt.c\<close>, \<^verbatim>\<open>cpu/stub.asm\<close>, \<^verbatim>\<open>panic.c\<close>: the stack frame
    the stubs build and the way the handler reads it.
  \<^descr> \<^verbatim>\<open>Kernel_Acpi\<close>: \<^verbatim>\<open>acpi.c\<close>, \<^verbatim>\<open>hpet.c\<close>, \<^verbatim>\<open>main.c\<close>, which join allocator, console and table
    store.

  \<^bold>\<open>Theories of the library.\<close>
  \<^descr> \<^verbatim>\<open>Acpi_Base\<close>: status codes, little-endian data, table headers.
  \<^descr> \<^verbatim>\<open>Ascii\<close>, \<^verbatim>\<open>Stdlib\<close>, \<^verbatim>\<open>Format\<close>: \<^verbatim>\<open>utilities.c\<close> (characters, numbers, EISA identifiers),
    \<^verbatim>\<open>stdlib.c\<close> (strings, bit scans, \<^verbatim>\<open>uacpi_vsnprintf\<close> and \<^verbatim>\<open>uacpi_log\<close>).
  \<^descr> \<^verbatim>\<open>Dynamic_Array\<close>: \<^verbatim>\<open>dynamic_array.h\<close>; locale \<open>array_allocator\<close> for both allocators.
  \<^descr> \<^verbatim>\<open>Tables\<close>, \<^verbatim>\<open>Table_Access\<close>, \<^verbatim>\<open>Table_Properties\<close>, \<^verbatim>\<open>Table_Install\<close>: \<^verbatim>\<open>tables.c\<close>.  The first two
    hold the operations, the others the invariant of the store, the searches, and the
    installation.  The host is a record of functions over its own state.
  \<^descr> \<^verbatim>\<open>Refcount\<close>: \<^verbatim>\<open>shareable.c\<close>; locale \<open>saturating_refcount\<close> covers this counter and the one
    of the tables.
  \<^descr> \<^verbatim>\<open>Mutex\<close>, \<^verbatim>\<open>Rw_Lock\<close>: \<^verbatim>\<open>mutex.c\<close>.  Locale \<open>nested_lock\<close> covers the recursive lock and the AML
    mutex.  The reader-writer lock is a step relation for any number of threads.
  \<^descr> \<^verbatim>\<open>Osi\<close>: \<^verbatim>\<open>osi.c\<close>, refined to the set of supported names.
  \<^descr> \<^verbatim>\<open>Bit_Field\<close>, \<^verbatim>\<open>Gas_Io\<close>: \<^verbatim>\<open>io.c\<close>, bits across bytes and generic addresses.  Locale \<open>gas_device\<close>
    says what a device that keeps its bits promises; byte memory interprets it.
  \<^descr> \<^verbatim>\<open>Registers\<close>: \<^verbatim>\<open>registers.c\<close> with the masks of \<^verbatim>\<open>acpi.h\<close>.

  \<^bold>\<open>Conventions.\<close>  A structure is a record, an enumeration a datatype or its number, an integer a
  word of its width.  \<open>None\<close> is undefined behaviour (an access outside an array, a read past a
  string) or a loop that does not end, as the theory says; a theorem that a function returns is
  stated as such.  A status and output parameters are a pair; an output parameter that is not
  written is \<open>None\<close>.

  \<^bold>\<open>Bounds and fuel.\<close>  The recursion of the table installation has fuel: a level per table a fixed
  description table leads to, two being enough when wrong signatures are fatal
  (\<open>fatal_signatures_terminate\<close>), and no amount being enough when a table leads back to itself
  (\<open>self_pointing_fadt_never_returns\<close>).  Loops over addresses run by their count.  The attempts
  on the firmware's lock are the 65535 of the code.  The loops of \<^verbatim>\<open>io.c\<close> are
  \<^verbatim>\<open>partial_function\<close>s, shown to end in \<open>gas_accesses_end\<close>.

  \<^bold>\<open>What is shown.\<close>  Allocation hands out distinct usable pages; the table store keeps its
  invariant and its references; printing stays in its buffer and renders what it is asked to;
  numbers printed are read back; blocks move correctly; the locks exclude and nest; the fields of
  registers and buffers keep their neighbours.  Where the code does something else than it means
  to, the theorem says what it does: the interrupt frame, the loaded segment table, the page
  tables, the leak of mapped pages, the status bits.

  \<^bold>\<open>Not modelled.\<close>  One-instruction wrappers of the processor; log messages of the library, which
  change no state of it; the aliasing of a table header with the mapping of its table.  Of the
  full build: the interpreter and its objects, the events, the operation regions, the resources
  and the nodes of the namespace.
\<close>

end
